(* ===== verification/Prelude.thy ===== *)
theory Prelude
  imports Main "HOL-Library.Char_ord" "HOL-Library.List_Lexorder" "HOL-Library.Multiset"
begin

text \<open>
  What every theory of the development shares: the error values of the Go code, the result
  type of a fallible Go function, the 64-bit wrap of Go's \<open>int\<close> and \<open>int64\<close>, and generic
  lemmas on lists that stand for database tables.
\<close>

named_theorems table_simps \<open>lookup and update laws of the database tables\<close>
named_theorems str_simps \<open>facts on trimmed and split Go strings\<close>

section \<open>Go errors and results\<close>

text \<open>
  A Go \<open>error\<close> is one of the sentinel values the code compares with \<open>errors.Is\<close>, a
  failed SQL constraint, a \<open>Scan\<close> of NULL into a non-nullable variable, a failed external
  command, or a message built by \<open>errors.New\<close> and \<open>fmt.Errorf\<close>.
\<close>

datatype goerr =
    ErrNoRows
  | ErrNoWG
  | ErrNoClientPrivateKey
  | ErrConstraint string
  | ErrNullScan string
  | ErrIO string
  | ErrMsg string
  | ErrWrap string goerr

type_synonym 'a res = "goerr + 'a"

definition isOk :: "'a res \<Rightarrow> bool" where
  "isOk r = (case r of Inl _ \<Rightarrow> False | Inr _ \<Rightarrow> True)"

definition bindR :: "'a res \<Rightarrow> ('a \<Rightarrow> 'b res) \<Rightarrow> 'b res" where
  "bindR r f = (case r of Inl e \<Rightarrow> Inl e | Inr x \<Rightarrow> f x)"

lemma isOk_simps [simp]: "isOk (Inl e) = False" "isOk (Inr x) = True"
  by (simp_all add: isOk_def)

lemma bindR_simps [simp]: "bindR (Inl e) f = Inl e" "bindR (Inr x) f = f x"
  by (simp_all add: bindR_def)

lemma bindR_eq_Inr: "bindR r f = Inr y \<longleftrightarrow> (\<exists>x. r = Inr x \<and> f x = Inr y)"
  by (cases r) auto

lemma bindR_eq_Inl: "bindR r f = Inl e \<longleftrightarrow> r = Inl e \<or> (\<exists>x. r = Inr x \<and> f x = Inl e)"
  by (cases r) auto

section \<open>Machine integers\<close>

text \<open>
  Go's \<open>int64\<close> (and \<open>int\<close> on the 64-bit platforms the program is built for) wraps around.
  Values are kept as \<open>int\<close>, and every sum the code forms from stored counters goes
  through \<open>i64\<close>.
\<close>

definition i64 :: "int \<Rightarrow> int" where
  "i64 x = (x + 2 ^ 63) mod 2 ^ 64 - 2 ^ 63"

definition int64_ok :: "int \<Rightarrow> bool" where
  "int64_ok x \<longleftrightarrow> - (2 ^ 63) \<le> x \<and> x < 2 ^ 63"

lemma i64_id [simp]: "int64_ok x \<Longrightarrow> i64 x = x"
  by (simp add: i64_def int64_ok_def)

lemma i64_range: "int64_ok (i64 x)"
  by (auto simp: i64_def int64_ok_def)

lemma i64_small: "0 \<le> x \<Longrightarrow> x < 2 ^ 63 \<Longrightarrow> i64 x = x"
  by (simp add: int64_ok_def)

text \<open>Go's integer division truncates towards zero.\<close>

definition go_div :: "int \<Rightarrow> int \<Rightarrow> int" where
  "go_div a b = sgn a * sgn b * (\<bar>a\<bar> div \<bar>b\<bar>)"

lemma go_div_nonneg: "0 \<le> a \<Longrightarrow> 0 < b \<Longrightarrow> go_div a b = a div b"
  by (cases "a = 0") (simp_all add: go_div_def sgn_if)

section \<open>Rows of a table\<close>

text \<open>
  A database table is the list of its rows. \<open>upd_where\<close> is \<open>UPDATE ... WHERE\<close>,
  \<open>filter\<close> is \<open>DELETE\<close> or \<open>SELECT\<close>, \<open>find\<close> is \<open>SELECT ... LIMIT 1\<close>; \<open>distinct_on\<close> is a
  uniqueness constraint.
\<close>

definition upd_where :: "('r \<Rightarrow> bool) \<Rightarrow> ('r \<Rightarrow> 'r) \<Rightarrow> 'r list \<Rightarrow> 'r list" where
  "upd_where P f rs = map (\<lambda>r. if P r then f r else r) rs"

definition distinct_on :: "('r \<Rightarrow> 'k) \<Rightarrow> 'r list \<Rightarrow> bool" where
  "distinct_on k rs = distinct (map k rs)"

lemma upd_where_simps [simp]:
  "upd_where P f [] = []"
  "upd_where P f (r # rs) = (if P r then f r else r) # upd_where P f rs"
  by (simp_all add: upd_where_def)

lemma length_upd_where [simp]: "length (upd_where P f rs) = length rs"
  by (simp add: upd_where_def)

lemma map_upd_where: "(\<And>r. P r \<Longrightarrow> k (f r) = k r) \<Longrightarrow> map k (upd_where P f rs) = map k rs"
  by (simp add: upd_where_def)

lemma distinct_on_upd_where [intro]:
  "distinct_on k rs \<Longrightarrow> (\<And>r. P r \<Longrightarrow> k (f r) = k r) \<Longrightarrow> distinct_on k (upd_where P f rs)"
  by (simp add: distinct_on_def map_upd_where)

lemma distinct_on_filter [intro]: "distinct_on k rs \<Longrightarrow> distinct_on k (filter P rs)"
  by (simp add: distinct_on_def distinct_map_filter)

lemma distinct_on_append1:
  "distinct_on k (rs @ [r]) \<longleftrightarrow> distinct_on k rs \<and> k r \<notin> k ` set rs"
  by (auto simp: distinct_on_def)

lemma distinct_on_eq:
  "distinct_on k rs \<Longrightarrow> r \<in> set rs \<Longrightarrow> r' \<in> set rs \<Longrightarrow> k r = k r' \<Longrightarrow> r = r'"
  by (simp add: distinct_on_def distinct_map inj_on_def)

lemma find_eq_None: "find P rs = None \<longleftrightarrow> (\<forall>r \<in> set rs. \<not> P r)"
  by (auto simp: find_None_iff)

lemma find_eq_Some_in: "find P rs = Some r \<Longrightarrow> r \<in> set rs \<and> P r"
  by (induction rs) (auto split: if_splits)

lemma find_unique:
  assumes "distinct_on k rs" and "r \<in> set rs"
  shows "find (\<lambda>x. k x = k r) rs = Some r"
proof (cases "find (\<lambda>x. k x = k r) rs")
  case None
  with assms(2) show ?thesis by (auto simp: find_eq_None)
next
  case (Some r')
  then have "r' \<in> set rs" and "k r' = k r" by (auto dest: find_eq_Some_in)
  with assms have "r' = r" by (auto dest: distinct_on_eq)
  with Some show ?thesis by simp
qed

lemma set_upd_where: "set (upd_where P f rs) = f ` {r \<in> set rs. P r} \<union> {r \<in> set rs. \<not> P r}"
  by (auto simp: upd_where_def)

section \<open>Folds over rows\<close>

text \<open>
  Queries without \<open>ORDER BY\<close> return their rows in no fixed order. A fold whose step
  commutes gives the same result for every order.
\<close>

locale order_free =
  fixes step :: "'s \<Rightarrow> 'r \<Rightarrow> 's"
  assumes step_commute: "step (step s a) b = step (step s b) a"
begin

lemma foldl_step: "foldl step (step s a) rs = step (foldl step s rs) a"
  by (induction rs arbitrary: s) (simp_all add: step_commute)

lemma foldl_append1: "foldl step s (rs1 @ a # rs2) = foldl step s (a # rs1 @ rs2)"
  by (simp add: foldl_step)

lemma foldl_perm: "mset rs = mset rs' \<Longrightarrow> foldl step s rs = foldl step s rs'"
proof (induction rs arbitrary: rs' s)
  case Nil
  then show ?case by simp
next
  case (Cons a rs)
  then have "a \<in> set rs'" by (metis list.set_intros(1) set_mset_mset)
  then obtain xs ys where rs': "rs' = xs @ a # ys" by (auto simp: in_set_conv_decomp)
  with Cons.prems have "mset rs = mset (xs @ ys)" by simp
  then have "foldl step (step s a) rs = foldl step (step s a) (xs @ ys)" by (rule Cons.IH)
  then show ?case by (simp add: rs' foldl_append1 del: foldl_append)
qed

end

section \<open>Invariants of step relations\<close>

text \<open>
  What holds at the start and is kept by every step holds after any number of them. The requests and
  events of the program are step relations, each with its invariant.
\<close>

locale kept_by_steps =
  fixes step :: "'s \<Rightarrow> 's \<Rightarrow> bool"
    and inv :: "'s \<Rightarrow> bool"
  assumes step_keeps: "step s t \<Longrightarrow> inv s \<Longrightarrow> inv t"
begin

lemma steps_keep: "step\<^sup>*\<^sup>* s t \<Longrightarrow> inv s \<Longrightarrow> inv t"
  by (induction rule: rtranclp_induct) (auto intro: step_keeps)

text \<open>An invariant that needs another one of every state on the way.\<close>

lemma steps_keep_also:
  assumes "step\<^sup>*\<^sup>* s t" and "inv s" and "P s" and "\<And>u v. step u v \<Longrightarrow> inv u \<Longrightarrow> P u \<Longrightarrow> P v"
  shows "P t"
proof -
  have "inv t \<and> P t" using assms by (induction rule: rtranclp_induct) (auto intro: step_keeps)
  then show ?thesis by simp
qed

end

end
