(* ===== verification/Store.thy ===== *)
theory Store
  imports Prelude
begin

text \<open>
  The SQLite database of \<open>internal/db/migrate.go\<close> and \<open>internal/db/schema_patches.go\<close>: one
  record per table, a table as the list of its rows, the constraints of the schema (primary
  keys, \<open>UNIQUE\<close> columns, foreign keys with \<open>ON DELETE CASCADE\<close>) as the invariant \<open>db_ok\<close>,
  and the statements that change rows of several tables at once. The columns \<open>created_at\<close> and
  \<open>updated_at\<close>, which no code of the program branches on, are left out, as are the tables
  \<open>schema_migrations\<close>, \<open>smtp_config\<close> and \<open>sessions\<close>, which no modelled code reads.
  A NULL is \<open>None\<close>; the text of \<open>vpn_configuration\<close> is kept decoded.
\<close>

section \<open>Tables\<close>

record vpn_user =
  u_id :: string
  u_username :: string
  u_common_name :: "string option"
  u_allowed_ips :: "string option"
  u_endpoint :: "string option"
  u_last_handshake :: "string option"
  u_private_key :: "string option"
  u_public_key :: "string option"
  u_preshared_key :: "string option"
  u_bytes_received :: int
  u_bytes_sent :: int
  u_prev_bytes_received :: int
  u_prev_bytes_sent :: int
  u_bytes_received_rate :: int
  u_bytes_sent_rate :: int
  u_total_bytes_received :: int
  u_total_bytes_sent :: int
  u_remaining_days :: "int option"
  u_remaining_traffic :: "int option"
  u_last_day_check :: "string option"
  u_connected_at :: "string option"
  u_is_connected :: bool
  u_is_enabled :: bool
  u_server_id :: string
  u_peer_icon :: "string option"

record vpn_server =
  s_id :: string
  s_name :: string
  s_protocol :: string
  s_host :: string
  s_port :: "int option"
  s_config_path :: "string option"
  s_is_active :: bool
  s_private_key :: "string option"
  s_public_key :: "string option"

record vpn_group =
  g_id :: string
  g_name :: string
  g_description :: "string option"

record vpn_member =
  m_group :: string
  m_user :: string

record vpn_pcq =
  q_group :: string
  q_download :: "int option"
  q_upload :: "int option"
  q_burst_download :: "int option"
  q_burst_upload :: "int option"
  q_classifier :: string
  q_disabled :: bool

record admin_user =
  a_id :: string
  a_username :: string
  a_password :: string
  a_role :: string

record dns_settings_row =
  ds_enabled :: bool
  ds_client_dns_host :: string
  ds_listen_host :: string
  ds_listen_addr :: string
  ds_listen_port :: int
  ds_binary :: string
  ds_upstreams :: string
  ds_block_ads :: bool
  ds_blocklist_urls :: string
  ds_block_address :: string
  ds_cache_ttl :: int
  ds_query_log :: bool

record dns_record =
  r_id :: string
  r_name :: string
  r_type :: string
  r_value :: string
  r_ttl :: int
  r_enabled :: bool

record dns_rule =
  dr_id :: string
  dr_domain :: string
  dr_type :: string
  dr_enabled :: bool

record bw_snapshot =
  bs_id :: string
  bs_timestamp :: string
  bs_download :: int
  bs_upload :: int

text \<open>The object under the key \<open>wireGuard\<close> of \<open>system_config.vpn_configuration\<close>.\<close>

record wgconf =
  w_enabled :: bool
  w_server_host :: string
  w_server_port :: int
  w_server_address :: string
  w_client_range :: string
  w_dns :: string
  w_mtu :: int
  w_keepalive :: int
  w_allowed_ips :: string
  w_pre_up :: string
  w_pre_down :: string
  w_post_up :: string
  w_post_down :: string

record sys_config =
  sc_complete :: bool
  sc_config :: "wgconf option"

record db =
  servers :: "vpn_server list"
  users :: "vpn_user list"
  groups :: "vpn_group list"
  members :: "vpn_member list"
  pcqs :: "vpn_pcq list"
  admins :: "admin_user list"
  sysconf :: "sys_config option"
  dns_settings :: "dns_settings_row option"
  dns_records :: "dns_record list"
  dns_rules :: "dns_rule list"
  snapshots :: "bw_snapshot list"

definition db_empty :: db where
  "db_empty = \<lparr>servers = [], users = [], groups = [], members = [], pcqs = [], admins = [],
     sysconf = None, dns_settings = None, dns_records = [], dns_rules = [], snapshots = []\<rparr>"

section \<open>Integrity\<close>

definition keys_ok :: "db \<Rightarrow> bool" where
  "keys_ok d \<longleftrightarrow>
     distinct_on s_id (servers d) \<and> distinct_on u_id (users d) \<and> distinct_on u_username (users d)
   \<and> distinct_on g_id (groups d) \<and> distinct_on g_name (groups d)
   \<and> distinct_on (\<lambda>m. (m_group m, m_user m)) (members d) \<and> distinct_on q_group (pcqs d)
   \<and> distinct_on a_id (admins d) \<and> distinct_on a_username (admins d)
   \<and> distinct_on r_id (dns_records d) \<and> distinct_on dr_id (dns_rules d)"

definition refs_ok :: "db \<Rightarrow> bool" where
  "refs_ok d \<longleftrightarrow>
     (\<forall>u \<in> set (users d). u_server_id u \<in> s_id ` set (servers d))
   \<and> (\<forall>m \<in> set (members d). m_group m \<in> g_id ` set (groups d) \<and> m_user m \<in> u_id ` set (users d))
   \<and> (\<forall>q \<in> set (pcqs d). q_group q \<in> g_id ` set (groups d))"

definition db_ok :: "db \<Rightarrow> bool" where
  "db_ok d \<longleftrightarrow> keys_ok d \<and> refs_ok d"

lemma db_ok_empty: "db_ok db_empty"
  by (simp add: db_ok_def keys_ok_def refs_ok_def db_empty_def distinct_on_def)

section \<open>Statements on users, groups and their relations\<close>

text \<open>
  A row of \<open>vpn_users\<close> with the defaults of the schema, and \<open>INSERT INTO vpn_users\<close> with the
  constraint that fails first.
\<close>

definition user_row :: "string \<Rightarrow> string \<Rightarrow> string \<Rightarrow> vpn_user" where
  "user_row i name server =
     \<lparr>u_id = i, u_username = name, u_common_name = None, u_allowed_ips = None, u_endpoint = None,
      u_last_handshake = None, u_private_key = None, u_public_key = None, u_preshared_key = None,
      u_bytes_received = 0, u_bytes_sent = 0, u_prev_bytes_received = 0, u_prev_bytes_sent = 0,
      u_bytes_received_rate = 0, u_bytes_sent_rate = 0, u_total_bytes_received = 0,
      u_total_bytes_sent = 0, u_remaining_days = None, u_remaining_traffic = None,
      u_last_day_check = None, u_connected_at = None, u_is_connected = False, u_is_enabled = True,
      u_server_id = server, u_peer_icon = None\<rparr>"

definition insert_user :: "vpn_user \<Rightarrow> db \<Rightarrow> db res" where
  "insert_user u d =
     (if u_id u \<in> u_id ` set (users d) then Inl (ErrConstraint ''vpn_users.id'')
      else if u_username u \<in> u_username ` set (users d) then Inl (ErrConstraint ''vpn_users.username'')
      else if u_server_id u \<notin> s_id ` set (servers d) then Inl (ErrConstraint ''FOREIGN KEY'')
      else Inr (d\<lparr>users := users d @ [u]\<rparr>))"

text \<open>
  An \<open>UPDATE vpn_users\<close> that keeps the key and the server of a row; \<open>UNIQUE(username)\<close> may
  fail.
\<close>

definition update_user :: "string \<Rightarrow> (vpn_user \<Rightarrow> vpn_user) \<Rightarrow> db \<Rightarrow> db res" where
  "update_user i f d =
     (let us = upd_where (\<lambda>u. u_id u = i) f (users d) in
      if distinct_on u_username us then Inr (d\<lparr>users := us\<rparr>)
      else Inl (ErrConstraint ''vpn_users.username''))"

text \<open>\<open>DELETE FROM vpn_users WHERE id = ?\<close> takes the memberships of the user with it.\<close>

definition delete_user :: "string \<Rightarrow> db \<Rightarrow> db" where
  "delete_user i d =
     d\<lparr>users := filter (\<lambda>u. u_id u \<noteq> i) (users d),
       members := filter (\<lambda>m. m_user m \<noteq> i) (members d)\<rparr>"

definition insert_group :: "vpn_group \<Rightarrow> db \<Rightarrow> db res" where
  "insert_group g d =
     (if g_id g \<in> g_id ` set (groups d) then Inl (ErrConstraint ''vpn_groups.id'')
      else if g_name g \<in> g_name ` set (groups d) then Inl (ErrConstraint ''vpn_groups.name'')
      else Inr (d\<lparr>groups := groups d @ [g]\<rparr>))"

text \<open>\<open>DELETE FROM vpn_groups\<close> takes members and queue preset with it.\<close>

definition delete_group :: "string \<Rightarrow> db \<Rightarrow> db" where
  "delete_group i d =
     d\<lparr>groups := filter (\<lambda>g. g_id g \<noteq> i) (groups d),
       members := filter (\<lambda>m. m_group m \<noteq> i) (members d),
       pcqs := filter (\<lambda>q. q_group q \<noteq> i) (pcqs d)\<rparr>"

text \<open>
  \<open>INSERT OR IGNORE INTO vpn_group_members\<close>: a duplicate is ignored, a missing group or user
  is a foreign key failure that \<open>OR IGNORE\<close> does not cover.
\<close>

definition insert_member :: "string \<Rightarrow> string \<Rightarrow> db \<Rightarrow> db res" where
  "insert_member gi ui d =
     (if (gi, ui) \<in> (\<lambda>m. (m_group m, m_user m)) ` set (members d) then Inr d
      else if gi \<notin> g_id ` set (groups d) \<or> ui \<notin> u_id ` set (users d)
      then Inl (ErrConstraint ''FOREIGN KEY'')
      else Inr (d\<lparr>members := members d @ [\<lparr>m_group = gi, m_user = ui\<rparr>]\<rparr>))"

definition delete_member :: "string \<Rightarrow> string \<Rightarrow> db \<Rightarrow> db" where
  "delete_member gi ui d =
     d\<lparr>members := filter (\<lambda>m. \<not> (m_group m = gi \<and> m_user m = ui)) (members d)\<rparr>"

text \<open>\<open>INSERT INTO vpn_group_pcq ... ON CONFLICT(group_id) DO UPDATE\<close>.\<close>

definition upsert_pcq :: "vpn_pcq \<Rightarrow> db \<Rightarrow> db res" where
  "upsert_pcq q d =
     (if q_group q \<in> q_group ` set (pcqs d)
      then Inr (d\<lparr>pcqs := upd_where (\<lambda>r. q_group r = q_group q) (\<lambda>_. q) (pcqs d)\<rparr>)
      else if q_group q \<notin> g_id ` set (groups d) then Inl (ErrConstraint ''FOREIGN KEY'')
      else Inr (d\<lparr>pcqs := pcqs d @ [q]\<rparr>))"

definition delete_pcq :: "string \<Rightarrow> db \<Rightarrow> db" where
  "delete_pcq gi d = d\<lparr>pcqs := filter (\<lambda>q. q_group q \<noteq> gi) (pcqs d)\<rparr>"

definition find_user :: "string \<Rightarrow> db \<Rightarrow> vpn_user option" where
  "find_user i d = find (\<lambda>u. u_id u = i) (users d)"

definition find_server :: "string \<Rightarrow> db \<Rightarrow> vpn_server option" where
  "find_server i d = find (\<lambda>s. s_id s = i) (servers d)"

definition find_pcq :: "string \<Rightarrow> db \<Rightarrow> vpn_pcq option" where
  "find_pcq gi d = find (\<lambda>q. q_group q = gi) (pcqs d)"

section \<open>Every statement keeps the database whole\<close>

lemmas db_defs = db_ok_def keys_ok_def refs_ok_def

lemma db_ok_insert_user: "db_ok d \<Longrightarrow> insert_user u d = Inr d' \<Longrightarrow> db_ok d'"
  by (auto simp: insert_user_def db_defs distinct_on_append1 split: if_splits)

lemma image_upd_where: "(\<And>r. P r \<Longrightarrow> k (f r) = k r) \<Longrightarrow> k ` set (upd_where P f rs) = k ` set rs"
  by (metis list.set_map map_upd_where)

lemma ball_upd_where:
  "(\<And>r. P r \<Longrightarrow> Q r \<Longrightarrow> Q (f r)) \<Longrightarrow> \<forall>r \<in> set rs. Q r \<Longrightarrow> \<forall>r \<in> set (upd_where P f rs). Q r"
  by (auto simp: set_upd_where)

lemma db_ok_update_user:
  assumes "db_ok d" and "update_user i f d = Inr d'"
    and k: "\<And>u. u_id (f u) = u_id u" "\<And>u. u_server_id (f u) = u_server_id u"
  shows "db_ok d'"
proof -
  let ?us = "upd_where (\<lambda>u. u_id u = i) f (users d)"
  have d': "d' = d\<lparr>users := ?us\<rparr>" and u: "distinct_on u_username ?us"
    using assms(2) by (auto simp: update_user_def Let_def split: if_splits)
  have "distinct_on u_id ?us" using assms(1) by (auto simp: db_defs k)
  moreover have "\<forall>r \<in> set ?us. u_server_id r \<in> s_id ` set (servers d)"
    using assms(1) by (intro ball_upd_where) (auto simp: db_defs k)
  moreover have "u_id ` set ?us = u_id ` set (users d)" by (rule image_upd_where) (simp add: k)
  ultimately show ?thesis using assms(1) u by (simp add: d' db_defs)
qed

lemma db_ok_delete_user: "db_ok d \<Longrightarrow> db_ok (delete_user i d)"
  by (auto simp: delete_user_def db_defs)

lemma db_ok_insert_group: "db_ok d \<Longrightarrow> insert_group g d = Inr d' \<Longrightarrow> db_ok d'"
  by (auto simp: insert_group_def db_defs distinct_on_append1 split: if_splits)

lemma db_ok_delete_group: "db_ok d \<Longrightarrow> db_ok (delete_group i d)"
  by (auto simp: delete_group_def db_defs)

lemma db_ok_insert_member: "db_ok d \<Longrightarrow> insert_member gi ui d = Inr d' \<Longrightarrow> db_ok d'"
  by (auto simp: insert_member_def db_defs distinct_on_append1 split: if_splits)

lemma db_ok_delete_member: "db_ok d \<Longrightarrow> db_ok (delete_member gi ui d)"
  by (auto simp: delete_member_def db_defs)

lemma db_ok_upsert_pcq:
  assumes "db_ok d" and "upsert_pcq q d = Inr d'"
  shows "db_ok d'"
proof (cases "q_group q \<in> q_group ` set (pcqs d)")
  case True
  let ?qs = "upd_where (\<lambda>r. q_group r = q_group q) (\<lambda>_. q) (pcqs d)"
  have d': "d' = d\<lparr>pcqs := ?qs\<rparr>" using assms(2) True by (simp add: upsert_pcq_def)
  have "distinct_on q_group ?qs" using assms(1) by (auto simp: db_defs)
  moreover have "\<forall>r \<in> set ?qs. q_group r \<in> g_id ` set (groups d)"
    using assms(1) by (intro ball_upd_where) (auto simp: db_defs)
  ultimately show ?thesis using assms(1) by (simp add: d' db_defs)
next
  case False
  with assms show ?thesis
    by (auto simp: upsert_pcq_def db_defs distinct_on_append1 split: if_splits)
qed

lemma db_ok_delete_pcq: "db_ok d \<Longrightarrow> db_ok (delete_pcq gi d)"
  by (auto simp: delete_pcq_def db_defs)

section \<open>The contract of a keyed table\<close>

text \<open>
  What handlers rely on when they look a row up, insert one and delete one: the laws of a
  finite map, and that the statements keep the database whole. It is interpreted on the
  tables of users, groups and queue presets.
\<close>

locale keyed_table =
  fixes look :: "string \<Rightarrow> db \<Rightarrow> 'r option"
    and ins :: "'r \<Rightarrow> db \<Rightarrow> db res"
    and del :: "string \<Rightarrow> db \<Rightarrow> db"
    and key :: "'r \<Rightarrow> string"
  assumes look_key: "look i d = Some r \<Longrightarrow> key r = i"
    and look_ins: "db_ok d \<Longrightarrow> ins r d = Inr d' \<Longrightarrow> look i d' = (if i = key r then Some r else look i d)"
    and look_del: "look i (del j d) = (if i = j then None else look i d)"
    and ok_ins: "db_ok d \<Longrightarrow> ins r d = Inr d' \<Longrightarrow> db_ok d'"
    and ok_del: "db_ok d \<Longrightarrow> db_ok (del j d)"
begin

lemma look_ins_del:
  assumes "db_ok d" and "ins r d = Inr d'" and "look (key r) d = None"
  shows "look i (del (key r) d') = look i d"
  using look_ins [OF assms(1,2)] assms(3) by (simp add: look_del)

lemma look_del_ins:
  assumes "db_ok d" and "ins r (del (key r) d) = Inr d'"
  shows "look i d' = (if i = key r then Some r else look i d)"
  using look_ins [OF ok_del [OF assms(1)] assms(2)] by (simp add: look_del)

lemma look_ins_ins:
  assumes "db_ok d" and "ins r d = Inr d1" and "ins s d1 = Inr d2" and "key r \<noteq> key s"
  shows "look (key r) d2 = Some r \<and> look (key s) d2 = Some s"
  using look_ins [OF ok_ins [OF assms(1,2)] assms(3)] look_ins [OF assms(1,2)] assms(4) by simp

lemma del_twice: "look i (del j (del j d)) = look i (del j d)"
  by (simp add: look_del)

end

lemma find_append1:
  "find P (rs @ [r]) = (case find P rs of Some x \<Rightarrow> Some x | None \<Rightarrow> if P r then Some r else None)"
  by (induction rs) auto

lemma find_filter_key:
  "find (\<lambda>r. k r = i) (filter (\<lambda>r. k r \<noteq> j) rs) = (if i = j then None else find (\<lambda>r. k r = i) rs)"
  by (induction rs) auto

lemma find_upd_const:
  "find (\<lambda>r. k r = i) (upd_where (\<lambda>r. k r = k q) (\<lambda>_. q) rs)
     = (if i = k q then (if k q \<in> k ` set rs then Some q else None) else find (\<lambda>r. k r = i) rs)"
  by (induction rs) auto

lemma find_key: "find (\<lambda>r. k r = i) rs = Some r \<Longrightarrow> k r = i"
  by (auto dest: find_eq_Some_in)

lemma find_absent: "i \<notin> k ` set rs \<Longrightarrow> find (\<lambda>r. k r = i) rs = None"
  by (auto simp: find_eq_None)

lemma find_present: "i \<in> k ` set rs \<Longrightarrow> \<exists>r. find (\<lambda>r. k r = i) rs = Some r"
  by (induction rs) auto

definition find_group :: "string \<Rightarrow> db \<Rightarrow> vpn_group option" where
  "find_group i d = find (\<lambda>g. g_id g = i) (groups d)"

lemmas find_defs = find_user_def find_group_def find_pcq_def find_server_def

lemma find_user_insert:
  "insert_user u d = Inr d' \<Longrightarrow> find_user i d' = (if i = u_id u then Some u else find_user i d)"
  by (auto simp: find_user_def insert_user_def find_append1 find_absent split: if_splits option.splits)

lemma find_user_delete: "find_user i (delete_user j d) = (if i = j then None else find_user i d)"
  by (simp add: find_user_def delete_user_def find_filter_key)

lemma find_group_insert:
  "insert_group g d = Inr d' \<Longrightarrow> find_group i d' = (if i = g_id g then Some g else find_group i d)"
  by (auto simp: find_group_def insert_group_def find_append1 find_absent split: if_splits option.splits)

lemma find_group_delete: "find_group i (delete_group j d) = (if i = j then None else find_group i d)"
  by (simp add: find_group_def delete_group_def find_filter_key)

lemma find_pcq_upsert:
  assumes "upsert_pcq q d = Inr d'"
  shows "find_pcq i d' = (if i = q_group q then Some q else find_pcq i d)"
proof (cases "q_group q \<in> q_group ` set (pcqs d)")
  case True
  with assms have "d' = d\<lparr>pcqs := upd_where (\<lambda>r. q_group r = q_group q) (\<lambda>_. q) (pcqs d)\<rparr>"
    by (simp add: upsert_pcq_def)
  with True show ?thesis by (simp add: find_pcq_def find_upd_const)
next
  case False
  with assms have "d' = d\<lparr>pcqs := pcqs d @ [q]\<rparr>" by (simp add: upsert_pcq_def split: if_splits)
  with False show ?thesis
    by (auto simp: find_pcq_def find_append1 find_absent split: option.splits)
qed

lemma find_pcq_delete: "find_pcq i (delete_pcq j d) = (if i = j then None else find_pcq i d)"
  by (simp add: find_pcq_def delete_pcq_def find_filter_key)

lemma find_keys:
  "find_user i d = Some u \<Longrightarrow> u_id u = i"
  "find_group i d = Some g \<Longrightarrow> g_id g = i"
  "find_pcq i d = Some q \<Longrightarrow> q_group q = i"
  by (auto simp: find_defs dest: find_key)

lemmas table_laws = find_user_insert find_user_delete find_group_insert find_group_delete
  find_pcq_upsert find_pcq_delete

interpretation user_table: keyed_table find_user insert_user delete_user u_id
  by unfold_locales
     (simp_all add: find_keys find_user_insert find_user_delete db_ok_insert_user db_ok_delete_user)

interpretation group_table: keyed_table find_group insert_group delete_group g_id
  by unfold_locales
     (simp_all add: find_keys find_group_insert find_group_delete db_ok_insert_group db_ok_delete_group)

interpretation pcq_table: keyed_table find_pcq upsert_pcq delete_pcq q_group
  by unfold_locales
     (simp_all add: find_keys find_pcq_upsert find_pcq_delete db_ok_upsert_pcq db_ok_delete_pcq)

end
