(* ===== verification/Go_Strings.thy ===== *)
theory Go_Strings
  imports Prelude
begin

text \<open>
  The part of Go's \<open>strings\<close>, \<open>strconv\<close> and \<open>fmt\<close> packages the program uses. A Go string is a
  list of bytes, kept as a list of characters. White space is the set of \<open>unicode.IsSpace\<close> in
  its UTF-8 encoding, so that \<open>trim\<close> and \<open>str_fields\<close> are \<open>strings.TrimSpace\<close> and
  \<open>strings.Fields\<close> on every byte string.
\<close>

section \<open>White space\<close>

abbreviation chr_nl :: char where "chr_nl \<equiv> CHR 0x0A"
abbreviation chr_tab :: char where "chr_tab \<equiv> CHR 0x09"
abbreviation chr_quote :: char where "chr_quote \<equiv> CHR 0x27"
abbreviation chr_dquote :: char where "chr_dquote \<equiv> CHR 0x22"
abbreviation chr_bslash :: char where "chr_bslash \<equiv> CHR 0x5C"

definition ascii_space :: "char \<Rightarrow> bool" where
  "ascii_space c \<longleftrightarrow> c = CHR 0x20 \<or> c = CHR 0x0A \<or> c = CHR 0x09 \<or> c = CHR 0x0D
     \<or> c = CHR 0x0B \<or> c = CHR 0x0C"

definition space2 :: "char \<Rightarrow> char \<Rightarrow> bool" where
  "space2 a b \<longleftrightarrow> a = CHR 0xC2 \<and> (b = CHR 0x85 \<or> b = CHR 0xA0)"

definition space3 :: "char \<Rightarrow> char \<Rightarrow> char \<Rightarrow> bool" where
  "space3 a b c \<longleftrightarrow>
     a = CHR 0xE1 \<and> b = CHR 0x9A \<and> c = CHR 0x80
   \<or> a = CHR 0xE2 \<and> b = CHR 0x80 \<and>
       (c = CHR 0x80 \<or> c = CHR 0x81 \<or> c = CHR 0x82 \<or> c = CHR 0x83 \<or> c = CHR 0x84 \<or> c = CHR 0x85
      \<or> c = CHR 0x86 \<or> c = CHR 0x87 \<or> c = CHR 0x88 \<or> c = CHR 0x89 \<or> c = CHR 0x8A
      \<or> c = CHR 0xA8 \<or> c = CHR 0xA9 \<or> c = CHR 0xAF)
   \<or> a = CHR 0xE2 \<and> b = CHR 0x81 \<and> c = CHR 0x9F
   \<or> a = CHR 0xE3 \<and> b = CHR 0x80 \<and> c = CHR 0x80"

text \<open>
  The width in bytes of the white-space rune at the head of a string (0 when there is none),
  and the same at the end of a string, which is given reversed.
\<close>

fun lead_space :: "string \<Rightarrow> nat" where
  "lead_space [] = 0"
| "lead_space [a] = (if ascii_space a then 1 else 0)"
| "lead_space [a, b] = (if ascii_space a then 1 else if space2 a b then 2 else 0)"
| "lead_space (a # b # c # s) =
     (if ascii_space a then 1 else if space2 a b then 2 else if space3 a b c then 3 else 0)"

fun trail_space :: "string \<Rightarrow> nat" where
  "trail_space [] = 0"
| "trail_space [a] = (if ascii_space a then 1 else 0)"
| "trail_space [b, a] = (if ascii_space b then 1 else if space2 a b then 2 else 0)"
| "trail_space (c # b # a # s) =
     (if ascii_space c then 1 else if space2 b c then 2 else if space3 a b c then 3 else 0)"

function strip :: "(string \<Rightarrow> nat) \<Rightarrow> string \<Rightarrow> string" where
  "strip w s = (if s = [] \<or> w s = 0 then s else strip w (drop (w s) s))"
  by pat_completeness auto
termination
  by (relation "measure (\<lambda>(w, s). length s)") auto

declare strip.simps [simp del]

definition trim :: "string \<Rightarrow> string" where
  "trim s = rev (strip trail_space (rev (strip lead_space s)))"

text \<open>\<open>strings.TrimRight(s, cutset)\<close> and \<open>strings.TrimLeft\<close> with a cutset of ASCII characters.\<close>

definition trimRight :: "string \<Rightarrow> string \<Rightarrow> string" where
  "trimRight cs s = rev (dropWhile (\<lambda>c. c \<in> set cs) (rev s))"

lemma strip_unfold: "strip w s = (if s = [] \<or> w s = 0 then s else strip w (drop (w s) s))"
  by (rule strip.simps)

lemma strip_Nil [simp]: "strip w [] = []"
  by (simp add: strip_unfold)

lemma strip_stop: "w s = 0 \<Longrightarrow> strip w s = s"
  by (simp add: strip_unfold)

lemma strip_clean: "strip w s = [] \<or> w (strip w s) = 0"
proof (induction w s rule: strip.induct)
  case (1 w s)
  then show ?case by (cases "s = [] \<or> w s = 0") (auto simp: strip_unfold [of w s])
qed

lemma strip_idem [simp]: "strip w (strip w s) = strip w s"
  using strip_clean [of w s] by (auto simp: strip_stop)

lemma strip_suffix: "\<exists>p. s = p @ strip w s"
proof (induction w s rule: strip.induct)
  case (1 w s)
  show ?case
  proof (cases "s = [] \<or> w s = 0")
    case True
    then show ?thesis by (simp add: strip_unfold [of w s])
  next
    case False
    with 1 have "\<exists>p. drop (w s) s = p @ strip w (drop (w s) s)" by blast
    then obtain p where p: "drop (w s) s = p @ strip w (drop (w s) s)" ..
    have "s = (take (w s) s @ p) @ strip w (drop (w s) s)"
      by (metis append_assoc append_take_drop_id p)
    moreover from False have "strip w s = strip w (drop (w s) s)"
      by (subst strip_unfold) simp
    ultimately show ?thesis by metis
  qed
qed

lemma set_strip: "set (strip w s) \<subseteq> set s"
  by (metis strip_suffix set_append Un_upper2)

lemma length_strip: "length (strip w s) \<le> length s"
  by (metis strip_suffix length_append le_add2)

lemma trim_Nil [simp]: "trim [] = []"
  by (simp add: trim_def)

lemma set_trim: "set (trim s) \<subseteq> set s"
  unfolding trim_def using set_strip by (metis set_rev subset_trans)

lemma length_trim: "length (trim s) \<le> length s"
  unfolding trim_def by (metis length_rev length_strip le_trans)

text \<open>
  A string that begins and ends with no white space is its own trim; ASCII words without
  blanks are such strings.
\<close>

definition trimmed :: "string \<Rightarrow> bool" where
  "trimmed s \<longleftrightarrow> lead_space s = 0 \<and> trail_space (rev s) = 0"

lemma trim_trimmed: "trimmed s \<Longrightarrow> trim s = s"
  by (simp add: trimmed_def trim_def strip_stop)

text \<open>A character that is neither ASCII white space nor a byte of a multi-byte space.\<close>

definition plain :: "char \<Rightarrow> bool" where
  "plain c \<longleftrightarrow> \<not> ascii_space c \<and> of_char c < (128 :: nat)"

lemma plain_not_space:
  assumes "plain c"
  shows "\<not> ascii_space c" "\<not> space2 c b" "\<not> space2 b c" "\<not> space3 c a b" "\<not> space3 a b c"
  using assms by (auto simp: plain_def space2_def space3_def)

lemma plain_lead: "plain c \<Longrightarrow> lead_space (c # s) = 0"
  by (induction s rule: induct_list012) (simp_all add: plain_not_space)

lemma plain_trail: "plain c \<Longrightarrow> trail_space (c # s) = 0"
  by (induction s rule: induct_list012) (simp_all add: plain_not_space)

lemma trimmed_plain_ends:
  "s \<noteq> [] \<Longrightarrow> plain (hd s) \<Longrightarrow> plain (last s) \<Longrightarrow> trimmed s"
  unfolding trimmed_def
  by (metis hd_rev list.exhaust_sel plain_lead plain_trail rev_is_Nil_conv)

lemma trim_plain [simp]: "\<forall>c \<in> set s. plain c \<Longrightarrow> trim s = s"
  by (cases "s = []") (auto intro!: trim_trimmed trimmed_plain_ends)

lemma lead_space_prefix: "lead_space (p @ q) = 0 \<Longrightarrow> lead_space p = 0"
  by (cases p rule: lead_space.cases; cases q rule: lead_space.cases)
     (auto split: if_splits)

lemma strip_rev_prefix: "\<exists>q. s = rev (strip w (rev s)) @ q"
proof -
  obtain p where "rev s = p @ strip w (rev s)" using strip_suffix by blast
  then have "s = rev (strip w (rev s)) @ rev p" by (metis rev_append rev_rev_ident)
  then show ?thesis ..
qed

lemma trimmed_trim: "trimmed (trim s)"
proof -
  let ?t = "strip lead_space s"
  obtain q where q: "?t = trim s @ q"
    using strip_rev_prefix [of ?t trail_space] by (auto simp: trim_def)
  have "lead_space ?t = 0" using strip_clean [of lead_space s] by auto
  then have "lead_space (trim s) = 0" by (metis q lead_space_prefix)
  moreover have "trail_space (rev (trim s)) = 0"
    using strip_clean [of trail_space "rev ?t"] by (auto simp: trim_def)
  ultimately show ?thesis by (simp add: trimmed_def)
qed

lemma trim_trim [simp]: "trim (trim s) = trim s"
  by (rule trim_trimmed [OF trimmed_trim])

section \<open>Splitting and joining\<close>

text \<open>
  \<open>strings.Split(s, sep)\<close> and \<open>strings.IndexByte\<close> for a one-byte separator; \<open>cutAt\<close> is
  \<open>s[:i]\<close>, \<open>s[i+1:]\<close> at the first separator (\<open>SplitN(s, sep, 2)\<close>).
\<close>

fun split_on :: "char \<Rightarrow> string \<Rightarrow> string list" where
  "split_on c [] = [[]]"
| "split_on c (x # s) =
     (if x = c then [] # split_on c s
      else (case split_on c s of [] \<Rightarrow> [[x]] | w # ws \<Rightarrow> (x # w) # ws))"

fun join :: "string \<Rightarrow> string list \<Rightarrow> string" where
  "join sep [] = []"
| "join sep [w] = w"
| "join sep (w # v # ws) = w @ sep @ join sep (v # ws)"

fun cutAt :: "char \<Rightarrow> string \<Rightarrow> (string \<times> string) option" where
  "cutAt c [] = None"
| "cutAt c (x # s) =
     (if x = c then Some ([], s)
      else (case cutAt c s of None \<Rightarrow> None | Some (a, b) \<Rightarrow> Some (x # a, b)))"

fun fields_go :: "nat \<Rightarrow> string \<Rightarrow> string \<Rightarrow> string list" where
  "fields_go skip cur [] = (if cur = [] then [] else [rev cur])"
| "fields_go skip cur (c # s) =
     (if skip > 0 then fields_go (skip - 1) cur s
      else if lead_space (c # s) > 0
      then (if cur = [] then [] else [rev cur]) @ fields_go (lead_space (c # s) - 1) [] s
      else fields_go 0 (c # cur) s)"

definition str_fields :: "string \<Rightarrow> string list" where
  "str_fields s = fields_go 0 [] s"

definition has_prefix :: "string \<Rightarrow> string \<Rightarrow> bool" where
  "has_prefix s p \<longleftrightarrow> take (length p) s = p"

definition has_suffix :: "string \<Rightarrow> string \<Rightarrow> bool" where
  "has_suffix s p \<longleftrightarrow> take (length p) (rev s) = rev p"

definition trim_prefix :: "string \<Rightarrow> string \<Rightarrow> string" where
  "trim_prefix s p = (if has_prefix s p then drop (length p) s else s)"

definition trim_suffix :: "string \<Rightarrow> string \<Rightarrow> string" where
  "trim_suffix s p = (if has_suffix s p then take (length s - length p) s else s)"

fun contains_str :: "string \<Rightarrow> string \<Rightarrow> bool" where
  "contains_str [] p = (p = [])"
| "contains_str (c # s) p = (has_prefix (c # s) p \<or> contains_str s p)"

definition contains_any :: "string \<Rightarrow> string \<Rightarrow> bool" where
  "contains_any s cs \<longleftrightarrow> list_ex (\<lambda>c. c \<in> set cs) s"

text \<open>\<open>strings.ReplaceAll(s, c, r)\<close> for a one-byte pattern.\<close>

definition replace_chr :: "char \<Rightarrow> string \<Rightarrow> string \<Rightarrow> string" where
  "replace_chr c r s = concat (map (\<lambda>x. if x = c then r else [x]) s)"

lemma split_on_neq_Nil [simp]: "split_on c s \<noteq> []"
  by (induction s) (auto split: list.splits)

lemma split_on_no_sep: "w \<in> set (split_on c s) \<Longrightarrow> c \<notin> set w"
  by (induction s arbitrary: w) (auto split: if_splits list.splits)

lemma split_on_set: "w \<in> set (split_on c s) \<Longrightarrow> set w \<subseteq> set s"
  by (induction s arbitrary: w) (auto split: if_splits list.splits, fastforce+)

lemma split_on_id: "c \<notin> set s \<Longrightarrow> split_on c s = [s]"
  by (induction s) auto

lemma split_on_append: "c \<notin> set w \<Longrightarrow> split_on c (w @ c # s) = w # split_on c s"
  by (induction w) auto

lemma join_push [simp]: "join sep ((a # w) # ws) = a # join sep (w # ws)"
  by (cases ws) auto

lemma join_split_on: "join [c] (split_on c s) = s"
  by (induction s) (auto split: list.splits)

lemma split_on_join:
  "ws \<noteq> [] \<Longrightarrow> \<forall>w \<in> set ws. c \<notin> set w \<Longrightarrow> split_on c (join [c] ws) = ws"
  by (induction ws rule: induct_list012) (auto simp: split_on_id split_on_append)

lemma join_Cons: "ws \<noteq> [] \<Longrightarrow> join sep (w # ws) = w @ sep @ join sep ws"
  by (cases ws) auto

lemma set_join: "set (join sep ws) \<subseteq> set sep \<union> \<Union> (set ` set ws)"
  by (induction ws rule: induct_list012) auto

lemma cutAt_None [simp]: "c \<notin> set s \<Longrightarrow> cutAt c s = None"
  by (induction s) auto

lemma cutAt_append [simp]: "c \<notin> set a \<Longrightarrow> cutAt c (a @ c # b) = Some (a, b)"
  by (induction a) auto

lemma cutAt_SomeD: "cutAt c s = Some (a, b) \<Longrightarrow> s = a @ c # b \<and> c \<notin> set a"
  by (induction s arbitrary: a b) (auto split: if_splits option.splits)

lemma cutAt_eq_None: "cutAt c s = None \<longleftrightarrow> c \<notin> set s"
  by (induction s) (auto split: option.splits)

lemma has_prefix_append [simp]: "has_prefix (p @ s) p"
  by (simp add: has_prefix_def)

lemma has_prefixD: "has_prefix s p \<Longrightarrow> s = p @ drop (length p) s"
  by (metis has_prefix_def append_take_drop_id)

lemma has_suffix_append [simp]: "has_suffix (s @ p) p"
  by (simp add: has_suffix_def)

lemma has_suffixD: "has_suffix s p \<Longrightarrow> \<exists>q. s = q @ p"
  by (metis has_suffix_def append_take_drop_id rev_append rev_rev_ident)

lemma contains_str_append: "has_prefix s p \<Longrightarrow> contains_str (q @ s) p"
  by (induction q) (cases s, auto simp: has_prefix_def)

lemma contains_str_iff: "contains_str s p \<longleftrightarrow> (\<exists>a b. s = a @ p @ b)"
proof
  assume "contains_str s p"
  then show "\<exists>a b. s = a @ p @ b"
  proof (induction s)
    case (Cons c s)
    then show ?case by (auto dest!: has_prefixD) (metis append_Nil, metis append_Cons)
  qed auto
qed (auto intro!: contains_str_append)

lemma contains_chr: "contains_str s [c] \<longleftrightarrow> c \<in> set s"
  by (induction s) (auto simp: has_prefix_def)

section \<open>Numbers\<close>

text \<open>\<open>strconv.Itoa\<close>, \<open>%d\<close> and \<open>%x\<close>; digits are looked up in the table Go uses.\<close>

definition digit :: "nat \<Rightarrow> char" where
  "digit n = ''0123456789abcdef'' ! n"

function nat_base :: "nat \<Rightarrow> nat \<Rightarrow> string" where
  "nat_base b n = (if n < b \<or> b < 2 then [digit n] else nat_base b (n div b) @ [digit (n mod b)])"
  by pat_completeness auto
termination
  by (relation "measure snd") auto

declare nat_base.simps [simp del]

abbreviation nat_str :: "nat \<Rightarrow> string" where "nat_str \<equiv> nat_base 10"

definition itoa :: "int \<Rightarrow> string" where
  "itoa i = (if i < 0 then CHR ''-'' # nat_str (nat (- i)) else nat_str (nat i))"

definition is_digit :: "char \<Rightarrow> bool" where
  "is_digit c \<longleftrightarrow> 48 \<le> (of_char c :: nat) \<and> (of_char c :: nat) \<le> 57"

definition digit_val :: "char \<Rightarrow> nat" where
  "digit_val c = of_char c - 48"

definition dec_val :: "string \<Rightarrow> nat" where
  "dec_val s = foldl (\<lambda>n c. 10 * n + digit_val c) 0 s"

text \<open>
  \<open>strconv.Atoi\<close> and \<open>strconv.ParseInt(s, 10, 64)\<close>: an optional sign, at least one digit,
  a value in the range of \<open>int64\<close>.
\<close>

definition parse_nat :: "string \<Rightarrow> nat option" where
  "parse_nat s = (if s \<noteq> [] \<and> list_all is_digit s then Some (dec_val s) else None)"

definition parse_sint :: "string \<Rightarrow> int option" where
  "parse_sint s =
     (case s of
        [] \<Rightarrow> None
      | c # t \<Rightarrow>
          if c = CHR ''-'' then map_option (\<lambda>n. - int n) (parse_nat t)
          else if c = CHR ''+'' then map_option int (parse_nat t)
          else map_option int (parse_nat s))"

definition atoi :: "string \<Rightarrow> int option" where
  "atoi s = (case parse_sint s of None \<Rightarrow> None | Some i \<Rightarrow> if int64_ok i then Some i else None)"

text \<open>
  The value \<open>ParseInt\<close> returns beside its error, which code that drops the error uses: 0 on a
  syntax error, the nearest representable value on a range error.
\<close>

definition parse_int_value :: "string \<Rightarrow> int" where
  "parse_int_value s =
     (case parse_sint s of
        None \<Rightarrow> 0
      | Some i \<Rightarrow> if i < - (2 ^ 63) then - (2 ^ 63) else if i \<ge> 2 ^ 63 then 2 ^ 63 - 1 else i)"

lemma of_char_digit:
  "n < 10 \<Longrightarrow> of_char (digit n) = 48 + n"
proof -
  assume "n < 10"
  then have "n \<in> {0, 1, 2, 3, 4, 5, 6, 7, 8, 9}" by auto
  then show ?thesis by (auto simp: digit_def)
qed

lemma is_digit_digit [simp]: "n < 10 \<Longrightarrow> is_digit (digit n)"
  by (simp add: is_digit_def of_char_digit)

lemma digit_val_digit [simp]: "n < 10 \<Longrightarrow> digit_val (digit n) = n"
  by (simp add: digit_val_def of_char_digit)

lemma nat_str_digits: "list_all is_digit (nat_str n)"
  by (induction "10 :: nat" n rule: nat_base.induct) (subst nat_base.simps, simp)

lemma nat_base_neq_Nil [simp]: "nat_base b n \<noteq> []"
  by (subst nat_base.simps) simp

lemma dec_val_snoc: "dec_val (s @ [c]) = 10 * dec_val s + digit_val c"
  by (simp add: dec_val_def)

lemma dec_val_nat_str [simp]: "dec_val (nat_str n) = n"
proof (induction n rule: less_induct)
  case (less n)
  show ?case
  proof (cases "n < 10")
    case True
    then show ?thesis by (subst nat_base.simps) (simp add: dec_val_def)
  next
    case False
    then have "dec_val (nat_str (n div 10)) = n div 10" by (intro less) simp
    with False show ?thesis by (subst nat_base.simps) (simp add: dec_val_snoc)
  qed
qed

lemma parse_nat_nat_str [simp]: "parse_nat (nat_str n) = Some n"
  by (simp add: parse_nat_def nat_str_digits)

lemma nat_str_inj: "nat_str m = nat_str n \<longleftrightarrow> m = n"
  by (metis dec_val_nat_str)

lemma hd_nat_str_digit: "nat_str n = c # s \<Longrightarrow> is_digit c"
  using nat_str_digits [of n] by simp

lemma parse_sint_itoa: "parse_sint (itoa i) = Some i"
proof (cases "i < 0")
  case True
  then show ?thesis by (simp add: parse_sint_def itoa_def)
next
  case False
  obtain c s where cs: "nat_str (nat i) = c # s" by (cases "nat_str (nat i)") auto
  then have "is_digit c" by (rule hd_nat_str_digit)
  then have "c \<noteq> CHR ''-''" "c \<noteq> CHR ''+''" by (auto simp: is_digit_def)
  with False cs show ?thesis
    by (simp add: parse_sint_def itoa_def) (metis parse_nat_nat_str nat_0_le not_less option.map(2))
qed

lemma atoi_itoa: "int64_ok i \<Longrightarrow> atoi (itoa i) = Some i"
  by (simp add: atoi_def parse_sint_itoa)

lemma itoa_inj: "itoa i = itoa j \<longleftrightarrow> i = j"
  by (metis parse_sint_itoa option.inject)

lemma atoi_int64: "atoi s = Some i \<Longrightarrow> int64_ok i"
  by (simp add: atoi_def split: option.splits if_splits)

lemma is_digit_plain: "is_digit c \<Longrightarrow> plain c"
  by (auto simp: is_digit_def plain_def ascii_space_def)

lemma nat_str_plain: "c \<in> set (nat_str n) \<Longrightarrow> plain c"
  using nat_str_digits [of n] by (auto simp: list_all_iff intro: is_digit_plain)

lemma nat_str_is_digit: "c \<in> set (nat_str n) \<Longrightarrow> is_digit c"
  using nat_str_digits [of n] by (auto simp: list_all_iff)

lemma itoa_chars: "c \<in> set (itoa i) \<Longrightarrow> is_digit c \<or> c = CHR ''-''"
  by (auto simp: itoa_def nat_str_is_digit split: if_splits)

lemma dash_plain: "plain (CHR ''-'')"
  by (simp add: plain_def ascii_space_def)

lemma itoa_plain: "c \<in> set (itoa i) \<Longrightarrow> plain c"
  using itoa_chars [of c i] is_digit_plain dash_plain by blast

lemma itoa_neq_Nil [simp]: "itoa i \<noteq> []"
  by (simp add: itoa_def)

section \<open>Letter case\<close>

text \<open>
  \<open>strings.ToLower\<close>, \<open>ToUpper\<close> and \<open>EqualFold\<close> on ASCII; a byte above 127 is left as it is.
\<close>

definition lower_chr :: "char \<Rightarrow> char" where
  "lower_chr c = (let n = (of_char c :: nat) in
     if 65 \<le> n \<and> n \<le> 90 then ''abcdefghijklmnopqrstuvwxyz'' ! (n - 65) else c)"

definition upper_chr :: "char \<Rightarrow> char" where
  "upper_chr c = (let n = (of_char c :: nat) in
     if 97 \<le> n \<and> n \<le> 122 then ''ABCDEFGHIJKLMNOPQRSTUVWXYZ'' ! (n - 97) else c)"

definition toLower :: "string \<Rightarrow> string" where
  "toLower s = map lower_chr s"

definition toUpper :: "string \<Rightarrow> string" where
  "toUpper s = map upper_chr s"

definition equalFold :: "string \<Rightarrow> string \<Rightarrow> bool" where
  "equalFold s t \<longleftrightarrow> toLower s = toLower t"

lemma of_lower_letter: "n < 26 \<Longrightarrow> of_char (''abcdefghijklmnopqrstuvwxyz'' ! n) = 97 + n"
proof -
  have "\<forall>n \<in> set [0 ..< 26]. of_char (''abcdefghijklmnopqrstuvwxyz'' ! n) = 97 + n"
    by (simp add: upt_rec)
  then show "n < 26 \<Longrightarrow> ?thesis" by simp
qed

lemma of_lower_chr:
  "(of_char (lower_chr c) :: nat) =
     (if 65 \<le> (of_char c :: nat) \<and> (of_char c :: nat) \<le> 90 then of_char c + 32 else of_char c)"
proof (cases "65 \<le> (of_char c :: nat) \<and> (of_char c :: nat) \<le> 90")
  case True
  then have "(of_char c :: nat) - 65 < 26" by auto
  from of_lower_letter [OF this] True show ?thesis by (simp add: lower_chr_def Let_def)
next
  case False
  then show ?thesis by (auto simp: lower_chr_def Let_def)
qed

lemma lower_chr_idem [simp]: "lower_chr (lower_chr c) = lower_chr c"
proof -
  have "\<not> (65 \<le> (of_char (lower_chr c) :: nat) \<and> (of_char (lower_chr c) :: nat) \<le> 90)"
    by (simp add: of_lower_chr)
  then show ?thesis by (subst lower_chr_def) (auto simp: Let_def)
qed

lemma toLower_idem [simp]: "toLower (toLower s) = toLower s"
  by (simp add: toLower_def)

lemma length_toLower [simp]: "length (toLower s) = length s"
  by (simp add: toLower_def)

section \<open>Joining clean pieces\<close>

text \<open>An ASCII character keeps white space from reaching across a boundary.\<close>

definition ascii :: "char \<Rightarrow> bool" where
  "ascii c \<longleftrightarrow> of_char c < (128 :: nat)"

lemma ascii_not_space:
  assumes "ascii c"
  shows "\<not> space2 c b" "\<not> space2 b c" "\<not> space3 c a b" "\<not> space3 a c b" "\<not> space3 a b c"
  using assms by (auto simp: ascii_def space2_def space3_def)

lemma lead_space_append:
  "a \<noteq> [] \<Longrightarrow> lead_space a = 0 \<Longrightarrow> ascii c \<Longrightarrow> lead_space (a @ c # r) = 0"
  by (cases a rule: lead_space.cases; cases r)
     (auto simp: ascii_not_space split: if_splits)

lemma trail_space_append:
  "a \<noteq> [] \<Longrightarrow> trail_space a = 0 \<Longrightarrow> ascii c \<Longrightarrow> trail_space (a @ c # r) = 0"
  by (cases a rule: trail_space.cases; cases r)
     (auto simp: ascii_not_space split: if_splits)

lemma trimmed_Nil [simp]: "trimmed []"
  by (simp add: trimmed_def)

lemma trimmed_join:
  assumes "a \<noteq> []" and "b \<noteq> []" and "trimmed a" and "trimmed b" and "ascii c"
  shows "trimmed (a @ c # b)"
  using assms lead_space_append [of a c b] trail_space_append [of "rev b" c "rev a"]
  by (simp add: trimmed_def)

text \<open>A string that starts with a plain character and ends in a clean piece after an ASCII one.\<close>

lemma trimmed_plain_append:
  assumes "plain x" and "b \<noteq> []" and "trimmed b" and "ascii c"
  shows "trimmed (x # a @ c # b)"
  using assms plain_lead [of x "a @ c # b"] trail_space_append [of "rev b" c "rev a @ [x]"]
  by (simp add: trimmed_def)

lemma trimmed_plain_plain: "plain x \<Longrightarrow> plain y \<Longrightarrow> trimmed (x # a @ [y])"
  by (rule trimmed_plain_ends) simp_all

lemma trim_blank_Cons: "ascii_space c \<Longrightarrow> trim (c # s) = trim s"
proof -
  assume "ascii_space c"
  then have "lead_space (c # s) = 1" by (induction s rule: induct_list012) simp_all
  then show ?thesis by (simp add: trim_def strip_unfold [of lead_space "c # s"])
qed

lemma trim_snoc_blank:
  assumes "ascii_space c" and "trimmed s" and "s \<noteq> []"
  shows "trim (s @ [c]) = s"
proof -
  have "ascii c" using assms(1) by (auto simp: ascii_space_def ascii_def)
  then have "lead_space (s @ [c]) = 0"
    using assms lead_space_append [of s c "[]"] by (simp add: trimmed_def)
  moreover have "trail_space (c # rev s) = 1"
    using assms(1) by (induction "rev s" rule: induct_list012; cases "rev s"; cases "tl (rev s)") auto
  ultimately show ?thesis
    using assms(2) by (simp add: trim_def strip_stop strip_unfold [of trail_space "c # rev s"] trimmed_def)
qed

section \<open>Lines and paths\<close>

text \<open>
  \<open>bufio.ScanLines\<close>: the lines of a text without their line ends, a final carriage return of
  a line dropped, no empty line after the last newline.
\<close>

definition drop_cr :: "string \<Rightarrow> string" where
  "drop_cr l = (if l \<noteq> [] \<and> last l = CHR 0x0D then butlast l else l)"

definition raw_lines :: "string \<Rightarrow> string list" where
  "raw_lines s = (let ls = split_on chr_nl s in if last ls = [] then butlast ls else ls)"

definition scan_lines :: "string \<Rightarrow> string list" where
  "scan_lines s = map drop_cr (raw_lines s)"

definition unlines :: "string list \<Rightarrow> string" where
  "unlines ls = concat (map (\<lambda>l. l @ [chr_nl]) ls)"

lemma unlines_append [simp]: "unlines (xs @ ys) = unlines xs @ unlines ys"
  by (simp add: unlines_def)

lemma unlines_Cons [simp]: "unlines (x # xs) = x @ chr_nl # unlines xs"
  by (simp add: unlines_def)

lemma unlines_Nil [simp]: "unlines [] = []"
  by (simp add: unlines_def)

lemma split_unlines: "\<forall>l \<in> set ls. chr_nl \<notin> set l \<Longrightarrow> split_on chr_nl (unlines ls) = ls @ [[]]"
  by (induction ls) (simp_all add: split_on_append)

lemma raw_lines_unlines: "\<forall>l \<in> set ls. chr_nl \<notin> set l \<Longrightarrow> raw_lines (unlines ls) = ls"
  by (simp add: raw_lines_def split_unlines)

lemma plain_blanks [simp]: "\<not> plain chr_tab" "\<not> plain chr_nl" "\<not> plain (CHR 0x20)" "\<not> plain (CHR 0x0D)"
  by (simp_all add: plain_def ascii_space_def)

lemma unlines_join: "unlines (l # ls) = join [chr_nl] (l # ls) @ [chr_nl]"
  by (induction ls arbitrary: l) (simp_all add: join_Cons)

lemma join_neq_Nil: "l \<noteq> [] \<Longrightarrow> join sep (l # ls) \<noteq> []"
  by (cases ls) simp_all

lemma trimmed_join_nl:
  "\<forall>x \<in> set (l # ls). x \<noteq> [] \<and> trimmed x \<Longrightarrow> trimmed (join [chr_nl] (l # ls))"
proof (induction ls arbitrary: l)
  case (Cons a ls)
  have "trimmed (l @ chr_nl # join [chr_nl] (a # ls))"
    using Cons by (intro trimmed_join join_neq_Nil) (simp_all add: ascii_def)
  then show ?case by (simp add: join_Cons)
qed simp

text \<open>A text of clean, non-empty lines loses just its last newline when it is trimmed.\<close>

lemma trim_unlines:
  assumes "\<forall>x \<in> set (l # ls). x \<noteq> [] \<and> trimmed x"
  shows "trim (unlines (l # ls)) = join [chr_nl] (l # ls)"
  unfolding unlines_join
  by (rule trim_snoc_blank) (use assms trimmed_join_nl join_neq_Nil in \<open>auto simp: ascii_space_def\<close>)

text \<open>\<open>filepath.Clean\<close> and \<open>filepath.Join\<close> on a Unix system.\<close>

fun clean_parts :: "bool \<Rightarrow> string list \<Rightarrow> string list \<Rightarrow> string list" where
  "clean_parts rooted st [] = rev st"
| "clean_parts rooted st (c # cs) =
     (if c = [] \<or> c = ''.'' then clean_parts rooted st cs
      else if c = ''..'' then
        (if st \<noteq> [] \<and> hd st \<noteq> ''..'' then clean_parts rooted (tl st) cs
         else if rooted then clean_parts rooted st cs
         else clean_parts rooted (c # st) cs)
      else clean_parts rooted (c # st) cs)"

definition path_clean :: "string \<Rightarrow> string" where
  "path_clean p =
     (let rooted = has_prefix p ''/''; body = join ''/'' (clean_parts rooted [] (split_on (CHR ''/'') p)) in
      if rooted then CHR ''/'' # body else if body = [] then ''.'' else body)"

definition path_join :: "string \<Rightarrow> string \<Rightarrow> string" where
  "path_join dir name =
     (if dir = [] then (if name = [] then [] else path_clean name)
      else if name = [] then path_clean dir
      else path_clean (dir @ ''/'' @ name))"

section \<open>Rounded quotients\<close>

text \<open>The quotient of two natural numbers, rounded half to even as \<open>strconv\<close> rounds the digits it prints.\<close>

definition round_even :: "nat \<Rightarrow> nat \<Rightarrow> nat" where
  "round_even n d =
     (let q = n div d; r = n mod d in if 2 * r < d \<or> (2 * r = d \<and> even q) then q else Suc q)"

section \<open>Evaluation on concrete strings\<close>

lemmas str_eval = trim_def strip.simps ascii_space_def space2_def space3_def str_fields_def
  has_prefix_def has_suffix_def trim_prefix_def trim_suffix_def contains_any_def replace_chr_def
  nat_base.simps digit_def itoa_def is_digit_def digit_val_def dec_val_def parse_nat_def
  parse_sint_def atoi_def int64_ok_def toLower_def toUpper_def lower_chr_def upper_chr_def equalFold_def

end
