(* ===== verification/Go_Net.thy ===== *)
theory Go_Net
  imports Go_Strings "HOL-Library.Word"
begin

text \<open>
  The part of Go's \<open>net\<close> package the program uses: IPv4 addresses as 32-bit words, the
  16-byte results of \<open>net.ParseIP\<close> as 128-bit words (an IPv4 address in its IPv4-mapped
  form), CIDR networks, and their text forms. The locale \<open>text_codec\<close> is the contract between
  the printer and the parser that every user of printed addresses relies on.
\<close>

unbundle bit_operations_syntax

type_synonym ip4 = "32 word"
type_synonym ip16 = "128 word"

section \<open>IPv4 text\<close>

definition octet :: "nat \<Rightarrow> ip4 \<Rightarrow> nat" where
  "octet k a = unat a div 256 ^ k mod 256"

definition v4_of_octets :: "nat \<Rightarrow> nat \<Rightarrow> nat \<Rightarrow> nat \<Rightarrow> ip4" where
  "v4_of_octets a b c d = word_of_nat (((a * 256 + b) * 256 + c) * 256 + d)"

definition show_v4 :: "ip4 \<Rightarrow> string" where
  "show_v4 a = join ''.'' [nat_str (octet 3 a), nat_str (octet 2 a), nat_str (octet 1 a), nat_str (octet 0 a)]"

definition parse_octet :: "string \<Rightarrow> nat option" where
  "parse_octet s =
     (if s \<noteq> [] \<and> list_all is_digit s \<and> (length s = 1 \<or> hd s \<noteq> CHR ''0'') \<and> dec_val s \<le> 255
      then Some (dec_val s) else None)"

definition parse_v4 :: "string \<Rightarrow> ip4 option" where
  "parse_v4 s =
     (case split_on (CHR ''.'') s of
        [a, b, c, d] \<Rightarrow>
          (case (parse_octet a, parse_octet b, parse_octet c, parse_octet d) of
             (Some x, Some y, Some z, Some w) \<Rightarrow> Some (v4_of_octets x y z w)
           | _ \<Rightarrow> None)
      | _ \<Rightarrow> None)"

section \<open>IPv6 text\<close>

definition is_hex :: "char \<Rightarrow> bool" where
  "is_hex c \<longleftrightarrow> (let n = (of_char c :: nat) in
     48 \<le> n \<and> n \<le> 57 \<or> 97 \<le> n \<and> n \<le> 102 \<or> 65 \<le> n \<and> n \<le> 70)"

definition hex_digit_val :: "char \<Rightarrow> nat" where
  "hex_digit_val c = (let n = (of_char c :: nat) in
     if n \<le> 57 then n - 48 else if n \<le> 70 then n - 55 else n - 87)"

definition hex_val :: "string \<Rightarrow> nat" where
  "hex_val s = foldl (\<lambda>n c. 16 * n + hex_digit_val c) 0 s"

text \<open>
  The loop of \<open>netip.parseIPv6\<close>: at most \<open>k\<close> more 16-bit groups, the position of the ellipsis,
  the groups read so far and the rest of the text. A dotted IPv4 tail fills two groups.
\<close>

fun v6_loop :: "nat \<Rightarrow> nat option \<Rightarrow> nat list \<Rightarrow> string \<Rightarrow> (nat list \<times> nat option \<times> string) option" where
  "v6_loop 0 ell gs s = Some (gs, ell, s)"
| "v6_loop (Suc k) ell gs s =
     (let h = takeWhile is_hex s; r = drop (length h) s in
      if h = [] \<or> length h > 4 then None
      else if r \<noteq> [] \<and> hd r = CHR ''.'' then
        (if ell = None \<and> length gs \<noteq> 6 \<or> length gs + 2 > 8 then None
         else (case parse_v4 s of
                 None \<Rightarrow> None
               | Some a \<Rightarrow> Some (gs @ [unat a div 65536, unat a mod 65536], ell, [])))
      else
        (let gs' = gs @ [hex_val h] in
         if r = [] then Some (gs', ell, [])
         else if hd r \<noteq> CHR '':'' \<or> tl r = [] then None
         else if hd (tl r) = CHR '':'' then
           (if ell \<noteq> None then None
            else if tl (tl r) = [] then Some (gs', Some (length gs'), [])
            else v6_loop k (Some (length gs')) gs' (tl (tl r)))
         else v6_loop k ell gs' (tl r)))"

definition v6_of_groups :: "nat list \<Rightarrow> ip16" where
  "v6_of_groups gs = word_of_nat (foldl (\<lambda>n g. n * 65536 + g) 0 gs)"

definition parse_v6 :: "string \<Rightarrow> ip16 option" where
  "parse_v6 s =
     (if CHR ''%'' \<in> set s then None
      else
        (let lead = has_prefix s ''::''; s1 = (if lead then drop 2 s else s) in
         if lead \<and> s1 = [] then Some 0
         else
           (case v6_loop 8 (if lead then Some 0 else None) [] s1 of
              None \<Rightarrow> None
            | Some (gs, ell, rest) \<Rightarrow>
                if rest \<noteq> [] then None
                else if length gs < 8 then
                  (case ell of
                     None \<Rightarrow> None
                   | Some e \<Rightarrow> Some (v6_of_groups (take e gs @ replicate (8 - length gs) 0 @ drop e gs)))
                else if ell \<noteq> None then None
                else Some (v6_of_groups gs))))"

text \<open>\<open>netip.ParseAddr\<close>: the first of dot, colon and percent decides.\<close>

datatype addr = Addr4 ip4 | Addr6 ip16

definition parse_addr :: "string \<Rightarrow> addr option" where
  "parse_addr s =
     (case dropWhile (\<lambda>c. c \<noteq> CHR ''.'' \<and> c \<noteq> CHR '':'' \<and> c \<noteq> CHR ''%'') s of
        [] \<Rightarrow> None
      | c # _ \<Rightarrow>
          if c = CHR ''.'' then map_option Addr4 (parse_v4 s)
          else if c = CHR '':'' then map_option Addr6 (parse_v6 s)
          else None)"

definition v4_mapped :: "ip4 \<Rightarrow> ip16" where
  "v4_mapped a = word_of_nat (65535 * 2 ^ 32 + unat a)"

definition as16 :: "addr \<Rightarrow> ip16" where
  "as16 x = (case x of Addr4 a \<Rightarrow> v4_mapped a | Addr6 a \<Rightarrow> a)"

definition parseIP :: "string \<Rightarrow> ip16 option" where
  "parseIP s = map_option as16 (parse_addr s)"

definition to4 :: "ip16 \<Rightarrow> ip4 option" where
  "to4 a = (if unat a div 2 ^ 32 = 65535 then Some (word_of_nat (unat a mod 2 ^ 32)) else None)"

text \<open>\<open>net.ParseIP(s).To4()\<close>; nil stays nil.\<close>

definition parseIP4 :: "string \<Rightarrow> ip4 option" where
  "parseIP4 s = (case parseIP s of None \<Rightarrow> None | Some a \<Rightarrow> to4 a)"

section \<open>Networks\<close>

text \<open>
  A \<open>net.IPNet\<close>: the network number, 4 or 16 bytes wide as the mask is, and the number of
  leading ones of the mask.
\<close>

datatype ipnet = Net4 ip4 nat | Net16 ip16 nat

definition mask4 :: "nat \<Rightarrow> ip4 \<Rightarrow> ip4" where
  "mask4 n a = push_bit (32 - n) (drop_bit (32 - n) a)"

definition mask16 :: "nat \<Rightarrow> ip16 \<Rightarrow> ip16" where
  "mask16 n a = push_bit (128 - n) (drop_bit (128 - n) a)"

definition parseCIDR :: "string \<Rightarrow> (ip16 \<times> ipnet) option" where
  "parseCIDR s =
     (case cutAt (CHR ''/'') s of
        None \<Rightarrow> None
      | Some (a, m) \<Rightarrow>
          (case (parse_addr a, parse_nat m) of
             (Some (Addr4 x), Some n) \<Rightarrow>
               if n \<le> 32 then Some (v4_mapped x, Net4 (mask4 n x) n) else None
           | (Some (Addr6 x), Some n) \<Rightarrow>
               if n \<le> 128 then Some (x, Net16 (mask16 n x) n) else None
           | _ \<Rightarrow> None))"

text \<open>\<open>IPNet.Contains\<close> on a 4-byte address; a 16-byte mask over an IPv4-mapped network loses
  its first 12 bytes.\<close>

definition net_contains4 :: "ipnet \<Rightarrow> ip4 \<Rightarrow> bool" where
  "net_contains4 net a =
     (case net of
        Net4 b n \<Rightarrow> mask4 n b = mask4 n a
      | Net16 b n \<Rightarrow>
          (case to4 b of None \<Rightarrow> False | Some b4 \<Rightarrow> mask4 (n - 96) b4 = mask4 (n - 96) a))"

section \<open>Facts\<close>

lemma unat_lt32: "unat (a :: ip4) < 4294967296"
  proof -
  have "unat a < 2 ^ 32" by (rule order_less_le_trans [OF unsigned_less]) simp
  then show ?thesis by simp
qed

lemma octet_lt [simp]: "octet k a < 256"
  by (simp add: octet_def)

lemma octets_join:
  "((octet 3 a * 256 + octet 2 a) * 256 + octet 1 a) * 256 + octet 0 a = unat a"
proof -
  let ?q = "unat a"
  have "?q div 65536 div 256 < 256" using unat_lt32 [of a] by (simp flip: div_mult2_eq)
  then have "octet 3 a = ?q div 65536 div 256" by (simp add: octet_def flip: div_mult2_eq)
  moreover have "octet 2 a = ?q div 65536 mod 256" by (simp add: octet_def)
  ultimately have 1: "octet 3 a * 256 + octet 2 a = ?q div 65536" by simp
  have "?q div 65536 = ?q div 256 div 256" by (simp flip: div_mult2_eq)
  moreover have "octet 1 a = ?q div 256 mod 256" by (simp add: octet_def)
  ultimately have 2: "?q div 65536 * 256 + octet 1 a = ?q div 256" by simp
  have 3: "?q div 256 * 256 + octet 0 a = ?q" by (simp add: octet_def)
  show ?thesis by (simp only: 1 2 3)
qed

lemma v4_of_octets_octet [simp]:
  "v4_of_octets (octet 3 a) (octet 2 a) (octet 1 a) (octet 0 a) = a"
  unfolding v4_of_octets_def octets_join by simp

lemma digit_neq_zero: "0 < n \<Longrightarrow> n < 10 \<Longrightarrow> digit n \<noteq> CHR ''0''"
  using of_char_digit [of n] by auto

lemma hd_nat_str: "0 < n \<Longrightarrow> hd (nat_str n) \<noteq> CHR ''0''"
proof (induction n rule: less_induct)
  case (less n)
  show ?case
  proof (cases "n < 10")
    case True
    with less.prems show ?thesis by (subst nat_base.simps) (simp add: digit_neq_zero)
  next
    case False
    then have "hd (nat_str (n div 10)) \<noteq> CHR ''0''" by (intro less) auto
    with False show ?thesis by (subst nat_base.simps) simp
  qed
qed

lemma parse_octet_nat_str: "n < 256 \<Longrightarrow> parse_octet (nat_str n) = Some n"
proof -
  assume "n < 256"
  moreover have "length (nat_str n) = 1 \<or> hd (nat_str n) \<noteq> CHR ''0''"
    by (cases "n = 0") (simp add: nat_base.simps, simp add: hd_nat_str)
  ultimately show ?thesis using nat_str_digits [of n] by (simp add: parse_octet_def)
qed

lemma dot_not_digit: "\<not> is_digit (CHR ''.'')" "\<not> is_digit (CHR ''/'')" "\<not> is_digit (CHR '','')"
  "\<not> is_digit (CHR '':'')" "\<not> is_digit (CHR ''%'')" "\<not> is_digit (CHR '' '')"
  "\<not> is_digit chr_nl" "\<not> is_digit chr_quote"
  by (simp_all add: is_digit_def)

lemma show_v4_chars: "c \<in> set (show_v4 a) \<Longrightarrow> is_digit c \<or> c = CHR ''.''"
  unfolding show_v4_def using nat_str_is_digit by (auto simp del: join.simps dest!: subsetD [OF set_join])

lemma dot_plain: "plain (CHR ''.'')"
  by (simp add: plain_def ascii_space_def)

lemma show_v4_no: "\<not> is_digit c \<Longrightarrow> c \<noteq> CHR ''.'' \<Longrightarrow> c \<notin> set (show_v4 a)"
  using show_v4_chars by blast

lemma show_v4_plain: "c \<in> set (show_v4 a) \<Longrightarrow> plain c"
  using show_v4_chars [of c a] is_digit_plain dot_plain by blast

lemma show_v4_neq_Nil [simp]: "show_v4 a \<noteq> []"
  by (simp add: show_v4_def)

lemma split_show_v4:
  "split_on (CHR ''.'') (show_v4 a)
     = [nat_str (octet 3 a), nat_str (octet 2 a), nat_str (octet 1 a), nat_str (octet 0 a)]"
  unfolding show_v4_def
  by (rule split_on_join) (auto dest: nat_str_is_digit simp: dot_not_digit)

lemma parse_v4_show [simp]: "parse_v4 (show_v4 a) = Some a"
  using v4_of_octets_octet [of a]
  by (simp add: parse_v4_def split_show_v4 parse_octet_nat_str del: v4_of_octets_octet)

lemma dropWhile_first: "\<forall>x \<in> set w. P x \<Longrightarrow> \<not> P c \<Longrightarrow> dropWhile P (w @ c # s) = c # s"
  by (induction w) auto

lemma parse_addr_show_v4 [simp]: "parse_addr (show_v4 a) = Some (Addr4 a)"
proof -
  let ?P = "\<lambda>c. c \<noteq> CHR ''.'' \<and> c \<noteq> CHR '':'' \<and> c \<noteq> CHR ''%''"
  obtain s where s: "show_v4 a = nat_str (octet 3 a) @ CHR ''.'' # s"
    by (simp add: show_v4_def)
  have "\<forall>c \<in> set (nat_str (octet 3 a)). ?P c"
    using nat_str_is_digit dot_not_digit by blast
  then have "dropWhile ?P (show_v4 a) = CHR ''.'' # s"
    unfolding s by (rule dropWhile_first) simp
  then show ?thesis by (simp add: parse_addr_def)
qed

lemma unat_v4_mapped: "unat (v4_mapped a) = 65535 * 2 ^ 32 + unat a"
proof -
  have "65535 * 2 ^ 32 + unat a < 2 ^ 128" using unat_lt32 [of a] by simp
  then show ?thesis
    unfolding v4_mapped_def by (subst unat_of_nat) simp
qed

lemma to4_v4_mapped [simp]: "to4 (v4_mapped a) = Some a"
proof -
  have "(65535 * 2 ^ 32 + unat a) div 2 ^ 32 = 65535" "(65535 * 2 ^ 32 + unat a) mod 2 ^ 32 = unat a"
    using unat_lt32 [of a] mod_mult_self3 [of 65535 "2 ^ 32" "unat a"]
    by (simp_all add: div_add1_eq)
  then show ?thesis unfolding to4_def unat_v4_mapped by simp
qed

lemma parseIP_show_v4 [simp]: "parseIP (show_v4 a) = Some (v4_mapped a)"
  by (simp add: parseIP_def as16_def)

lemma parseIP4_show_v4 [simp]: "parseIP4 (show_v4 a) = Some a"
  by (simp add: parseIP4_def)

lemma show_v4_inj [simp]: "show_v4 a = show_v4 b \<longleftrightarrow> a = b"
  by (metis parseIP4_show_v4 option.inject)

lemma parseCIDR_show_v4:
  "n \<le> 32 \<Longrightarrow> parseCIDR (show_v4 a @ CHR ''/'' # nat_str n) = Some (v4_mapped a, Net4 (mask4 n a) n)"
  by (simp add: parseCIDR_def show_v4_no dot_not_digit)

lemma unat_mask4: "n \<le> 32 \<Longrightarrow> unat (mask4 n a) = unat a div 2 ^ (32 - n) * 2 ^ (32 - n)"
proof -
  assume "n \<le> 32"
  have "unat a div 2 ^ (32 - n) * 2 ^ (32 - n) < 2 ^ 32"
    using unat_lt32 [of a] by (simp add: le_less_trans [OF div_times_less_eq_dividend])
  then show ?thesis
    by (simp only: mask4_def unsigned_push_bit_eq unsigned_drop_bit_eq)
       (simp add: push_bit_eq_mult drop_bit_eq_div take_bit_eq_mod unat_lt32)
qed

text \<open>The bits below the mask of an address count its place in the network.\<close>

lemma mask4_add:
  assumes "n \<le> 32" and "i < 2 ^ (32 - n)"
  shows "unat (mask4 n a + word_of_nat i) = unat (mask4 n a) + i"
    and "mask4 n (mask4 n a + word_of_nat i) = mask4 n a"
proof -
  let ?h = "2 ^ (32 - n) :: nat"
  have h: "2 ^ 32 = 2 ^ n * ?h" using assms(1) by (simp flip: power_add)
  have "unat a div ?h < 2 ^ n"
    using unat_lt32 [of a] h by (simp add: less_mult_imp_div_less)
  then have "(unat a div ?h + 1) * ?h \<le> 2 ^ n * ?h" by (intro mult_le_mono) auto
  then have lt: "unat a div ?h * ?h + i < 2 ^ 32" using assms(2) h by simp
  have i: "unat (word_of_nat i :: ip4) = i"
    using lt by (simp add: unsigned_of_nat take_bit_eq_mod)
  show *: "unat (mask4 n a + word_of_nat i) = unat (mask4 n a) + i"
    using lt by (simp add: unat_word_ariths i unat_mask4 assms(1))
  have "unat (mask4 n (mask4 n a + word_of_nat i)) = unat (mask4 n a)"
    using assms by (simp add: unat_mask4 [OF assms(1)] * [unfolded unat_mask4 [OF assms(1)]])
  then show "mask4 n (mask4 n a + word_of_nat i) = mask4 n a" by (metis word_eq_iff_unsigned)
qed

lemma mask4_decompose:
  assumes "n \<le> 32" and "mask4 n x = mask4 n a"
  shows "\<exists>i < 2 ^ (32 - n). x = mask4 n a + word_of_nat i"
proof (intro exI conjI)
  let ?h = "2 ^ (32 - n) :: nat"
  let ?i = "unat x mod ?h"
  show lt: "?i < ?h" by simp
  have "unat (mask4 n a + word_of_nat ?i) = unat (mask4 n x) + ?i"
    using mask4_add(1) [OF assms(1) lt] by (simp add: assms(2))
  also have "\<dots> = unat x" by (simp only: unat_mask4 [OF assms(1)] div_mult_mod_eq)
  finally show "x = mask4 n a + word_of_nat ?i" by (metis word_eq_iff_unsigned)
qed

section \<open>The contract of a text form\<close>

text \<open>
  What code that stores printed values relies on: the printed text parses back, and it holds
  neither a blank nor a comma nor a slash, so that it survives trimming and the splitting of
  address lists.
\<close>

locale text_codec =
  fixes sh :: "'a \<Rightarrow> string" and pa :: "string \<Rightarrow> 'a option"
  assumes parse_show: "pa (sh a) = Some a"
    and show_plain: "c \<in> set (sh a) \<Longrightarrow> plain c"
    and show_seps: "CHR '','' \<notin> set (sh a)" "CHR ''/'' \<notin> set (sh a)"
    and show_nonempty: "sh a \<noteq> []"
begin

lemma show_inj: "sh a = sh b \<longleftrightarrow> a = b"
  by (metis parse_show option.inject)

lemma show_mem_image: "sh a \<in> sh ` A \<longleftrightarrow> a \<in> A"
  by (auto simp: show_inj)

lemma trim_show: "trim (sh a) = sh a"
  using show_plain by (intro trim_plain) auto

lemma split_show: "split_on (CHR '','') (sh a) = [sh a]"
  by (simp add: split_on_id show_seps)

lemma cut_show: "cutAt (CHR ''/'') (sh a @ CHR ''/'' # m) = Some (sh a, m)"
  by (simp add: show_seps)

lemma trim_show_suffix:
  assumes "m \<noteq> []" and "\<forall>c \<in> set m. plain c"
  shows "trim (sh a @ CHR ''/'' # m) = sh a @ CHR ''/'' # m"
proof (rule trim_trimmed, rule trimmed_plain_ends)
  show "plain (hd (sh a @ CHR ''/'' # m))"
    using show_plain [of "hd (sh a)" a] show_nonempty [of a] by simp
  show "plain (last (sh a @ CHR ''/'' # m))" using assms by simp
qed simp

end

interpretation v4: text_codec show_v4 parseIP4
  by unfold_locales (auto intro: show_v4_plain dest: show_v4_chars simp: dot_not_digit)

interpretation dec: text_codec nat_str parse_nat
  by unfold_locales (auto intro: nat_str_plain dest: nat_str_is_digit simp: dot_not_digit)

section \<open>Evaluation on concrete addresses\<close>

lemmas net_eval = str_eval parseCIDR_def parse_addr_def parse_v4_def parse_octet_def v4_of_octets_def
  mask4_def parseIP4_def parseIP_def as16_def show_v4_def octet_def

end
