(* ===== verification/Peers.thy ===== *)
theory Peers
  imports Store Go_Net
begin

text \<open>
  Address allocation of \<open>internal/wireguard/peers.go\<close>: the next free tunnel address of the
  configured client range. The specification \<open>free_host\<close> says which addresses may be handed
  out; the lemmas show that the allocator returns the least of them whenever there is one.
\<close>

section \<open>The code\<close>

text \<open>\<open>db.GetSystemConfig\<close>: no row is a configuration that is not set up.\<close>

definition GetSystemConfig :: "db \<Rightarrow> sys_config" where
  "GetSystemConfig d = (case sysconf d of None \<Rightarrow> \<lparr>sc_complete = False, sc_config = None\<rparr> | Some c \<Rightarrow> c)"

definition UpsertSystemConfig :: "bool \<Rightarrow> wgconf \<Rightarrow> db \<Rightarrow> db" where
  "UpsertSystemConfig complete w d = d\<lparr>sysconf := Some \<lparr>sc_complete = complete, sc_config = Some w\<rparr>\<rparr>"

definition parseServerIPv4 :: "string \<Rightarrow> ip4 option" where
  "parseServerIPv4 serverAddress =
     (let s = trim serverAddress in
      if s = [] then None
      else
        (let s = (case cutAt (CHR '','') s of Some (a, _) \<Rightarrow> trim a | None \<Rightarrow> s) in
         if s = [] then None
         else
           (case cutAt (CHR ''/'') s of
              None \<Rightarrow> parseIP4 s
            | Some (host, _) \<Rightarrow>
                (case parseCIDR s of
                   Some (ip, _) \<Rightarrow> to4 ip
                 | None \<Rightarrow> parseIP4 (trim host)))))"

definition part_ipv4 :: "string \<Rightarrow> ip4 option" where
  "part_ipv4 p =
     (let p = trim p in
      if p = [] then None
      else parseIP4 (case cutAt (CHR ''/'') p of Some (host, _) \<Rightarrow> host | None \<Rightarrow> p))"

fun first_some :: "('a \<Rightarrow> 'b option) \<Rightarrow> 'a list \<Rightarrow> 'b option" where
  "first_some f [] = None"
| "first_some f (x # xs) = (case f x of Some y \<Rightarrow> Some y | None \<Rightarrow> first_some f xs)"

definition firstIPv4InAllowedIPs :: "string \<Rightarrow> ip4 option" where
  "firstIPv4InAllowedIPs s = first_some part_ipv4 (split_on (CHR '','') s)"

definition addToIPv4 :: "ip4 \<Rightarrow> nat \<Rightarrow> ip4" where
  "addToIPv4 ip n = word_of_int (uint ip + int n)"

text \<open>\<open>net.IPMask.Size\<close> and the network number as four bytes with the mask that goes with it.\<close>

definition mask_size :: "ipnet \<Rightarrow> nat \<times> nat" where
  "mask_size net = (case net of Net4 _ n \<Rightarrow> (n, 32) | Net16 _ n \<Rightarrow> (n, 128))"

definition base4 :: "ipnet \<Rightarrow> ip4 option" where
  "base4 net = (case net of Net4 b _ \<Rightarrow> Some b | Net16 b _ \<Rightarrow> to4 b)"

definition ones4 :: "ipnet \<Rightarrow> nat" where
  "ones4 net = (case net of Net4 _ n \<Rightarrow> n | Net16 _ n \<Rightarrow> n - 96)"

definition allHostsIPv4 :: "ipnet \<Rightarrow> ip4 list" where
  "allHostsIPv4 cidr =
     (case base4 cidr of
        None \<Rightarrow> []
      | Some base \<Rightarrow>
          (let network = mask4 (ones4 cidr) base;
               (ones, bits) = mask_size cidr;
               hostBits = bits - ones in
           if hostBits = 0 \<or> hostBits > 16 then []
           else filter (net_contains4 cidr)
                  (map (addToIPv4 network) [1 ..< 2 ^ hostBits - 1])))"

definition used_addresses :: "db \<Rightarrow> string list" where
  "used_addresses d =
     map show_v4 (List.map_filter firstIPv4InAllowedIPs
       (filter (\<lambda>s. s \<noteq> [])
         (List.map_filter u_allowed_ips (filter (\<lambda>u. u_server_id u = ''wireguard'') (users d)))))"

definition NextClientAllowedIP :: "db \<Rightarrow> string res" where
  "NextClientAllowedIP d =
     (case sc_config (GetSystemConfig d) of
        None \<Rightarrow> Inl (ErrMsg ''vpn configuration not set'')
      | Some w \<Rightarrow>
          (case parseCIDR (trim (w_client_range w)) of
             None \<Rightarrow> Inl (ErrMsg ''invalid client CIDR'')
           | Some (_, cidr) \<Rightarrow>
               (let serverIP = parseServerIPv4 (w_server_address w);
                    used = used_addresses d;
                    candidates = sort (allHostsIPv4 cidr) in
                (case find (\<lambda>ip. serverIP \<noteq> Some ip \<and> show_v4 ip \<notin> set used) candidates of
                   Some ip \<Rightarrow> Inr (show_v4 ip @ ''/32'')
                 | None \<Rightarrow> Inl (ErrMsg ''no available IPs in subnet'')))))"

section \<open>The specification\<close>

text \<open>
  An address of the network that is neither the network number nor the broadcast address,
  and one that neither the server nor a client of the WireGuard server holds.
\<close>

definition client_host :: "ipnet \<Rightarrow> ip4 \<Rightarrow> bool" where
  "client_host net a \<longleftrightarrow>
     (case base4 net of
        None \<Rightarrow> False
      | Some b \<Rightarrow>
          mask4 (ones4 net) a = mask4 (ones4 net) b
        \<and> a \<noteq> mask4 (ones4 net) b
        \<and> a \<noteq> mask4 (ones4 net) b + word_of_nat (2 ^ (32 - ones4 net) - 1))"

definition holds_address :: "db \<Rightarrow> ip4 \<Rightarrow> bool" where
  "holds_address d a \<longleftrightarrow>
     (\<exists>u \<in> set (users d). u_server_id u = ''wireguard'' \<and>
        Option.bind (u_allowed_ips u) firstIPv4InAllowedIPs = Some a)"

definition free_host :: "db \<Rightarrow> wgconf \<Rightarrow> ipnet \<Rightarrow> ip4 \<Rightarrow> bool" where
  "free_host d w net a \<longleftrightarrow>
     client_host net a \<and> parseServerIPv4 (w_server_address w) \<noteq> Some a \<and> \<not> holds_address d a"

section \<open>The candidates are the client hosts\<close>

lemma addToIPv4_add: "addToIPv4 ip n = ip + word_of_nat n"
  by (simp add: addToIPv4_def)

text \<open>What \<open>parseCIDR\<close> returns is masked already, and an IPv4-mapped network has 96 leading ones.\<close>

definition net_ok :: "ipnet \<Rightarrow> bool" where
  "net_ok net \<longleftrightarrow>
     (case net of
        Net4 b n \<Rightarrow> n \<le> 32 \<and> mask4 n b = b
      | Net16 b n \<Rightarrow> n \<le> 128 \<and> (case to4 b of None \<Rightarrow> True | Some b4 \<Rightarrow> 96 \<le> n \<and> mask4 (n - 96) b4 = b4))"

lemma mask4_mask4 [simp]: "n \<le> 32 \<Longrightarrow> mask4 n (mask4 n a) = mask4 n a"
  using mask4_add(2) [of n 0 a] by simp

lemma unat_lt128: "unat (a :: ip16) < 2 ^ 128"
  by (rule order_less_le_trans [OF unsigned_less]) simp

lemma unat_mask16: "n \<le> 128 \<Longrightarrow> unat (mask16 n a) = unat a div 2 ^ (128 - n) * 2 ^ (128 - n)"
proof -
  assume "n \<le> 128"
  have lt: "unat a div 2 ^ (128 - n) * 2 ^ (128 - n) < 2 ^ 128"
    using unat_lt128 [of a] by (simp add: le_less_trans [OF div_times_less_eq_dividend])
  have a: "unat a mod 2 ^ 128 = unat a" using unat_lt128 [of a] by simp
  show ?thesis
    using lt a by (simp only: mask16_def unsigned_push_bit_eq unsigned_drop_bit_eq)
      (simp add: push_bit_eq_mult drop_bit_eq_div take_bit_eq_mod)
qed

lemma div_mult_dvd: "k \<le> m \<Longrightarrow> (2 :: nat) ^ k dvd x div 2 ^ m * 2 ^ m"
  by (simp add: dvd_mult le_imp_power_dvd)

lemma to4_mask16:
  assumes "n \<le> 128" and "to4 (mask16 n x) = Some b"
  shows "96 \<le> n" and "mask4 (n - 96) b = b"
proof -
  let ?u = "unat (mask16 n x)"
  have hi: "?u div 2 ^ 32 = 65535" and b: "b = word_of_nat (?u mod 2 ^ 32)"
    using assms(2) by (auto simp: to4_def split: if_splits)
  have u: "?u = unat x div 2 ^ (128 - n) * 2 ^ (128 - n)" using assms(1) by (rule unat_mask16)
  show n: "96 \<le> n"
  proof (rule ccontr)
    assume "\<not> 96 \<le> n"
    then have "2 ^ 33 dvd ?u" unfolding u by (intro div_mult_dvd) simp
    then have "even (?u div 2 ^ 32)" by (auto elim!: dvdE simp: power_add [of 2 32 1, simplified])
    with hi show False by simp
  qed
  have k: "32 - (n - 96) = 128 - n" and le: "n - 96 \<le> 32" using n assms(1) by auto
  have d: "2 ^ (128 - n) dvd ?u mod 2 ^ 32"
  proof -
    have "(2 :: nat) ^ (128 - n) dvd 2 ^ 32" using n by (intro le_imp_power_dvd) simp
    then show ?thesis unfolding u by (intro dvd_mod) simp_all
  qed
  have ub: "unat b = ?u mod 2 ^ 32" by (simp add: b unsigned_of_nat take_bit_eq_mod)
  have "unat (mask4 (n - 96) b) = unat b"
    using d by (simp add: unat_mask4 [OF le] k ub)
  then show "mask4 (n - 96) b = b" by (metis word_eq_iff_unsigned)
qed

lemma net_ok_parseCIDR: "parseCIDR s = Some (ip, net) \<Longrightarrow> net_ok net"
  by (auto simp: parseCIDR_def net_ok_def to4_mask16 split: option.splits prod.splits addr.splits if_splits)

lemma host_bits:
  assumes "net_ok net" and "base4 net = Some b"
  shows "snd (mask_size net) - fst (mask_size net) = 32 - ones4 net" and "ones4 net \<le> 32"
    and "mask4 (ones4 net) b = b"
  using assms by (auto simp: net_ok_def base4_def mask_size_def ones4_def split: ipnet.splits)

lemma net_contains4_iff:
  "base4 net = Some b \<Longrightarrow> net_contains4 net a \<longleftrightarrow> mask4 (ones4 net) b = mask4 (ones4 net) a"
  by (auto simp: net_contains4_def base4_def ones4_def split: ipnet.splits)

definition small_net :: "ipnet \<Rightarrow> bool" where
  "small_net net \<longleftrightarrow> 16 \<le> ones4 net \<and> ones4 net < 32"

lemma set_allHosts:
  assumes ok: "net_ok net" and small: "small_net net"
  shows "set (allHostsIPv4 net) = Collect (client_host net)"
proof (cases "base4 net")
  case None
  then show ?thesis by (simp add: allHostsIPv4_def client_host_def)
next
  case (Some b)
  define n where "n = ones4 net"
  define h where "h = (2 :: nat) ^ (32 - n)"
  note hb = host_bits [OF ok Some, folded n_def]
  have n: "16 \<le> n" "n < 32" using small by (auto simp: small_net_def n_def)
  have hosts: "allHostsIPv4 net = filter (net_contains4 net) (map (addToIPv4 b) [1 ..< h - 1])"
  proof -
    have "fst (mask_size net) < snd (mask_size net)" using hb(1) n by linarith
    then show ?thesis
      using hb n by (simp add: allHostsIPv4_def Some h_def n_def [symmetric] split_beta Let_def)
  qed
  have add: "unat (b + word_of_nat i) = unat b + i" "mask4 n (b + word_of_nat i) = b" if "i < h" for i
    using mask4_add [OF hb(2), of i b] that by (simp_all add: hb(3) h_def)
  have "2 \<le> h" using n self_le_power [of 2 "32 - n"] by (simp add: h_def)
  show ?thesis
  proof (intro set_eqI iffI)
    fix a assume "a \<in> set (allHostsIPv4 net)"
    then obtain i where i: "1 \<le> i" "i < h - 1" and a: "a = b + word_of_nat i"
      by (auto simp: hosts addToIPv4_add)
    have "unat a = unat b + i" "mask4 n a = b" using add [of i] i by (simp_all add: a)
    moreover have "unat (b + word_of_nat (h - 1)) = unat b + (h - 1)" using add [of "h - 1"] \<open>2 \<le> h\<close> by simp
    ultimately show "a \<in> Collect (client_host net)"
      using i by (auto simp: client_host_def Some n_def [symmetric] h_def [symmetric] hb(3))
  next
    fix a assume "a \<in> Collect (client_host net)"
    then have a: "mask4 n a = mask4 n b" "a \<noteq> b" "a \<noteq> b + word_of_nat (h - 1)"
      by (auto simp: client_host_def Some n_def [symmetric] h_def [symmetric] hb(3))
    then obtain i where i: "i < h" "a = b + word_of_nat i"
      using mask4_decompose [OF hb(2) a(1)] by (auto simp: h_def hb(3))
    have "i \<noteq> 0" using a(2) i(2) by (intro notI) simp
    moreover have "i \<noteq> h - 1" using a(3) i(2) by (intro notI) simp
    ultimately have ih: "1 \<le> i" "i < h - 1" using i(1) by auto
    have "net_contains4 net a" using a(1) by (simp add: net_contains4_iff [OF Some] n_def [symmetric])
    moreover have "a \<in> addToIPv4 b ` set [1 ..< h - 1]"
      using ih by (intro image_eqI [of _ _ i]) (simp_all add: addToIPv4_add i(2))
    ultimately show "a \<in> set (allHostsIPv4 net)" by (simp add: hosts)
  qed
qed

lemma allHosts_large: "net_ok net \<Longrightarrow> \<not> small_net net \<Longrightarrow> allHostsIPv4 net = []"
  using host_bits [of net]
  by (cases "base4 net") (auto simp: allHostsIPv4_def small_net_def split_beta Let_def)

section \<open>The allocator returns the least free host\<close>

lemma find_sort_Some:
  assumes "find P (sort xs) = Some x"
  shows "x \<in> set xs" and "P x" and "y \<in> set xs \<Longrightarrow> P y \<Longrightarrow> x \<le> y"
proof -
  obtain i where i: "i < length (sort xs)" "P (sort xs ! i)" "x = sort xs ! i"
    and first: "\<forall>j < i. \<not> P (sort xs ! j)"
    using assms by (auto simp: find_Some_iff)
  from i show "x \<in> set xs" and "P x" by (metis nth_mem set_sort, simp)
  assume "y \<in> set xs" and "P y"
  then obtain j where j: "j < length (sort xs)" "y = sort xs ! j" by (metis in_set_conv_nth set_sort)
  with first \<open>P y\<close> have "i \<le> j" by (meson not_less)
  then show "x \<le> y" using i j by (simp add: sorted_nth_mono)
qed

lemma map_filter_set: "set (List.map_filter f xs) = {y. \<exists>x \<in> set xs. f x = Some y}"
  by (auto simp: List.map_filter_def image_iff) force

lemma used_addresses_iff: "show_v4 a \<in> set (used_addresses d) \<longleftrightarrow> holds_address d a"
proof -
  have nil: "firstIPv4InAllowedIPs [] = None"
    by (simp add: firstIPv4InAllowedIPs_def part_ipv4_def)
  have "show_v4 a \<in> set (used_addresses d)
      \<longleftrightarrow> (\<exists>u \<in> set (users d). u_server_id u = ''wireguard''
            \<and> (\<exists>s. u_allowed_ips u = Some s \<and> s \<noteq> [] \<and> firstIPv4InAllowedIPs s = Some a))"
    by (auto simp: used_addresses_def v4.show_mem_image map_filter_set)
  also have "\<dots> \<longleftrightarrow> holds_address d a"
    using nil unfolding holds_address_def
    by (intro bex_cong refl conj_cong) (auto simp: bind_eq_Some_conv)
  finally show ?thesis .
qed

lemma NextClientAllowedIP_eq:
  assumes "sc_config (GetSystemConfig d) = Some w"
    and "parseCIDR (trim (w_client_range w)) = Some (ip, net)"
  shows "NextClientAllowedIP d =
     (case find (free_host d w net) (sort (allHostsIPv4 net)) of
        Some a \<Rightarrow> Inr (show_v4 a @ ''/32'')
      | None \<Rightarrow> Inl (ErrMsg ''no available IPs in subnet''))"
proof -
  have ok: "net_ok net" using assms(2) by (rule net_ok_parseCIDR)
  have "find (\<lambda>ip. parseServerIPv4 (w_server_address w) \<noteq> Some ip \<and> show_v4 ip \<notin> set (used_addresses d))
          (sort (allHostsIPv4 net)) = find (free_host d w net) (sort (allHostsIPv4 net))"
  proof (rule find_cong [OF refl])
    fix a assume "a \<in> set (sort (allHostsIPv4 net))"
    then have "client_host net a"
      using set_allHosts [OF ok] allHosts_large [OF ok] by (cases "small_net net") auto
    then show "(parseServerIPv4 (w_server_address w) \<noteq> Some a \<and> show_v4 a \<notin> set (used_addresses d))
        = free_host d w net a"
      by (simp add: free_host_def used_addresses_iff)
  qed
  then show ?thesis by (simp add: NextClientAllowedIP_def assms)
qed

lemma NextClientAllowedIP_least:
  assumes "sc_config (GetSystemConfig d) = Some w"
    and "parseCIDR (trim (w_client_range w)) = Some (ip, net)"
    and "NextClientAllowedIP d = Inr s"
  shows "\<exists>a. s = show_v4 a @ ''/32'' \<and> free_host d w net a \<and> (\<forall>b. free_host d w net b \<longrightarrow> a \<le> b)"
proof -
  have ok: "net_ok net" using assms(2) by (rule net_ok_parseCIDR)
  obtain a where a: "find (free_host d w net) (sort (allHostsIPv4 net)) = Some a"
      and s: "s = show_v4 a @ ''/32''"
    using assms(3) by (auto simp: NextClientAllowedIP_eq [OF assms(1,2)] split: option.splits)
  have "small_net net" using find_sort_Some(1) [OF a] allHosts_large [OF ok] by force
  then have "free_host d w net b \<Longrightarrow> b \<in> set (allHostsIPv4 net)" for b
    using set_allHosts [OF ok] by (simp add: free_host_def)
  then show ?thesis using s find_sort_Some(2,3) [OF a] by blast
qed

text \<open>
  C1. Address allocation never hands out a wrong address: when \<open>NextClientAllowedIP\<close> returns a
  text, it is the dotted form, with the suffix \<open>/32\<close>, of an address of the client range that is
  neither network number nor broadcast address, is not the server's own address, and is the
  first IPv4 address of no client of the server; and it is the least such address.
\<close>

theorem NextClientAllowedIP_sound:
  assumes "sc_config (GetSystemConfig d) = Some w"
    and "parseCIDR (trim (w_client_range w)) = Some (ip, net)"
    and "NextClientAllowedIP d = Inr s"
  shows "\<exists>a. s = show_v4 a @ ''/32'' \<and> free_host d w net a \<and> (\<forall>b. free_host d w net b \<longrightarrow> a \<le> b)"
  using assms by (rule NextClientAllowedIP_least)

text \<open>
  C26. Address allocation is complete on the networks it accepts: for a client range of 1 to 16
  host bits the allocator fails exactly when every client host is taken, and on any other
  range it fails always.
\<close>

theorem NextClientAllowedIP_complete:
  assumes "sc_config (GetSystemConfig d) = Some w"
    and "parseCIDR (trim (w_client_range w)) = Some (ip, net)"
  shows "isOk (NextClientAllowedIP d) \<longleftrightarrow> small_net net \<and> (\<exists>a. free_host d w net a)"
proof -
  have ok: "net_ok net" using assms(2) by (rule net_ok_parseCIDR)
  have "isOk (NextClientAllowedIP d) \<longleftrightarrow> (\<exists>a \<in> set (allHostsIPv4 net). free_host d w net a)"
  proof -
    have "isOk (NextClientAllowedIP d) \<longleftrightarrow> \<not> (find (free_host d w net) (sort (allHostsIPv4 net)) = None)"
      by (simp add: NextClientAllowedIP_eq [OF assms] split: option.split)
    then show ?thesis by (simp add: find_eq_None)
  qed
  also have "\<dots> \<longleftrightarrow> small_net net \<and> (\<exists>a. free_host d w net a)"
    using set_allHosts [OF ok] allHosts_large [OF ok]
    by (cases "small_net net") (auto simp: free_host_def)
  finally show ?thesis .
qed

section \<open>Allocated addresses stay allocated\<close>

text \<open>
  The text the allocator returns, alone or followed by a comma and further prefixes as
  \<open>UserCreatePost\<close> stores it, holds its address.
\<close>

lemma plain_slash32: "\<forall>c \<in> set ''32''. plain c"
  by (simp add: plain_def ascii_space_def)

lemma part_ipv4_show: "part_ipv4 (show_v4 a @ ''/32'') = Some a"
  using v4.trim_show_suffix [of "''32''" a] plain_slash32 v4.cut_show [of a "''32''"]
  by (simp add: part_ipv4_def)

lemma comma_not_show32: "CHR '','' \<notin> set (show_v4 a @ ''/32'')"
  using v4.show_seps(1) by simp

lemma first_ipv4_show: "firstIPv4InAllowedIPs (show_v4 a @ ''/32'') = Some a"
  unfolding firstIPv4InAllowedIPs_def split_on_id [OF comma_not_show32]
  by (simp add: part_ipv4_show del: append_Cons)

lemma first_ipv4_show_extra:
  "firstIPv4InAllowedIPs ((show_v4 a @ ''/32'') @ CHR '','' # rest) = Some a"
  unfolding firstIPv4InAllowedIPs_def split_on_append [OF comma_not_show32]
  by (simp add: part_ipv4_show)

lemma holds_address_insert:
  assumes "insert_user u d = Inr d'"
  shows "holds_address d' a \<longleftrightarrow> holds_address d a \<or>
     (u_server_id u = ''wireguard'' \<and> (\<exists>s. u_allowed_ips u = Some s \<and> firstIPv4InAllowedIPs s = Some a))"
  using assms by (auto simp: holds_address_def insert_user_def bind_eq_Some_conv split: if_splits)

lemma GetSystemConfig_insert: "insert_user u d = Inr d' \<Longrightarrow> GetSystemConfig d' = GetSystemConfig d"
  by (auto simp: GetSystemConfig_def insert_user_def split: if_splits)

text \<open>
  Two users created one after the other never share an address: once a user whose address
  list is the allocated text, alone or with extra prefixes after a comma, is in the table,
  the allocator returns a greater address or fails.
\<close>

theorem NextClientAllowedIP_fresh:
  assumes "sc_config (GetSystemConfig d) = Some w"
    and "parseCIDR (trim (w_client_range w)) = Some (ip, net)"
    and "NextClientAllowedIP d = Inr s"
    and "u_allowed_ips u = Some s \<or> u_allowed_ips u = Some (s @ CHR '','' # extra)"
    and "u_server_id u = ''wireguard''"
    and "insert_user u d = Inr d'"
    and "NextClientAllowedIP d' = Inr s'"
  shows "\<exists>a b. s = show_v4 a @ ''/32'' \<and> s' = show_v4 b @ ''/32'' \<and> a < b"
proof -
  have sys: "sc_config (GetSystemConfig d') = Some w"
    using assms(1,6) by (simp add: GetSystemConfig_insert)
  obtain a where a: "s = show_v4 a @ ''/32''" "\<forall>b. free_host d w net b \<longrightarrow> a \<le> b"
    using NextClientAllowedIP_least [OF assms(1-3)] by blast
  obtain b where b: "s' = show_v4 b @ ''/32''" "free_host d' w net b"
    using NextClientAllowedIP_least [OF sys assms(2,7)] by blast
  have "holds_address d' a"
    unfolding holds_address_insert [OF assms(6)]
    using assms(4,5) a(1) first_ipv4_show [of a] first_ipv4_show_extra [of a extra] by auto
  with b(2) have "b \<noteq> a" by (auto simp: free_host_def)
  moreover have "free_host d w net b"
    using b(2) by (auto simp: free_host_def holds_address_insert [OF assms(6)])
  ultimately have "a < b" using a(2) by fastforce
  with a(1) b(1) show ?thesis by blast
qed

section \<open>Witnesses\<close>

text \<open>A server on \<open>10.8.0.1\<close> whose client range has six hosts, with one client.\<close>

definition ex_conf :: wgconf where
  "ex_conf = \<lparr>w_enabled = True, w_server_host = ''vpn.example.com'', w_server_port = 51820,
     w_server_address = ''10.8.0.1/24'', w_client_range = ''10.8.0.0/29'', w_dns = ''1.1.1.1'',
     w_mtu = 1420, w_keepalive = 25, w_allowed_ips = ''0.0.0.0/0'',
     w_pre_up = [], w_pre_down = [], w_post_up = [], w_post_down = []\<rparr>"

definition ex_server :: vpn_server where
  "ex_server = \<lparr>s_id = ''wireguard'', s_name = ''WireGuard Server'', s_protocol = ''wireguard'',
     s_host = ''vpn.example.com'', s_port = Some 51820, s_config_path = Some ''/data/wg0.conf'',
     s_is_active = True, s_private_key = Some ''priv'', s_public_key = Some ''pub''\<rparr>"

definition ex_user :: "string \<Rightarrow> string \<Rightarrow> string \<Rightarrow> vpn_user" where
  "ex_user i name a = (user_row i name ''wireguard'')\<lparr>u_allowed_ips := Some a\<rparr>"

definition ex_db :: db where
  "ex_db = db_empty\<lparr>sysconf := Some \<lparr>sc_complete = True, sc_config = Some ex_conf\<rparr>,
     servers := [ex_server], users := [ex_user ''u1'' ''alice'' ''10.8.0.2/32'']\<rparr>"

definition ex_db2 :: db where
  "ex_db2 = ex_db\<lparr>users := users ex_db @ [ex_user ''u2'' ''bob'' ''10.8.0.3/32'']\<rparr>"

lemma ex_conf_db: "sc_config (GetSystemConfig ex_db) = Some ex_conf"
  "sc_config (GetSystemConfig ex_db2) = Some ex_conf"
  by (simp_all add: GetSystemConfig_def ex_db_def ex_db2_def)

lemma ex_net: "parseCIDR (trim (w_client_range ex_conf)) = Some (v4_mapped 0x0A080000, Net4 0x0A080000 29)"
  by (simp add: ex_conf_def net_eval)

lemma ex_server_ip: "parseServerIPv4 (w_server_address ex_conf) = Some 0x0A080001"
  by (simp add: ex_conf_def net_eval parseServerIPv4_def)

lemma ex_first_ip:
  "firstIPv4InAllowedIPs ''10.8.0.2/32'' = Some 0x0A080002"
  "firstIPv4InAllowedIPs ''10.8.0.3/32'' = Some 0x0A080003"
  by (simp_all add: firstIPv4InAllowedIPs_def part_ipv4_def net_eval)

lemma ex_hosts: "allHostsIPv4 (Net4 0x0A080000 29) =
    [0x0A080001, 0x0A080002, 0x0A080003, 0x0A080004, 0x0A080005, 0x0A080006]"
  by (simp add: mask4_def allHostsIPv4_def base4_def mask_size_def ones4_def addToIPv4_def
      net_contains4_def upt_rec)

lemma ex_used:
  "used_addresses ex_db = [show_v4 0x0A080002]"
  "used_addresses ex_db2 = [show_v4 0x0A080002, show_v4 0x0A080003]"
  by (simp_all add: used_addresses_def ex_db_def ex_db2_def ex_user_def user_row_def ex_first_ip
      List.map_filter_def db_empty_def)

lemma ex_next:
  "NextClientAllowedIP ex_db = Inr ''10.8.0.3/32''"
  "NextClientAllowedIP ex_db2 = Inr ''10.8.0.4/32''"
proof -
  have "show_v4 0x0A080003 = ''10.8.0.3''" "show_v4 0x0A080004 = ''10.8.0.4''"
    by (simp_all add: show_v4_def octet_def str_eval)
  then show "NextClientAllowedIP ex_db = Inr ''10.8.0.3/32''"
      "NextClientAllowedIP ex_db2 = Inr ''10.8.0.4/32''"
    by (simp_all add: NextClientAllowedIP_def ex_conf_db ex_net ex_server_ip ex_hosts ex_used)
qed

lemma NextClientAllowedIP_sound_witness:
  "\<exists>a. ''10.8.0.3/32'' = show_v4 a @ ''/32'' \<and> free_host ex_db ex_conf (Net4 0x0A080000 29) a
      \<and> (\<forall>b. free_host ex_db ex_conf (Net4 0x0A080000 29) b \<longrightarrow> a \<le> b)"
  by (rule NextClientAllowedIP_sound [OF ex_conf_db(1) ex_net ex_next(1)])

lemma NextClientAllowedIP_complete_witness:
  "small_net (Net4 0x0A080000 29) \<and> (\<exists>a. free_host ex_db ex_conf (Net4 0x0A080000 29) a)"
  using NextClientAllowedIP_complete [OF ex_conf_db(1) ex_net] by (simp add: ex_next)

lemma ex_insert: "insert_user (ex_user ''u2'' ''bob'' ''10.8.0.3/32'') ex_db = Inr ex_db2"
  by (simp add: insert_user_def ex_db_def ex_db2_def ex_user_def user_row_def ex_server_def db_empty_def)

lemma NextClientAllowedIP_fresh_witness:
  "\<exists>a b. ''10.8.0.3/32'' = show_v4 a @ ''/32'' \<and> ''10.8.0.4/32'' = show_v4 b @ ''/32'' \<and> a < b"
  by (rule NextClientAllowedIP_fresh
        [OF ex_conf_db(1) ex_net ex_next(1) disjI1 _ ex_insert ex_next(2)])
     (simp_all add: ex_user_def user_row_def)

end
