(* ===== verification/Wgquick.thy ===== *)
theory Wgquick
  imports Go_Net "HOL-Library.AList"
begin

text \<open>
  The parser of wg-quick configuration files, \<open>internal/wireguard/wgquick_parse.go\<close>: the loop
  over the lines as a fold over a state record, with the peer being read, the user name taken
  from a comment and the section.
\<close>

section \<open>The code\<close>

record wgq_interface =
  qi_private_key :: string
  qi_listen_port :: int
  qi_address :: string
  qi_dns :: string
  qi_mtu :: int
  qi_pre_up :: string
  qi_post_up :: string
  qi_pre_down :: string
  qi_post_down :: string
  qi_other :: "(string \<times> string) list"

record wgq_peer =
  qp_username :: string
  qp_public_key :: string
  qp_preshared_key :: string
  qp_allowed_ips :: string
  qp_endpoint :: string
  qp_other :: "(string \<times> string) list"

record wgq_state =
  st_section :: string
  st_pending :: string
  st_cur :: "wgq_peer option"
  st_iface :: wgq_interface
  st_peers :: "wgq_peer list"

definition iface0 :: wgq_interface where
  "iface0 = \<lparr>qi_private_key = [], qi_listen_port = 0, qi_address = [], qi_dns = [], qi_mtu = 0,
     qi_pre_up = [], qi_post_up = [], qi_pre_down = [], qi_post_down = [], qi_other = []\<rparr>"

definition new_peer :: "string \<Rightarrow> wgq_peer" where
  "new_peer user = \<lparr>qp_username = trim user, qp_public_key = [], qp_preshared_key = [],
     qp_allowed_ips = [], qp_endpoint = [], qp_other = []\<rparr>"

definition parseUserComment :: "string \<Rightarrow> string option" where
  "parseUserComment line =
     (let ln = trim (trim_prefix line ''#'');
          ln = trim (trim_prefix ln '';'') in
      if ln = [] then None
      else if \<not> has_prefix (toLower ln) ''user:'' then None
      else (let u = trim (drop 5 ln) in if u = [] then None else Some u))"

definition parseKV :: "string \<Rightarrow> (string \<times> string) option" where
  "parseKV line =
     (case cutAt (CHR ''='') line of
        None \<Rightarrow> None
      | Some (k, v) \<Rightarrow> if trim k = [] then None else Some (toLower (trim k), trim v))"

definition appendHookLine :: "string \<Rightarrow> string \<Rightarrow> string" where
  "appendHookLine existing next =
     (let n = trim next in
      if n = [] then existing
      else if trim existing = [] then n
      else trim existing @ chr_nl # n)"

definition applyInterfaceKV :: "wgq_interface \<Rightarrow> string \<Rightarrow> string \<Rightarrow> wgq_interface" where
  "applyInterfaceKV i key val =
     (let k = toLower key in
      if k = ''privatekey'' then i\<lparr>qi_private_key := trim val\<rparr>
      else if k = ''listenport'' then
        (case atoi (trim val) of
           Some n \<Rightarrow> if 0 < n \<and> n \<le> 65535 then i\<lparr>qi_listen_port := n\<rparr> else i
         | None \<Rightarrow> i)
      else if k = ''address'' then i\<lparr>qi_address := trim val\<rparr>
      else if k = ''dns'' then i\<lparr>qi_dns := trim val\<rparr>
      else if k = ''mtu'' then
        (case atoi (trim val) of Some n \<Rightarrow> if 0 < n then i\<lparr>qi_mtu := n\<rparr> else i | None \<Rightarrow> i)
      else if k = ''preup'' then i\<lparr>qi_pre_up := appendHookLine (qi_pre_up i) val\<rparr>
      else if k = ''postup'' then i\<lparr>qi_post_up := appendHookLine (qi_post_up i) val\<rparr>
      else if k = ''predown'' then i\<lparr>qi_pre_down := appendHookLine (qi_pre_down i) val\<rparr>
      else if k = ''postdown'' then i\<lparr>qi_post_down := appendHookLine (qi_post_down i) val\<rparr>
      else i\<lparr>qi_other := AList.update key val (qi_other i)\<rparr>)"

definition applyPeerKV :: "wgq_peer \<Rightarrow> string \<Rightarrow> string \<Rightarrow> wgq_peer" where
  "applyPeerKV p key val =
     (let k = toLower key in
      if k = ''publickey'' then p\<lparr>qp_public_key := trim val\<rparr>
      else if k = ''presharedkey'' then p\<lparr>qp_preshared_key := trim val\<rparr>
      else if k = ''allowedips'' then p\<lparr>qp_allowed_ips := trim val\<rparr>
      else if k = ''endpoint'' then p\<lparr>qp_endpoint := trim val\<rparr>
      else p\<lparr>qp_other := AList.update key val (qp_other p)\<rparr>)"

definition flushPeer :: "wgq_state \<Rightarrow> wgq_state" where
  "flushPeer st =
     (case st_cur st of
        None \<Rightarrow> st
      | Some p \<Rightarrow> st\<lparr>st_peers := st_peers st @ [p], st_cur := None\<rparr>)"

definition section_line :: "string \<Rightarrow> wgq_state \<Rightarrow> wgq_state" where
  "section_line line st =
     (let name = toLower (trim (trim_suffix (trim_prefix line ''['') '']''));
          st = flushPeer st in
      if name = ''peer'' then
        st\<lparr>st_cur := Some (new_peer (st_pending st)), st_pending := [], st_section := ''peer''\<rparr>
      else if name = ''interface'' then st\<lparr>st_section := ''interface''\<rparr>
      else st\<lparr>st_section := name\<rparr>)"

definition kv_step :: "string \<Rightarrow> string \<Rightarrow> wgq_state \<Rightarrow> wgq_state" where
  "kv_step key val st =
     (if st_section st = ''interface'' then st\<lparr>st_iface := applyInterfaceKV (st_iface st) key val\<rparr>
      else if st_section st = ''peer'' then
        (case st_cur st of
           None \<Rightarrow> st\<lparr>st_cur := Some (applyPeerKV (new_peer (st_pending st)) key val), st_pending := []\<rparr>
         | Some p \<Rightarrow> st\<lparr>st_cur := Some (applyPeerKV p key val)\<rparr>)
      else st)"

definition parse_line :: "wgq_state \<Rightarrow> string \<Rightarrow> wgq_state" where
  "parse_line st raw =
     (let line = trim raw in
      if line = [] then st
      else if has_prefix line ''#'' \<or> has_prefix line '';'' then
        (case parseUserComment line of Some u \<Rightarrow> st\<lparr>st_pending := u\<rparr> | None \<Rightarrow> st)
      else if has_prefix line ''['' \<and> has_suffix line '']'' then section_line line st
      else (case parseKV line of None \<Rightarrow> st | Some (key, val) \<Rightarrow> kv_step key val st))"

definition parse_state0 :: wgq_state where
  "parse_state0 = \<lparr>st_section = [], st_pending = [], st_cur = None, st_iface = iface0, st_peers = []\<rparr>"

text \<open>The scanner gives up on a line of 1 MiB or more.\<close>

definition max_line :: nat where "max_line = 1048576"

definition ParseWGQuickConfig :: "string \<Rightarrow> (wgq_interface \<times> wgq_peer list) res" where
  "ParseWGQuickConfig text =
     (if list_ex (\<lambda>l. length l \<ge> max_line) (raw_lines text)
      then Inl (ErrIO ''bufio.Scanner: token too long'')
      else
        (let st = flushPeer (foldl parse_line parse_state0 (scan_lines text)) in
         if trim (qi_private_key (st_iface st)) = []
         then Inl (ErrMsg ''wg0.conf missing Interface PrivateKey'')
         else Inr (st_iface st, st_peers st)))"

definition FirstPeerVPNIP :: "string \<Rightarrow> string" where
  "FirstPeerVPNIP allowedIPs =
     (let raw = trim allowedIPs in
      if raw = [] then []
      else
        (let raw = (case cutAt (CHR '','') raw of Some (a, _) \<Rightarrow> trim a | None \<Rightarrow> raw);
             ip = (case cutAt (CHR ''/'') raw of Some (a, _) \<Rightarrow> trim a | None \<Rightarrow> raw) in
         if parseIP ip = None then [] else ip))"

end
