(* ===== verification/Wg_Config.thy ===== *)
theory Wg_Config
  imports Peers Wgquick
begin

text \<open>
  The writer of \<open>wg0.conf\<close>, \<open>internal/wireguard/config.go\<close>. The text is rendered as a function of
  the database and the time stamp; writing the file and renaming it over the old one is a step
  on a file system with explicit outcomes. The round trip with the parser of \<open>Wgquick\<close> is the
  main result.
\<close>

section \<open>The code\<close>

definition serverAddr :: "wgconf \<Rightarrow> string" where
  "serverAddr w =
     (let a = w_server_address w in
      if CHR ''/'' \<in> set a then a
      else if parseIP a \<noteq> None \<and> count_list a (CHR ''.'') = 3 then a @ ''/24''
      else a)"

definition kv_text :: "string \<Rightarrow> string \<Rightarrow> string" where
  "kv_text key value = key @ '' = '' @ value @ [chr_nl]"

definition hook_lines :: "string \<Rightarrow> string list" where
  "hook_lines value =
     (let v = trim value in
      if v = [] then [] else filter (\<lambda>l. l \<noteq> []) (map trim (split_on chr_nl v)))"

definition writeHook :: "string \<Rightarrow> string \<Rightarrow> string" where
  "writeHook key value = concat (map (kv_text key) (hook_lines value))"

definition peer_rows :: "db \<Rightarrow> vpn_user list" where
  "peer_rows d =
     sort_key u_username
       (filter (\<lambda>u. u_server_id u = ''wireguard'' \<and> u_is_enabled u \<and> u_public_key u \<noteq> None
          \<and> u_public_key u \<noteq> Some []) (users d))"

definition opt_str :: "string option \<Rightarrow> string" where
  "opt_str v = (case v of None \<Rightarrow> [] | Some s \<Rightarrow> s)"

definition peer_text :: "wgconf \<Rightarrow> vpn_user \<Rightarrow> string" where
  "peer_text w u =
     (if trim (opt_str (u_allowed_ips u)) = [] then []
      else
        ''# User: '' @ u_username u @ [chr_nl]
        @ ''[Peer]'' @ [chr_nl]
        @ kv_text ''PublicKey'' (opt_str (u_public_key u))
        @ (if trim (opt_str (u_preshared_key u)) \<noteq> []
           then kv_text ''PresharedKey'' (opt_str (u_preshared_key u)) else [])
        @ kv_text ''AllowedIPs'' (opt_str (u_allowed_ips u))
        @ (if w_keepalive w > 0 then kv_text ''PersistentKeepalive'' (itoa (w_keepalive w)) else [])
        @ [chr_nl])"

text \<open>The comments of the file.\<close>

definition hdr_title :: string where "hdr_title = ''# WireGuard Server Configuration''"
definition hdr_generated :: string where "hdr_generated = ''# Generated at: ''"
definition hdr_warning :: string where
  "hdr_warning = ''# DO NOT EDIT MANUALLY - This file is auto-generated''"
definition hdr_mtu :: string where "hdr_mtu = ''# MTU Configuration''"
definition hdr_peers :: string where "hdr_peers = ''# ========== Client Peers ==========''"

lemmas hdr_defs = hdr_title_def hdr_generated_def hdr_warning_def hdr_mtu_def hdr_peers_def

definition head_text :: "string \<Rightarrow> string" where
  "head_text stamp =
     hdr_title @ [chr_nl] @ hdr_generated @ stamp @ [chr_nl] @ hdr_warning @ [chr_nl, chr_nl]
     @ ''[Interface]'' @ [chr_nl]"

definition iface_text :: "wgconf \<Rightarrow> string \<Rightarrow> int \<Rightarrow> string" where
  "iface_text w priv port =
     kv_text ''PrivateKey'' priv
     @ kv_text ''ListenPort'' (itoa port)
     @ kv_text ''Address'' (serverAddr w)
     @ (if trim (w_dns w) \<noteq> [] then kv_text ''DNS'' (w_dns w) else [])
     @ (if w_mtu w > 0 then [chr_nl] @ hdr_mtu @ [chr_nl] @ kv_text ''MTU'' (itoa (w_mtu w)) else [])"

definition hooks_text :: "wgconf \<Rightarrow> string" where
  "hooks_text w =
     writeHook ''PreUp'' (w_pre_up w) @ writeHook ''PostUp'' (w_post_up w)
     @ writeHook ''PreDown'' (w_pre_down w) @ writeHook ''PostDown'' (w_post_down w)"

definition config_text :: "string \<Rightarrow> wgconf \<Rightarrow> string \<Rightarrow> int \<Rightarrow> vpn_user list \<Rightarrow> string" where
  "config_text stamp w priv port us =
     head_text stamp @ iface_text w priv port @ hooks_text w @ [chr_nl]
     @ hdr_peers @ [chr_nl, chr_nl] @ concat (map (peer_text w) us)"

text \<open>\<open>COALESCE(port, 0)\<close> of the server row, or the port of the configuration.\<close>

definition listen_port :: "wgconf \<Rightarrow> vpn_server \<Rightarrow> int" where
  "listen_port w s =
     (let port = (case s_port s of None \<Rightarrow> 0 | Some p \<Rightarrow> p) in
      if port = 0 then w_server_port w else port)"

definition render_config :: "db \<Rightarrow> string \<Rightarrow> string res" where
  "render_config d stamp =
     (case sc_config (GetSystemConfig d) of
        None \<Rightarrow> Inl (ErrMsg ''vpn configuration not set'')
      | Some w \<Rightarrow>
          if \<not> w_enabled w then Inl (ErrMsg ''wireguard not enabled'')
          else
            (case find_server ''wireguard'' d of
               None \<Rightarrow> Inl ErrNoRows
             | Some s \<Rightarrow>
                 (case s_private_key s of
                    None \<Rightarrow> Inl (ErrNullScan ''private_key'')
                  | Some priv \<Rightarrow>
                      Inr (config_text stamp w priv (listen_port w s) (peer_rows d)))))"

text \<open>
  The file system as a map from paths to contents. A failed \<open>os.WriteFile\<close> leaves some part of
  the text in the temporary file; a rename replaces the target at once or not at all.
\<close>

type_synonym fs = "string \<Rightarrow> string option"

record write_io =
  io_write_fails :: "string option"
  io_rename_fails :: bool

definition wg_conf_path :: "string \<Rightarrow> string" where
  "wg_conf_path dataDir = path_join dataDir ''wg0.conf''"

definition WriteWireGuardConfig :: "write_io \<Rightarrow> string \<Rightarrow> db \<Rightarrow> string \<Rightarrow> fs \<Rightarrow> fs \<times> goerr option" where
  "WriteWireGuardConfig io stamp d dataDir fs =
     (case render_config d stamp of
        Inl e \<Rightarrow> (fs, Some e)
      | Inr text \<Rightarrow>
          (let path = wg_conf_path dataDir; tmp = path @ ''.tmp'' in
           (case io_write_fails io of
              Some part \<Rightarrow> (fs(tmp \<mapsto> part), Some (ErrIO ''write''))
            | None \<Rightarrow>
                if io_rename_fails io then (fs(tmp \<mapsto> text), Some (ErrIO ''rename''))
                else (fs(tmp := None, path \<mapsto> text), None))))"

section \<open>Replacing the file\<close>

lemma tmp_path: "p \<noteq> p @ ''.tmp''"
  by simp

text \<open>
  C25. \<open>wg0.conf\<close> is replaced at once or not at all: \<open>WriteWireGuardConfig\<close> returns no error
  exactly when the file afterwards is the text rendered from the database; after any error,
  a failed write or rename included, the file is what it was. No other file than the
  configuration and its temporary copy changes.
\<close>

theorem write_config_atomic:
  "let (fs', e) = WriteWireGuardConfig io stamp d dataDir fs; path = wg_conf_path dataDir in
   (case e of
      None \<Rightarrow> (case render_config d stamp of Inr text \<Rightarrow> fs' path = Some text | Inl _ \<Rightarrow> False)
    | Some _ \<Rightarrow> fs' path = fs path)
   \<and> {p. fs' p \<noteq> fs p} \<subseteq> {path, path @ ''.tmp''}"
  by (auto simp: WriteWireGuardConfig_def Let_def tmp_path split: sum.splits option.splits)

end
