(* ===== verification/Wg_Roundtrip.thy ===== *)
theory Wg_Roundtrip
  imports Wg_Config
begin

text \<open>
  What the parser of \<open>Wgquick\<close> reads from the text that \<open>Wg_Config\<close> writes: the interface and
  the enabled peers of the database. The values must be clean, that is without surrounding
  white space and on one line; a value that is not clean can add lines of its own to the file.
\<close>

definition clean :: "string \<Rightarrow> bool" where
  "clean v \<longleftrightarrow> trimmed v \<and> chr_nl \<notin> set v"

section \<open>The text as lines\<close>

definition kv_line :: "string \<Rightarrow> string \<Rightarrow> string" where
  "kv_line key v = key @ '' = '' @ v"

definition peer_lines :: "wgconf \<Rightarrow> vpn_user \<Rightarrow> string list" where
  "peer_lines w u =
     (if trim (opt_str (u_allowed_ips u)) = [] then []
      else
        [''# User: '' @ u_username u, ''[Peer]'', kv_line ''PublicKey'' (opt_str (u_public_key u))]
        @ (if trim (opt_str (u_preshared_key u)) \<noteq> []
           then [kv_line ''PresharedKey'' (opt_str (u_preshared_key u))] else [])
        @ [kv_line ''AllowedIPs'' (opt_str (u_allowed_ips u))]
        @ (if w_keepalive w > 0 then [kv_line ''PersistentKeepalive'' (itoa (w_keepalive w))] else [])
        @ [[]])"

definition head_lines :: "string \<Rightarrow> string list" where
  "head_lines stamp =
     [hdr_title, hdr_generated @ stamp, hdr_warning, [], ''[Interface]'']"

definition iface_lines :: "wgconf \<Rightarrow> string \<Rightarrow> int \<Rightarrow> string list" where
  "iface_lines w priv port =
     [kv_line ''PrivateKey'' priv, kv_line ''ListenPort'' (itoa port), kv_line ''Address'' (serverAddr w)]
     @ (if trim (w_dns w) \<noteq> [] then [kv_line ''DNS'' (w_dns w)] else [])
     @ (if w_mtu w > 0 then [[], hdr_mtu, kv_line ''MTU'' (itoa (w_mtu w))] else [])"

definition all_hooks :: "wgconf \<Rightarrow> string list" where
  "all_hooks w =
     map (kv_line ''PreUp'') (hook_lines (w_pre_up w)) @ map (kv_line ''PostUp'') (hook_lines (w_post_up w))
   @ map (kv_line ''PreDown'') (hook_lines (w_pre_down w)) @ map (kv_line ''PostDown'') (hook_lines (w_post_down w))"

definition config_lines :: "string \<Rightarrow> wgconf \<Rightarrow> string \<Rightarrow> int \<Rightarrow> vpn_user list \<Rightarrow> string list" where
  "config_lines stamp w priv port us =
     head_lines stamp @ iface_lines w priv port @ all_hooks w
     @ [[], hdr_peers, []] @ concat (map (peer_lines w) us)"

lemma kv_text_line: "kv_text k v = kv_line k v @ [chr_nl]"
  by (simp add: kv_text_def kv_line_def)

lemma writeHook_lines: "writeHook k v = unlines (map (kv_line k) (hook_lines v))"
  by (simp add: writeHook_def kv_text_line [abs_def] unlines_def comp_def)

lemma peer_text_lines: "peer_text w u = unlines (peer_lines w u)"
  by (simp add: peer_text_def peer_lines_def kv_text_line)

lemma concat_peer_text: "concat (map (peer_text w) us) = unlines (concat (map (peer_lines w) us))"
  by (induction us) (simp_all add: peer_text_lines)

lemma head_text_lines: "head_text stamp = unlines (head_lines stamp)"
  by (simp add: head_text_def head_lines_def)

lemma iface_text_lines: "iface_text w priv port = unlines (iface_lines w priv port)"
  by (cases "trim (w_dns w) = []"; cases "w_mtu w > 0")
     (simp_all add: iface_text_def iface_lines_def kv_text_line)

lemma hooks_text_lines: "hooks_text w = unlines (all_hooks w)"
  by (simp add: hooks_text_def all_hooks_def writeHook_lines)

lemma config_text_lines: "config_text stamp w priv port us = unlines (config_lines stamp w priv port us)"
  by (simp add: config_text_def config_lines_def head_text_lines iface_text_lines hooks_text_lines
      concat_peer_text)

section \<open>One line\<close>

definition word_key :: "string \<Rightarrow> bool" where
  "word_key k \<longleftrightarrow> k \<noteq> [] \<and> (\<forall>c \<in> set k. plain c \<and> c \<notin> set ''=#;['')"

lemma ascii_blank: "ascii (CHR '' '')" "ascii_space (CHR '' '')" "ascii (CHR ''='')" "ascii chr_nl"
  by (simp_all add: ascii_def ascii_space_def)

lemma trimmed_key: "word_key k \<Longrightarrow> trimmed k"
  by (intro trimmed_plain_ends) (simp_all add: word_key_def)

lemma parse_kv_line:
  assumes "word_key k" and "clean v"
  shows "parse_line st (kv_line k v) = kv_step (toLower k) v st"
proof -
  obtain x k' where k: "k = x # k'" using assms(1) by (cases k) (auto simp: word_key_def)
  have x: "plain x" "x \<notin> set ''#;[''" and eq: "CHR ''='' \<notin> set k"
    using assms(1) by (auto simp: word_key_def k)
  have kt: "trim (k @ '' '') = k"
    using trim_snoc_blank [of "CHR '' ''" k] trimmed_key [OF assms(1)] by (simp add: ascii_blank k)
  have vt: "trim (CHR '' '' # v) = v"
    using assms(2) by (simp add: trim_blank_Cons ascii_blank clean_def trim_trimmed)
  have line: "\<exists>v'. trim (kv_line k v) = k @ '' ='' @ v' \<and> trim v' = v"
  proof (cases "v = []")
    case True
    have "trimmed (k @ '' ='')"
      using trimmed_plain_plain [of x "CHR ''=''" "k' @ '' ''"] x by (simp add: k plain_def ascii_space_def)
    then have "trim ((k @ '' ='') @ '' '') = k @ '' =''"
      by (intro trim_snoc_blank) (simp_all add: ascii_blank)
    then show ?thesis using True by (simp add: kv_line_def)
  next
    case False
    then have "trimmed (kv_line k v)"
      using trimmed_plain_append [of x v "CHR '' ''" "k' @ '' =''"] x assms(2)
      by (simp add: kv_line_def k clean_def ascii_blank)
    then show ?thesis using vt by (simp add: trim_trimmed kv_line_def)
  qed
  then obtain v' where v': "trim (kv_line k v) = k @ '' ='' @ v'" "trim v' = v" by blast
  have "cutAt (CHR ''='') (k @ '' ='' @ v') = Some (k @ '' '', v')"
    using cutAt_append [of "CHR ''=''" "k @ '' ''" v'] eq by simp
  then have "parseKV (trim (kv_line k v)) = Some (toLower k, v)"
    using kt v' by (simp add: parseKV_def k)
  moreover have "trim (kv_line k v) \<noteq> []" "\<not> has_prefix (trim (kv_line k v)) ''#''"
    "\<not> has_prefix (trim (kv_line k v)) '';''" "\<not> has_prefix (trim (kv_line k v)) ''[''"
    using x by (simp_all only: v'(1)) (simp_all add: k has_prefix_def)
  ultimately show ?thesis by (simp add: parse_line_def Let_def)
qed

lemma parse_blank [simp]: "parse_line st [] = st"
  by (simp add: parse_line_def)

lemma parse_comment:
  assumes "trimmed (CHR ''#'' # s)" and "parseUserComment (CHR ''#'' # s) = None"
  shows "parse_line st (CHR ''#'' # s) = st"
  using assms by (simp add: parse_line_def trim_trimmed has_prefix_def)

lemma user_comment:
  assumes "clean u" and "u \<noteq> []"
  shows "parse_line st (''# User: '' @ u) = st\<lparr>st_pending := u\<rparr>"
proof -
  have plain: "plain (CHR ''#'')" "plain (CHR ''U'')" by (simp_all add: plain_def ascii_space_def)
  have t: "trimmed (''# User: '' @ u)" "trimmed (''User: '' @ u)"
    using trimmed_plain_append [of "CHR ''#''" u "CHR '' ''" "'' User:''"]
      trimmed_plain_append [of "CHR ''U''" u "CHR '' ''" "''ser:''"] assms plain
    by (simp_all add: clean_def ascii_blank)
  have "trim ('' User: '' @ u) = ''User: '' @ u" "trim ('' '' @ u) = u"
    using t(2) assms by (simp_all add: trim_blank_Cons ascii_blank trim_trimmed clean_def)
  then have "parseUserComment (''# User: '' @ u) = Some u"
    using t(2) assms(2)
    by (simp add: parseUserComment_def trim_prefix_def has_prefix_def trim_trimmed toLower_def lower_chr_def)
  then show ?thesis using t(1) by (simp add: parse_line_def trim_trimmed has_prefix_def)
qed

lemma section_peer: "parse_line st ''[Peer]'' =
    (flushPeer st)\<lparr>st_cur := Some (new_peer (st_pending (flushPeer st))), st_pending := [], st_section := ''peer''\<rparr>"
  by (simp add: parse_line_def section_line_def Let_def str_eval)

lemma section_interface: "parse_line st ''[Interface]'' = (flushPeer st)\<lparr>st_section := ''interface''\<rparr>"
  by (simp add: parse_line_def section_line_def Let_def str_eval)

section \<open>One peer\<close>

lemma word_keys [simp]:
  "word_key ''PublicKey''" "word_key ''PresharedKey''" "word_key ''AllowedIPs''"
  "word_key ''PersistentKeepalive''" "word_key ''PrivateKey''" "word_key ''ListenPort''"
  "word_key ''Address''" "word_key ''DNS''" "word_key ''MTU''" "word_key ''PreUp''"
  "word_key ''PostUp''" "word_key ''PreDown''" "word_key ''PostDown''"
  by (simp_all add: word_key_def plain_def ascii_space_def)

lemma lower_keys:
  "toLower ''PublicKey'' = ''publickey''" "toLower ''PresharedKey'' = ''presharedkey''"
  "toLower ''AllowedIPs'' = ''allowedips''" "toLower ''PersistentKeepalive'' = ''persistentkeepalive''"
  "toLower ''PrivateKey'' = ''privatekey''" "toLower ''ListenPort'' = ''listenport''"
  "toLower ''Address'' = ''address''" "toLower ''DNS'' = ''dns''" "toLower ''MTU'' = ''mtu''"
  "toLower ''PreUp'' = ''preup''" "toLower ''PostUp'' = ''postup''" "toLower ''PreDown'' = ''predown''"
  "toLower ''PostDown'' = ''postdown''"
  by (simp_all add: toLower_def lower_chr_def)

lemma lower_lower:
  "toLower ''publickey'' = ''publickey''" "toLower ''presharedkey'' = ''presharedkey''"
  "toLower ''allowedips'' = ''allowedips''" "toLower ''persistentkeepalive'' = ''persistentkeepalive''"
  "toLower ''privatekey'' = ''privatekey''" "toLower ''listenport'' = ''listenport''"
  "toLower ''address'' = ''address''" "toLower ''dns'' = ''dns''" "toLower ''mtu'' = ''mtu''"
  "toLower ''preup'' = ''preup''" "toLower ''postup'' = ''postup''" "toLower ''predown'' = ''predown''"
  "toLower ''postdown'' = ''postdown''"
  by (simp_all add: toLower_def lower_chr_def)

lemma clean_Nil [simp]: "clean []"
  by (simp add: clean_def)

lemma clean_itoa [simp]: "clean (itoa i)"
proof -
  have "plain c" if "c \<in> set (itoa i)" for c using that by (rule itoa_plain)
  moreover from this have "chr_nl \<notin> set (itoa i)" using plain_blanks(2) by blast
  ultimately show ?thesis by (auto simp: clean_def intro!: trimmed_plain_ends)
qed

lemma trim_clean: "clean v \<Longrightarrow> trim v = v"
  by (simp add: clean_def trim_trimmed)

text \<open>The peer the parser builds from the row of a user.\<close>

definition parsed_peer :: "wgconf \<Rightarrow> vpn_user \<Rightarrow> wgq_peer" where
  "parsed_peer w u =
     \<lparr>qp_username = u_username u, qp_public_key = opt_str (u_public_key u),
      qp_preshared_key = (if trim (opt_str (u_preshared_key u)) \<noteq> [] then opt_str (u_preshared_key u) else []),
      qp_allowed_ips = opt_str (u_allowed_ips u), qp_endpoint = [],
      qp_other = (if w_keepalive w > 0 then [(''persistentkeepalive'', itoa (w_keepalive w))] else [])\<rparr>"

definition clean_user :: "vpn_user \<Rightarrow> bool" where
  "clean_user u \<longleftrightarrow>
     clean (u_username u) \<and> u_username u \<noteq> [] \<and> clean (opt_str (u_public_key u))
   \<and> clean (opt_str (u_preshared_key u)) \<and> clean (opt_str (u_allowed_ips u))"

definition has_allowed :: "vpn_user \<Rightarrow> bool" where
  "has_allowed u \<longleftrightarrow> trim (opt_str (u_allowed_ips u)) \<noteq> []"

lemma kv_step_peer:
  "st_section st = ''peer'' \<Longrightarrow> st_cur st = Some p \<Longrightarrow>
   kv_step k v st = st\<lparr>st_cur := Some (applyPeerKV p k v)\<rparr>"
  by (simp add: kv_step_def)

lemmas peer_kv = parse_kv_line lower_keys lower_lower kv_step_peer applyPeerKV_def Let_def trim_clean

lemma flushPeer_pending: "flushPeer (st\<lparr>st_pending := u\<rparr>) = (flushPeer st)\<lparr>st_pending := u\<rparr>"
  by (simp add: flushPeer_def split: option.splits)

lemma parse_peer_lines:
  assumes "clean_user u" and "has_allowed u"
  shows "foldl parse_line st (peer_lines w u)
    = (flushPeer st)\<lparr>st_cur := Some (parsed_peer w u), st_pending := [], st_section := ''peer''\<rparr>"
proof -
  let ?p = "opt_str (u_preshared_key u)"
  have c: "clean (u_username u)" "u_username u \<noteq> []" "clean (opt_str (u_public_key u))" "clean ?p"
    "clean (opt_str (u_allowed_ips u))" using assms(1) by (simp_all add: clean_user_def)
  define st1 where "st1 = (flushPeer st)\<lparr>st_cur := Some (new_peer (u_username u)), st_pending := [], st_section := ''peer''\<rparr>"
  have st1: "parse_line (parse_line st (''# User: '' @ u_username u)) ''[Peer]'' = st1"
    by (simp only: user_comment [OF c(1,2)] section_peer flushPeer_pending st1_def) simp
  have sec: "st_section st1 = ''peer''" "st_cur st1 = Some (new_peer (u_username u))"
    by (simp_all add: st1_def)
  define tl where "tl = kv_line ''PublicKey'' (opt_str (u_public_key u))
      # (if trim ?p \<noteq> [] then [kv_line ''PresharedKey'' ?p] else [])
      @ [kv_line ''AllowedIPs'' (opt_str (u_allowed_ips u))]
      @ (if w_keepalive w > 0 then [kv_line ''PersistentKeepalive'' (itoa (w_keepalive w))] else [])
      @ [[]]"
  have "peer_lines w u = (''# User: '' @ u_username u) # ''[Peer]'' # tl"
    using assms(2) by (simp add: peer_lines_def tl_def has_allowed_def)
  then have "foldl parse_line st (peer_lines w u) = foldl parse_line st1 tl"
    by (simp only: foldl_Cons st1)
  also have "\<dots> = st1\<lparr>st_cur := Some (parsed_peer w u)\<rparr>"
    using c sec by (simp add: tl_def peer_kv parsed_peer_def new_peer_def)
  finally show ?thesis by (simp add: st1_def)
qed

section \<open>All peers\<close>

lemma flushPeer_iface [simp]: "st_iface (flushPeer st) = st_iface st"
  by (simp add: flushPeer_def split: option.splits)

lemma peers_flush_cur:
  "st_peers (flushPeer ((flushPeer st)\<lparr>st_cur := Some p, st_pending := x, st_section := y\<rparr>))
     = st_peers (flushPeer st) @ [p]"
  by (simp add: flushPeer_def)

lemma parse_peers:
  "\<forall>u \<in> set us. clean_user u \<Longrightarrow>
   st_peers (flushPeer (foldl parse_line st (concat (map (peer_lines w) us))))
     = st_peers (flushPeer st) @ map (parsed_peer w) (filter has_allowed us)
   \<and> st_iface (foldl parse_line st (concat (map (peer_lines w) us))) = st_iface st"
proof (induction us arbitrary: st)
  case Nil
  then show ?case by simp
next
  case (Cons u us)
  show ?case
  proof (cases "has_allowed u")
    case True
    define st1 where "st1 = foldl parse_line st (peer_lines w u)"
    have "st1 = (flushPeer st)\<lparr>st_cur := Some (parsed_peer w u), st_pending := [], st_section := ''peer''\<rparr>"
      unfolding st1_def using Cons.prems True by (intro parse_peer_lines) auto
    then have "st_peers (flushPeer st1) = st_peers (flushPeer st) @ [parsed_peer w u]"
        "st_iface st1 = st_iface st"
      by (simp_all add: peers_flush_cur)
    moreover have "foldl parse_line st (concat (map (peer_lines w) (u # us)))
        = foldl parse_line st1 (concat (map (peer_lines w) us))"
      by (simp add: st1_def)
    ultimately show ?thesis using Cons.IH [of st1] Cons.prems True by simp
  next
    case False
    then have "peer_lines w u = []" by (simp add: peer_lines_def has_allowed_def)
    with False Cons show ?thesis by simp
  qed
qed

section \<open>The interface\<close>

lemma kv_step_iface:
  "st_section st = ''interface'' \<Longrightarrow>
   kv_step k v st = st\<lparr>st_iface := applyInterfaceKV (st_iface st) k v\<rparr>"
  by (simp add: kv_step_def)

lemma hook_lines_clean:
  "l \<in> set (hook_lines v) \<Longrightarrow> clean l \<and> l \<noteq> []"
proof -
  assume "l \<in> set (hook_lines v)"
  then obtain x where x: "x \<in> set (split_on chr_nl (trim v))" "l = trim x" "l \<noteq> []"
    by (auto simp: hook_lines_def Let_def split: if_splits)
  then have "chr_nl \<notin> set x" by (auto dest: split_on_no_sep)
  then show ?thesis using x set_trim [of x] by (auto simp: clean_def trimmed_trim)
qed

text \<open>The value a hook has after parsing: its non-empty lines, trimmed.\<close>

definition norm_hook :: "string \<Rightarrow> string" where
  "norm_hook v = join [chr_nl] (hook_lines v)"

lemma trimmed_join_lines:
  "ls \<noteq> [] \<Longrightarrow> \<forall>l \<in> set ls. trimmed l \<and> l \<noteq> [] \<Longrightarrow> trimmed (join [chr_nl] ls) \<and> join [chr_nl] ls \<noteq> []"
  by (induction ls rule: induct_list012) (auto intro!: trimmed_join simp: ascii_blank)

lemma appendHookLine_join:
  assumes "\<forall>l \<in> set (ls @ [n]). clean l \<and> l \<noteq> []"
  shows "appendHookLine (join [chr_nl] ls) n = join [chr_nl] (ls @ [n])"
proof (cases "ls = []")
  case True
  with assms show ?thesis by (simp add: appendHookLine_def trim_clean)
next
  case False
  then have t: "trimmed (join [chr_nl] ls)" "join [chr_nl] ls \<noteq> []"
    using assms trimmed_join_lines [of ls] by (auto simp: clean_def)
  have "join [chr_nl] (ls @ [n]) = join [chr_nl] ls @ chr_nl # n" using False
    by (induction ls rule: induct_list012) (auto simp: join_Cons)
  with t assms show ?thesis by (simp add: appendHookLine_def trim_clean trim_trimmed)
qed

lemma parse_hook_lines:
  assumes "word_key k" and "st_section st = ''interface''"
    and upd: "\<And>i l. applyInterfaceKV i (toLower k) l = set_f (appendHookLine (get_f i) l) i"
    and laws: "\<And>i x. get_f (set_f x i) = x" "\<And>i x y. set_f x (set_f y i) = set_f x i"
      "\<And>i. set_f (get_f i) i = i"
    and "get_f (st_iface st) = []"
  shows "foldl parse_line st (map (kv_line k) (hook_lines v))
    = st\<lparr>st_iface := set_f (norm_hook v) (st_iface st)\<rparr>"
proof -
  have "\<forall>l \<in> set ls. clean l \<and> l \<noteq> [] \<Longrightarrow> foldl parse_line st (map (kv_line k) ls)
      = st\<lparr>st_iface := set_f (join [chr_nl] ls) (st_iface st)\<rparr>" for ls
  proof (induction ls rule: rev_induct)
    case Nil
    then show ?case using assms(7) laws(3) [of "st_iface st"] by simp
  next
    case (snoc n ls)
    then show ?case
      using assms(1,2) appendHookLine_join [of ls n]
      by (simp add: parse_kv_line kv_step_iface upd laws)
  qed
  then show ?thesis using hook_lines_clean [of _ v] by (simp add: norm_hook_def)
qed

lemma parse_hooks:
  assumes "st_section st = ''interface''"
    and "qi_pre_up (st_iface st) = []" "qi_post_up (st_iface st) = []"
    and "qi_pre_down (st_iface st) = []" "qi_post_down (st_iface st) = []"
  shows "foldl parse_line st (all_hooks w)
    = st\<lparr>st_iface := (st_iface st)\<lparr>qi_pre_up := norm_hook (w_pre_up w), qi_post_up := norm_hook (w_post_up w),
        qi_pre_down := norm_hook (w_pre_down w), qi_post_down := norm_hook (w_post_down w)\<rparr>\<rparr>"
proof -
  note defs = applyInterfaceKV_def Let_def lower_keys lower_lower
  have a: "foldl parse_line s (map (kv_line ''PreUp'') (hook_lines v))
      = s\<lparr>st_iface := (st_iface s)\<lparr>qi_pre_up := norm_hook v\<rparr>\<rparr>"
    if "st_section s = ''interface''" "qi_pre_up (st_iface s) = []" for s v
    using that by (intro parse_hook_lines [where get_f = qi_pre_up]) (simp_all add: defs)
  have b: "foldl parse_line s (map (kv_line ''PostUp'') (hook_lines v))
      = s\<lparr>st_iface := (st_iface s)\<lparr>qi_post_up := norm_hook v\<rparr>\<rparr>"
    if "st_section s = ''interface''" "qi_post_up (st_iface s) = []" for s v
    using that by (intro parse_hook_lines [where get_f = qi_post_up]) (simp_all add: defs)
  have c: "foldl parse_line s (map (kv_line ''PreDown'') (hook_lines v))
      = s\<lparr>st_iface := (st_iface s)\<lparr>qi_pre_down := norm_hook v\<rparr>\<rparr>"
    if "st_section s = ''interface''" "qi_pre_down (st_iface s) = []" for s v
    using that by (intro parse_hook_lines [where get_f = qi_pre_down]) (simp_all add: defs)
  have d: "foldl parse_line s (map (kv_line ''PostDown'') (hook_lines v))
      = s\<lparr>st_iface := (st_iface s)\<lparr>qi_post_down := norm_hook v\<rparr>\<rparr>"
    if "st_section s = ''interface''" "qi_post_down (st_iface s) = []" for s v
    using that by (intro parse_hook_lines [where get_f = qi_post_down]) (simp_all add: defs)
  show ?thesis using assms by (simp add: all_hooks_def a b c d)
qed

section \<open>The whole file\<close>

definition line_ok :: "string \<Rightarrow> bool" where
  "line_ok l \<longleftrightarrow> chr_nl \<notin> set l \<and> (l = [] \<or> last l \<noteq> CHR 0x0D)"

lemma trimmed_last: "trimmed v \<Longrightarrow> v \<noteq> [] \<Longrightarrow> last v \<noteq> CHR 0x0D"
proof
  assume v: "trimmed v" "v \<noteq> []" and l: "last v = CHR 0x0D"
  then obtain r where "rev v = CHR 0x0D # r" by (metis hd_rev list.exhaust_sel rev_is_Nil_conv)
  moreover have "trail_space (CHR 0x0D # r) = 1"
    by (induction r rule: induct_list012) (simp_all add: ascii_space_def)
  ultimately show False using v(1) by (simp add: trimmed_def)
qed

lemma line_ok_append: "clean v \<Longrightarrow> chr_nl \<notin> set p \<Longrightarrow> p \<noteq> [] \<Longrightarrow> last p \<noteq> CHR 0x0D \<Longrightarrow> line_ok (p @ v)"
  by (auto simp: line_ok_def clean_def last_append dest: trimmed_last)

lemma word_key_nl: "word_key k \<Longrightarrow> chr_nl \<notin> set k"
  by (auto simp: word_key_def plain_def ascii_space_def)

lemma line_ok_kv: "word_key k \<Longrightarrow> clean v \<Longrightarrow> line_ok (kv_line k v)"
  using line_ok_append [of v "k @ '' = ''"] word_key_nl [of k] by (simp add: kv_line_def)

lemma line_ok_Nil [simp]: "line_ok []"
  by (simp add: line_ok_def)

lemma scan_lines_unlines: "\<forall>l \<in> set ls. line_ok l \<Longrightarrow> scan_lines (unlines ls) = ls"
  by (simp add: scan_lines_def raw_lines_unlines line_ok_def) (auto simp: drop_cr_def intro!: map_idI)

definition clean_conf :: "string \<Rightarrow> wgconf \<Rightarrow> string \<Rightarrow> vpn_user list \<Rightarrow> bool" where
  "clean_conf stamp w priv us \<longleftrightarrow>
     clean stamp \<and> stamp \<noteq> [] \<and> clean priv \<and> priv \<noteq> [] \<and> clean (serverAddr w)
   \<and> clean (w_dns w) \<and> int64_ok (w_mtu w) \<and> (\<forall>u \<in> set us. clean_user u)"

lemma config_lines_ok:
  assumes "clean_conf stamp w priv us"
  shows "\<forall>l \<in> set (config_lines stamp w priv port us). line_ok l"
proof -
  have hdr: "line_ok hdr_title" "line_ok hdr_warning" "line_ok hdr_mtu" "line_ok hdr_peers" "line_ok ''[Interface]''"
    "line_ok ''[Peer]''"
    by (simp_all add: line_ok_def hdr_defs)
  have gen: "line_ok (hdr_generated @ stamp)"
    using assms by (intro line_ok_append) (simp_all add: clean_conf_def hdr_defs)
  have user: "clean u \<Longrightarrow> line_ok (''# User: '' @ u)" for u by (rule line_ok_append) simp_all
  have head: "\<forall>l \<in> set (head_lines stamp). line_ok l" by (simp add: head_lines_def hdr gen)
  have iface: "\<forall>l \<in> set (iface_lines w priv port). line_ok l"
    using assms by (auto simp: iface_lines_def hdr line_ok_kv clean_conf_def)
  have hooks: "\<forall>l \<in> set (all_hooks w). line_ok l"
    by (auto simp: all_hooks_def intro!: line_ok_kv dest: hook_lines_clean)
  have peers: "\<forall>u \<in> set us. \<forall>l \<in> set (peer_lines w u). line_ok l"
    using assms user hdr by (simp add: peer_lines_def clean_conf_def clean_user_def line_ok_kv del: append_Cons)
  show ?thesis using head iface hooks peers hdr by (auto simp: config_lines_def)
qed

definition parsed_iface :: "wgconf \<Rightarrow> string \<Rightarrow> int \<Rightarrow> wgq_interface" where
  "parsed_iface w priv port =
     \<lparr>qi_private_key = priv, qi_listen_port = (if 0 < port \<and> port \<le> 65535 then port else 0),
      qi_address = serverAddr w, qi_dns = w_dns w, qi_mtu = (if w_mtu w > 0 then w_mtu w else 0),
      qi_pre_up = norm_hook (w_pre_up w), qi_post_up = norm_hook (w_post_up w),
      qi_pre_down = norm_hook (w_pre_down w), qi_post_down = norm_hook (w_post_down w), qi_other = []\<rparr>"

lemma parse_hash_comment:
  assumes "plain c" and "lower_chr c \<noteq> CHR ''u''" and "c \<noteq> CHR '';''" and "trimmed (CHR ''#'' # CHR '' '' # c # s)"
    and "trimmed (c # s)"
  shows "parse_line st (CHR ''#'' # CHR '' '' # c # s) = st"
proof (rule parse_comment)
  have "trim (CHR '' '' # c # s) = c # s" using assms(5) by (simp add: trim_blank_Cons ascii_blank trim_trimmed)
  then show "parseUserComment (CHR ''#'' # CHR '' '' # c # s) = None"
    using assms by (simp add: parseUserComment_def trim_prefix_def has_prefix_def trim_trimmed toLower_def)
qed (rule assms(4))

lemma plain_word: "\<forall>c \<in> set s. plain c \<or> c = CHR '' '' \<Longrightarrow> s \<noteq> [] \<Longrightarrow> hd s \<noteq> CHR '' '' \<Longrightarrow> last s \<noteq> CHR '' '' \<Longrightarrow> trimmed s"
  by (rule trimmed_plain_ends) auto

lemma parse_head:
  assumes "clean stamp" and "stamp \<noteq> []"
  shows "foldl parse_line parse_state0 (head_lines stamp) = parse_state0\<lparr>st_section := ''interface''\<rparr>"
proof -
  have title: "parse_line st hdr_title = st" for st
    unfolding hdr_title_def
    by (rule parse_hash_comment; (rule plain_word)?) (simp_all add: plain_def ascii_space_def lower_chr_def)
  have warn: "parse_line st hdr_warning = st" for st
    unfolding hdr_warning_def
    by (rule parse_hash_comment; (rule plain_word)?) (simp_all add: plain_def ascii_space_def lower_chr_def)
  have t: "trimmed (x # (a @ CHR '' '' # stamp))" if "plain x" for x a
    using that assms by (intro trimmed_plain_append) (simp_all add: clean_def ascii_blank)
  have gen: "parse_line st (hdr_generated @ stamp) = st" for st
    unfolding hdr_generated_def append_Cons append_Nil
  proof (rule parse_hash_comment)
  qed (use t [of "CHR ''#''" "'' Generated at:''"] t [of "CHR ''G''" "''enerated at:''"] in
      \<open>simp_all add: plain_def ascii_space_def lower_chr_def\<close>)
  show ?thesis
    by (simp only: head_lines_def foldl_Cons foldl_Nil title warn gen parse_blank section_interface)
       (simp add: flushPeer_def parse_state0_def)
qed

lemma parse_iface_lines:
  assumes "clean_conf stamp w priv us" and "int64_ok port"
  shows "foldl parse_line (parse_state0\<lparr>st_section := ''interface''\<rparr>) (iface_lines w priv port @ all_hooks w)
    = parse_state0\<lparr>st_section := ''interface'', st_iface := parsed_iface w priv port\<rparr>"
proof -
  have mtu: "parse_line st hdr_mtu = st" for st
    unfolding hdr_mtu_def
    by (rule parse_hash_comment; (rule plain_word)?) (simp_all add: plain_def ascii_space_def lower_chr_def)
  have c: "clean priv" "clean (serverAddr w)" "clean (w_dns w)" "int64_ok (w_mtu w)"
    using assms(1) by (simp_all add: clean_conf_def)
  note defs = applyInterfaceKV_def Let_def lower_keys lower_lower parse_kv_line kv_step_iface trim_clean atoi_itoa
  have "foldl parse_line (parse_state0\<lparr>st_section := ''interface''\<rparr>) (iface_lines w priv port)
      = parse_state0\<lparr>st_section := ''interface'', st_iface := iface0\<lparr>qi_private_key := priv,
          qi_listen_port := (if 0 < port \<and> port \<le> 65535 then port else 0), qi_address := serverAddr w,
          qi_dns := w_dns w, qi_mtu := (if w_mtu w > 0 then w_mtu w else 0)\<rparr>\<rparr>"
    using c assms(2)
    by (simp add: iface_lines_def mtu defs parse_state0_def) (simp add: iface0_def)
  then have "foldl parse_line (parse_state0\<lparr>st_section := ''interface''\<rparr>) (iface_lines w priv port @ all_hooks w)
      = foldl parse_line (parse_state0\<lparr>st_section := ''interface'', st_iface := iface0\<lparr>qi_private_key := priv,
          qi_listen_port := (if 0 < port \<and> port \<le> 65535 then port else 0), qi_address := serverAddr w,
          qi_dns := w_dns w, qi_mtu := (if w_mtu w > 0 then w_mtu w else 0)\<rparr>\<rparr>) (all_hooks w)"
    by (simp only: foldl_append)
  then show ?thesis
    by (subst (asm) parse_hooks) (simp_all add: iface0_def parsed_iface_def parse_state0_def)
qed

lemma parse_config_text:
  assumes "clean_conf stamp w priv us" and "int64_ok port"
    and "list_all (\<lambda>l. length l < max_line) (raw_lines (config_text stamp w priv port us))"
  shows "ParseWGQuickConfig (config_text stamp w priv port us)
    = Inr (parsed_iface w priv port, map (parsed_peer w) (filter has_allowed us))"
proof -
  let ?t = "config_text stamp w priv port us"
  have c: "clean stamp" "stamp \<noteq> []" "clean priv" "priv \<noteq> []" "\<forall>u \<in> set us. clean_user u"
    using assms(1) by (simp_all add: clean_conf_def)
  have peers_hdr: "parse_line st hdr_peers = st" for st
    unfolding hdr_peers_def
    by (rule parse_hash_comment; (rule plain_word)?) (simp_all add: plain_def ascii_space_def lower_chr_def)
  define st where "st = parse_state0\<lparr>st_section := ''interface'', st_iface := parsed_iface w priv port\<rparr>"
  have "scan_lines ?t = config_lines stamp w priv port us"
    unfolding config_text_lines using config_lines_ok [OF assms(1)] by (rule scan_lines_unlines)
  then have fold: "foldl parse_line parse_state0 (scan_lines ?t)
      = foldl parse_line st (concat (map (peer_lines w) us))"
    using parse_iface_lines [OF assms(1,2)]
    by (simp only: config_lines_def foldl_append foldl_Cons foldl_Nil parse_head [OF c(1,2)]
        peers_hdr parse_blank st_def)
  have st: "st_peers (flushPeer st) = []" "st_iface st = parsed_iface w priv port"
    by (simp_all add: st_def parse_state0_def flushPeer_def)
  have "\<not> list_ex (\<lambda>l. length l \<ge> max_line) (raw_lines ?t)"
    using assms(3) by (auto simp: list_all_iff list_ex_iff)
  moreover have "trim (qi_private_key (parsed_iface w priv port)) \<noteq> []"
    using c by (simp add: parsed_iface_def trim_clean)
  ultimately show ?thesis
    using parse_peers [OF c(5), of st w] by (simp add: ParseWGQuickConfig_def Let_def fold st)
qed

text \<open>
  C3. The configuration file round-trips: when the values in the database are clean, parsing
  the text \<open>render_config\<close> writes gives back the interface (key, listen port, address, DNS, MTU
  and hooks) and, in the order of their names, one peer for each enabled user of the server
  with a public key and an address list, with its name, key, pre-shared key and addresses,
  and no other peer.
\<close>

theorem config_roundtrip:
  assumes "render_config d stamp = Inr text"
    and "sc_config (GetSystemConfig d) = Some w" and "find_server ''wireguard'' d = Some s"
    and "s_private_key s = Some priv"
    and "clean_conf stamp w priv (peer_rows d)" and "int64_ok (listen_port w s)"
    and "list_all (\<lambda>l. length l < max_line) (raw_lines text)"
  shows "ParseWGQuickConfig text
      = Inr (parsed_iface w priv (listen_port w s), map (parsed_peer w) (filter has_allowed (peer_rows d)))
    \<and> set (filter has_allowed (peer_rows d))
      = {u \<in> set (users d). u_server_id u = ''wireguard'' \<and> u_is_enabled u
          \<and> opt_str (u_public_key u) \<noteq> [] \<and> has_allowed u}"
proof -
  have "text = config_text stamp w priv (listen_port w s) (peer_rows d)"
    using assms(1-4) by (simp add: render_config_def split: if_splits)
  moreover have "u_public_key u \<noteq> None \<and> u_public_key u \<noteq> Some [] \<longleftrightarrow> opt_str (u_public_key u) \<noteq> []" for u
    by (auto simp: opt_str_def split: option.splits)
  ultimately show ?thesis
    using parse_config_text [OF assms(5,6)] assms(7) by (auto simp: peer_rows_def)
qed

section \<open>Values that are not clean\<close>

text \<open>A user whose stored name continues on further lines.\<close>

definition evil_user :: vpn_user where
  "evil_user = (user_row ''u1'' (''bob'' @ [chr_nl] @ ''[Interface]'' @ [chr_nl] @ ''PostUp = id'') ''wireguard'')
     \<lparr>u_public_key := Some ''K'', u_allowed_ips := Some ''10.8.0.2/32''\<rparr>"

definition plain_conf :: wgconf where
  "plain_conf = ex_conf\<lparr>w_dns := [], w_mtu := 0, w_keepalive := 0\<rparr>"

definition evil_db :: db where
  "evil_db = db_empty\<lparr>sysconf := Some \<lparr>sc_complete = True, sc_config = Some plain_conf\<rparr>,
     servers := [ex_server], users := [evil_user]\<rparr>"

definition evil_lines :: "string list" where
  "evil_lines =
     [''# User: bob'', ''[Interface]'', kv_line ''PostUp'' ''id'', ''[Peer]'', kv_line ''PublicKey'' ''K'',
      kv_line ''AllowedIPs'' ''10.8.0.2/32'', []]"

lemma ex_clean:
  "clean ''priv''" "clean ''K''" "clean ''id''" "clean ''bob''" "clean ''10.8.0.2/32''" "clean ''10.8.0.1/24''"
  "clean ''2024-01-01T00:00:00.000Z''"
  by (simp_all add: clean_def trimmed_def ascii_space_def space2_def space3_def)

lemma evil_peer_lines: "unlines (peer_lines plain_conf evil_user) = unlines evil_lines"
proof -
  have "trim ''10.8.0.2/32'' = ''10.8.0.2/32''" by (rule trim_clean) (rule ex_clean)
  then show ?thesis
    by (simp add: peer_lines_def evil_lines_def evil_user_def user_row_def opt_str_def plain_conf_def
        ex_conf_def kv_line_def)
qed

lemma evil_render: "render_config evil_db stamp
    = Inr (config_text stamp plain_conf ''priv'' 51820 [evil_user])"
  by (simp add: render_config_def evil_db_def GetSystemConfig_def plain_conf_def ex_conf_def
      find_server_def ex_server_def listen_port_def peer_rows_def evil_user_def user_row_def db_empty_def)

lemma plain_conf_clean: "clean_conf ''2024-01-01T00:00:00.000Z'' plain_conf ''priv'' []"
  using ex_clean
  by (simp add: clean_conf_def plain_conf_def ex_conf_def serverAddr_def int64_ok_def)

text \<open>
  C36. Values are written as they are, so a value that spans lines adds lines: there is a
  database without any hook, with one user whose name holds newlines, for which the written
  file is read back, by the program's own parser, with a PostUp hook.
\<close>

theorem config_line_injection:
  "\<exists>d w text i ps.
     sc_config (GetSystemConfig d) = Some w
   \<and> norm_hook (w_pre_up w) = [] \<and> norm_hook (w_post_up w) = []
   \<and> norm_hook (w_pre_down w) = [] \<and> norm_hook (w_post_down w) = []
   \<and> render_config d ''2024-01-01T00:00:00.000Z'' = Inr text
   \<and> ParseWGQuickConfig text = Inr (i, ps) \<and> qi_post_up i = ''id''"
proof -
  let ?stamp = "''2024-01-01T00:00:00.000Z''"
  let ?pre = "head_lines ?stamp @ iface_lines plain_conf ''priv'' 51820 @ all_hooks plain_conf @ [[], hdr_peers, []]"
  let ?text = "config_text ?stamp plain_conf ''priv'' 51820 [evil_user]"
  have lines: "?text = unlines (?pre @ evil_lines)"
    by (simp add: config_text_lines config_lines_def evil_peer_lines)
  have "\<forall>l \<in> set (config_lines ?stamp plain_conf ''priv'' 51820 []). line_ok l"
    by (rule config_lines_ok [OF plain_conf_clean])
  moreover have "\<forall>l \<in> set evil_lines. line_ok l"
    by (simp add: evil_lines_def line_ok_kv ex_clean) (simp add: line_ok_def)
  ultimately have ok: "\<forall>l \<in> set (?pre @ evil_lines). line_ok l"
    by (auto simp: config_lines_def)
  have peers_hdr: "parse_line st hdr_peers = st" for st
    unfolding hdr_peers_def
    by (rule parse_hash_comment; (rule plain_word)?) (simp_all add: plain_def ascii_space_def lower_chr_def)
  define st where "st = parse_state0\<lparr>st_section := ''interface'', st_iface := parsed_iface plain_conf ''priv'' 51820\<rparr>"
  have user: "parse_line s ''# User: bob'' = s\<lparr>st_pending := ''bob''\<rparr>" for s
    using user_comment [of "''bob''" s] ex_clean by simp
  have "foldl parse_line parse_state0 (?pre @ evil_lines) = foldl parse_line st evil_lines"
    using parse_iface_lines [OF plain_conf_clean, of 51820] ex_clean
    by (simp only: foldl_append foldl_Cons foldl_Nil parse_head [OF ex_clean(7)] peers_hdr parse_blank
        st_def) (simp add: parse_head int64_ok_def)
  moreover have "qi_post_up (st_iface (foldl parse_line st evil_lines)) = ''id''
      \<and> qi_private_key (st_iface (foldl parse_line st evil_lines)) = ''priv''"
    using ex_clean
    by (simp add: evil_lines_def user section_interface section_peer peer_kv kv_step_iface
        applyInterfaceKV_def st_def parse_state0_def flushPeer_def parsed_iface_def norm_hook_def
        hook_lines_def plain_conf_def ex_conf_def appendHookLine_def)
  moreover have "scan_lines ?text = ?pre @ evil_lines"
    unfolding lines using ok by (rule scan_lines_unlines)
  moreover have "\<not> list_ex (\<lambda>l. length l \<ge> max_line) (raw_lines ?text)"
  proof -
    have "raw_lines ?text = ?pre @ evil_lines"
      unfolding lines using ok by (intro raw_lines_unlines) (auto simp: line_ok_def)
    then show ?thesis
      by (simp add: evil_lines_def head_lines_def iface_lines_def all_hooks_def hdr_defs kv_line_def
          plain_conf_def ex_conf_def serverAddr_def hook_lines_def max_line_def str_eval)
  qed
  ultimately obtain i ps where "ParseWGQuickConfig ?text = Inr (i, ps)" "qi_post_up i = ''id''"
    using ex_clean by (simp add: ParseWGQuickConfig_def Let_def trim_clean)
  then show ?thesis
    using evil_render [of ?stamp]
    by (intro exI [of _ evil_db] exI [of _ plain_conf])
       (auto simp: evil_db_def GetSystemConfig_def plain_conf_def ex_conf_def norm_hook_def hook_lines_def)
qed

section \<open>Witness\<close>

definition good_user :: vpn_user where
  "good_user = evil_user\<lparr>u_username := ''bob''\<rparr>"

definition good_db :: db where
  "good_db = evil_db\<lparr>users := [good_user, good_user\<lparr>u_username := ''amy'', u_is_enabled := False\<rparr>]\<rparr>"

lemma good_rows: "peer_rows good_db = [good_user]"
  by (simp add: peer_rows_def good_db_def good_user_def evil_user_def user_row_def)

lemma good_render: "render_config good_db stamp = Inr (config_text stamp plain_conf ''priv'' 51820 [good_user])"
  using good_rows
  by (simp add: render_config_def good_db_def evil_db_def GetSystemConfig_def plain_conf_def ex_conf_def
      find_server_def ex_server_def listen_port_def)

lemma good_clean: "clean_conf ''2024-01-01T00:00:00.000Z'' plain_conf ''priv'' [good_user]"
  using plain_conf_clean ex_clean
  by (simp add: clean_conf_def clean_user_def good_user_def evil_user_def user_row_def opt_str_def)

lemma config_roundtrip_witness:
  "\<exists>text. render_config good_db ''2024-01-01T00:00:00.000Z'' = Inr text
    \<and> ParseWGQuickConfig text = Inr (parsed_iface plain_conf ''priv'' 51820, [parsed_peer plain_conf good_user])"
proof -
  let ?stamp = "''2024-01-01T00:00:00.000Z''"
  let ?text = "config_text ?stamp plain_conf ''priv'' 51820 [good_user]"
  let ?ls = "config_lines ?stamp plain_conf ''priv'' 51820 [good_user]"
  have al: "trim ''10.8.0.2/32'' = ''10.8.0.2/32''" by (rule trim_clean) (rule ex_clean)
  have "raw_lines ?text = ?ls"
    unfolding config_text_lines using config_lines_ok [OF good_clean]
    by (intro raw_lines_unlines) (auto simp: line_ok_def)
  then have short: "list_all (\<lambda>l. length l < max_line) (raw_lines ?text)"
    by (simp add: config_lines_def head_lines_def iface_lines_def all_hooks_def hdr_defs kv_line_def
        plain_conf_def ex_conf_def serverAddr_def hook_lines_def max_line_def peer_lines_def good_user_def
        evil_user_def user_row_def opt_str_def al str_eval)
  have "sc_config (GetSystemConfig good_db) = Some plain_conf" "find_server ''wireguard'' good_db = Some ex_server"
    "s_private_key ex_server = Some ''priv''" "listen_port plain_conf ex_server = 51820"
    by (simp_all add: good_db_def evil_db_def GetSystemConfig_def find_server_def ex_server_def listen_port_def)
  then have "ParseWGQuickConfig ?text
      = Inr (parsed_iface plain_conf ''priv'' 51820, map (parsed_peer plain_conf) (filter has_allowed [good_user]))"
    using config_roundtrip [OF good_render, of plain_conf ex_server "''priv''" ?stamp] good_clean short good_rows
    by (simp add: int64_ok_def)
  moreover have "has_allowed good_user"
    by (simp add: has_allowed_def good_user_def evil_user_def user_row_def opt_str_def al)
  ultimately show ?thesis using good_render by simp
qed

end
