(* ===== verification/Pcq_Limits.thy ===== *)
theory Pcq_Limits
  imports Store Go_Net "HOL-Library.AList"
begin

text \<open>
  The effective rate caps of the tunnel peers: \<open>internal/pcq/tunnel.go\<close> and
  \<open>internal/pcq/load.go\<close>. The Go map of limits is an association list with distinct keys. The
  query has no \<open>ORDER BY\<close>; merging is an interpretation of \<open>order_free\<close>, so the order in
  which rows arrive does not matter.
\<close>

section \<open>The code\<close>

record peer_limit =
  l_download :: int
  l_upload :: int
  l_burst_download :: int
  l_burst_upload :: int

definition limit0 :: peer_limit where
  "limit0 = \<lparr>l_download = 0, l_upload = 0, l_burst_download = 0, l_burst_upload = 0\<rparr>"

definition FirstTunnelIPCIDR :: "string \<Rightarrow> string" where
  "FirstTunnelIPCIDR allowedIPs =
     (let s = trim allowedIPs in
      if s = [] then []
      else (case cutAt (CHR '','') s of Some (a, _) \<Rightarrow> trim a | None \<Rightarrow> s))"

definition TunnelIPv4 :: "string \<Rightarrow> string" where
  "TunnelIPv4 allowedIPs =
     (let s = trim (FirstTunnelIPCIDR allowedIPs) in
      if s = [] then []
      else if CHR ''/'' \<in> set s then
        (case parseCIDR s of
           None \<Rightarrow> []
         | Some (host, _) \<Rightarrow> (case to4 host of None \<Rightarrow> [] | Some a \<Rightarrow> show_v4 a))
      else (case parseIP4 s of None \<Rightarrow> [] | Some a \<Rightarrow> show_v4 a))"

definition nz64 :: "int option \<Rightarrow> int" where
  "nz64 v = (case v of None \<Rightarrow> 0 | Some x \<Rightarrow> if x \<le> 0 then 0 else x)"

definition classifyRow :: "int option \<Rightarrow> int option \<Rightarrow> int option \<Rightarrow> int option \<Rightarrow> string \<Rightarrow> int \<times> int \<times> int \<times> int" where
  "classifyRow dl ul bd bu clf =
     (if clf = ''dst-download'' then (nz64 dl, 0, nz64 bd, 0)
      else if clf = ''src-upload'' then (0, nz64 ul, 0, nz64 bu)
      else (nz64 dl, nz64 ul, nz64 bd, nz64 bu))"

definition mergeMin :: "int \<Rightarrow> int \<Rightarrow> int" where
  "mergeMin cur add = (if add \<le> 0 then cur else if cur \<le> 0 \<or> add < cur then add else cur)"

text \<open>SQLite's \<open>TRIM\<close> removes blanks only; \<open>COALESCE(u.allowed_ips, '')\<close>.\<close>

definition sql_trim :: "string \<Rightarrow> string" where
  "sql_trim s = rev (dropWhile (\<lambda>c. c = CHR '' '') (rev (dropWhile (\<lambda>c. c = CHR '' '') s)))"

definition coalesce_str :: "string option \<Rightarrow> string" where
  "coalesce_str v = (case v of None \<Rightarrow> [] | Some s \<Rightarrow> s)"

text \<open>The join of users, members and presets that both queries read.\<close>

definition limit_rows :: "(vpn_member \<Rightarrow> bool) \<Rightarrow> db \<Rightarrow> (vpn_user \<times> vpn_pcq) list" where
  "limit_rows P d =
     concat (map (\<lambda>u.
       concat (map (\<lambda>m.
         map (\<lambda>q. (u, q))
           (filter (\<lambda>q. q_group q = m_group m \<and> u_server_id u = ''wireguard'' \<and> u_is_enabled u \<and> \<not> q_disabled q)
             (pcqs d)))
         (filter (\<lambda>m. m_user m = u_id u \<and> P m) (members d))))
       (users d))"

type_synonym row_caps = "string \<times> int \<times> int \<times> int \<times> int"

definition row_caps :: "vpn_user \<times> vpn_pcq \<Rightarrow> row_caps" where
  "row_caps r =
     (let (u, q) = r in
      (TunnelIPv4 (coalesce_str (u_allowed_ips u)),
       classifyRow (q_download q) (q_upload q) (q_burst_download q) (q_burst_upload q)
         (sql_trim (q_classifier q))))"

definition add_caps :: "peer_limit \<Rightarrow> int \<times> int \<times> int \<times> int \<Rightarrow> peer_limit" where
  "add_caps pl caps =
     (let (edl, eul, ebd, ebu) = caps in
      \<lparr>l_download = mergeMin (l_download pl) edl, l_upload = mergeMin (l_upload pl) eul,
       l_burst_download = mergeMin (l_burst_download pl) ebd,
       l_burst_upload = mergeMin (l_burst_upload pl) ebu\<rparr>)"

text \<open>A row without IPv4 tunnel address or without a cap changes nothing.\<close>

definition effective :: "row_caps \<Rightarrow> bool" where
  "effective r = (let (ip, edl, eul, ebd, ebu) = r in ip \<noteq> [] \<and> \<not> (edl \<le> 0 \<and> eul \<le> 0))"

definition merge_row :: "(string \<times> peer_limit) list \<Rightarrow> row_caps \<Rightarrow> (string \<times> peer_limit) list" where
  "merge_row out r =
     (let (ip, caps) = r in
      if \<not> effective r then out
      else
        (let pl = (case map_of out ip of None \<Rightarrow> limit0 | Some pl \<Rightarrow> pl) in
         AList.update ip (add_caps pl caps) out))"

definition LoadPeerLimits :: "db \<Rightarrow> (string \<times> peer_limit) list" where
  "LoadPeerLimits d = foldl merge_row [] (map row_caps (limit_rows (\<lambda>_. True) d))"

definition LoadPeerLimitsForGroup :: "string \<Rightarrow> db \<Rightarrow> (string \<times> peer_limit) list" where
  "LoadPeerLimitsForGroup groupID d =
     (let gid = trim groupID in
      if gid = [] then []
      else foldl merge_row [] (map row_caps (limit_rows (\<lambda>m. m_group m = gid) d)))"

section \<open>Merging is independent of the order of rows\<close>

lemma mergeMin_commute: "mergeMin (mergeMin c a) b = mergeMin (mergeMin c b) a"
  by (simp add: mergeMin_def)

interpretation min_merge: order_free mergeMin
  by unfold_locales (rule mergeMin_commute)

lemma add_caps_commute: "add_caps (add_caps pl a) b = add_caps (add_caps pl b) a"
  by (simp add: add_caps_def split_beta mergeMin_commute)

interpretation caps_merge: order_free add_caps
  by unfold_locales (rule add_caps_commute)

text \<open>The abstract merge, on maps.\<close>

definition merge_map :: "(string \<Rightarrow> peer_limit option) \<Rightarrow> row_caps \<Rightarrow> (string \<Rightarrow> peer_limit option)" where
  "merge_map m r =
     (if effective r
      then m(fst r \<mapsto> add_caps (case m (fst r) of None \<Rightarrow> limit0 | Some pl \<Rightarrow> pl) (snd r))
      else m)"

lemma merge_map_commute: "merge_map (merge_map m a) b = merge_map (merge_map m b) a"
  by (auto simp: merge_map_def add_caps_commute fun_upd_twist split: option.splits)

interpretation map_merge: order_free merge_map
  by unfold_locales (rule merge_map_commute)

lemma map_of_merge_row: "map_of (merge_row out r) = merge_map (map_of out) r"
  by (auto simp: merge_row_def merge_map_def update_conv' split_beta Let_def)

lemma map_of_merge_rows: "map_of (foldl merge_row out rs) = foldl merge_map (map_of out) rs"
  by (induction rs arbitrary: out) (simp_all add: map_of_merge_row)

lemma distinct_merge_rows: "distinct (map fst out) \<Longrightarrow> distinct (map fst (foldl merge_row out rs))"
  by (induction rs arbitrary: out) (simp_all add: merge_row_def distinct_update split_beta Let_def)

section \<open>What a merged cap is\<close>

text \<open>The positive caps a list holds; the merge of a list is the least of them, or 0.\<close>

definition least_cap :: "int \<Rightarrow> int set \<Rightarrow> bool" where
  "least_cap c A \<longleftrightarrow> (if \<exists>x \<in> A. 0 < x then 0 < c \<and> c \<in> A \<and> (\<forall>x \<in> A. 0 < x \<longrightarrow> c \<le> x) else c = 0)"

lemma foldl_mergeMin_pos:
  "0 < c \<Longrightarrow> 0 < foldl mergeMin c xs \<and> foldl mergeMin c xs \<in> insert c (set xs)
     \<and> (\<forall>x \<in> insert c (set xs). 0 < x \<longrightarrow> foldl mergeMin c xs \<le> x)"
proof (induction xs arbitrary: c)
  case Nil
  then show ?case by simp
next
  case (Cons a xs)
  let ?m = "mergeMin c a" and ?F = "foldl mergeMin (mergeMin c a) xs"
  have m: "0 < ?m" "?m \<le> c" "0 < a \<Longrightarrow> ?m \<le> a" "?m = c \<or> ?m = a"
    using Cons.prems by (auto simp: mergeMin_def)
  have F: "0 < ?F" "?F = ?m \<or> ?F \<in> set xs" "?F \<le> ?m" "\<And>x. x \<in> set xs \<Longrightarrow> 0 < x \<Longrightarrow> ?F \<le> x"
    using Cons.IH [OF m(1)] m(1) by auto
  have "?F \<le> c" "0 < a \<Longrightarrow> ?F \<le> a" using F(3) m(2,3) by auto
  moreover have "?F = c \<or> ?F = a \<or> ?F \<in> set xs" using F(2) m(4) by auto
  ultimately show ?case using F(1,4) by auto
qed

lemma mergeMin_zero: "mergeMin 0 a = (if 0 < a then a else 0)"
  by (simp add: mergeMin_def)

lemma least_cap_foldl: "least_cap (foldl mergeMin 0 xs) (set xs)"
proof (induction xs)
  case Nil
  then show ?case by (simp add: least_cap_def)
next
  case (Cons a xs)
  show ?case
  proof (cases "0 < a")
    case True
    then show ?thesis using foldl_mergeMin_pos [of a xs] by (auto simp: least_cap_def mergeMin_zero)
  next
    case False
    with Cons show ?thesis by (auto simp: least_cap_def mergeMin_zero)
  qed
qed

lemma least_cap_mono: "least_cap c A \<Longrightarrow> least_cap c' B \<Longrightarrow> A \<subseteq> B \<Longrightarrow> 0 < c \<Longrightarrow> 0 < c' \<and> c' \<le> c"
  by (auto simp: least_cap_def split: if_splits)

lemma foldl_add_caps:
  "foldl add_caps pl rs =
     \<lparr>l_download = foldl mergeMin (l_download pl) (map fst rs),
      l_upload = foldl mergeMin (l_upload pl) (map (\<lambda>x. fst (snd x)) rs),
      l_burst_download = foldl mergeMin (l_burst_download pl) (map (\<lambda>x. fst (snd (snd x))) rs),
      l_burst_upload = foldl mergeMin (l_burst_upload pl) (map (\<lambda>x. snd (snd (snd x))) rs)\<rparr>"
  by (induction rs arbitrary: pl) (simp_all add: add_caps_def split_beta)

lemma foldl_merge_map:
  "foldl merge_map m rs ip =
     (let es = map snd (filter (\<lambda>r. effective r \<and> fst r = ip) rs) in
      if es = [] then m ip
      else Some (foldl add_caps (case m ip of None \<Rightarrow> limit0 | Some pl \<Rightarrow> pl) es))"
  by (induction rs arbitrary: m) (simp_all add: merge_map_def Let_def)

section \<open>The caps of a peer\<close>

text \<open>
  The presets that shape a user: enabled, of a group the user is a member of. The caps that
  count for a tunnel address are those of the effective pairs of an enabled user with that
  address and a preset that shapes it.
\<close>

definition shapes :: "(vpn_member \<Rightarrow> bool) \<Rightarrow> db \<Rightarrow> vpn_user \<Rightarrow> vpn_pcq \<Rightarrow> bool" where
  "shapes P d u q \<longleftrightarrow>
     u_server_id u = ''wireguard'' \<and> u_is_enabled u \<and> \<not> q_disabled q
   \<and> (\<exists>m \<in> set (members d). m_user m = u_id u \<and> m_group m = q_group q \<and> P m)"

definition peer_caps :: "(vpn_member \<Rightarrow> bool) \<Rightarrow> db \<Rightarrow> string \<Rightarrow> (int \<times> int \<times> int \<times> int) set" where
  "peer_caps P d ip =
     snd ` {r \<in> row_caps ` {(u, q). u \<in> set (users d) \<and> q \<in> set (pcqs d) \<and> shapes P d u q}.
        effective r \<and> fst r = ip}"

definition caps_spec :: "(int \<times> int \<times> int \<times> int) set \<Rightarrow> peer_limit option \<Rightarrow> bool" where
  "caps_spec A res \<longleftrightarrow>
     (case res of
        None \<Rightarrow> A = {}
      | Some pl \<Rightarrow>
          A \<noteq> {}
        \<and> least_cap (l_download pl) (fst ` A) \<and> least_cap (l_upload pl) ((\<lambda>x. fst (snd x)) ` A)
        \<and> least_cap (l_burst_download pl) ((\<lambda>x. fst (snd (snd x))) ` A)
        \<and> least_cap (l_burst_upload pl) ((\<lambda>x. snd (snd (snd x))) ` A))"

lemma set_limit_rows:
  "set (limit_rows P d) = {(u, q). u \<in> set (users d) \<and> q \<in> set (pcqs d) \<and> shapes P d u q}"
  by (fastforce simp: limit_rows_def shapes_def image_iff)

lemma fst_row_caps: "fst (row_caps (u, q)) = TunnelIPv4 (coalesce_str (u_allowed_ips u))"
  by (simp add: row_caps_def Let_def)

lemma caps_spec_fold:
  "caps_spec (peer_caps P d ip) (map_of (foldl merge_row [] (map row_caps (limit_rows P d))) ip)"
proof -
  define es where "es = map snd (filter (\<lambda>r. effective r \<and> fst r = ip) (map row_caps (limit_rows P d)))"
  have set: "set es = peer_caps P d ip"
    by (simp add: es_def peer_caps_def flip: set_limit_rows)
  have res: "map_of (foldl merge_row [] (map row_caps (limit_rows P d))) ip
      = (if es = [] then None else Some (foldl add_caps limit0 es))"
    by (simp add: map_of_merge_rows foldl_merge_map Let_def es_def del: filter_map)
  have caps: "least_cap (foldl mergeMin 0 (map f es)) (f ` peer_caps P d ip)" for f
    using least_cap_foldl [of "map f es"] by (simp only: set_map set)
  show ?thesis
  proof (cases "es = []")
    case True
    with set have "peer_caps P d ip = {}" by (metis set_empty)
    with True res show ?thesis by (simp add: caps_spec_def)
  next
    case False
    with set have "peer_caps P d ip \<noteq> {}" by (metis set_empty)
    with False res caps show ?thesis
      by (simp add: caps_spec_def foldl_add_caps limit0_def)
  qed
qed

text \<open>
  C11. The cap a peer gets is the least one: for every tunnel address, \<open>LoadPeerLimits\<close> has an
  entry exactly when an enabled user with that address is in a group with an enabled preset
  that caps it, and each of the four values of the entry is the least positive value among
  those presets, or 0 when none gives one.
\<close>

theorem LoadPeerLimits_least:
  "caps_spec (peer_caps (\<lambda>_. True) d ip) (map_of (LoadPeerLimits d) ip)"
  unfolding LoadPeerLimits_def by (rule caps_spec_fold)

text \<open>
  The query behind \<open>LoadPeerLimits\<close> has no \<open>ORDER BY\<close>: in whatever order the database
  returns its rows, the resulting map of limits is the same.
\<close>

theorem LoadPeerLimits_order_free:
  assumes "mset rows = mset (limit_rows (\<lambda>_. True) d)"
  shows "map_of (foldl merge_row [] (map row_caps rows)) = map_of (LoadPeerLimits d)"
proof -
  have "foldl merge_map (map_of []) (map row_caps rows)
      = foldl merge_map (map_of []) (map row_caps (limit_rows (\<lambda>_. True) d))"
    using assms by (intro map_merge.foldl_perm) simp
  then show ?thesis by (simp only: LoadPeerLimits_def map_of_merge_rows)
qed

lemma peer_caps_mono: "peer_caps P d ip \<subseteq> peer_caps (\<lambda>_. True) d ip"
  by (auto simp: peer_caps_def shapes_def)

text \<open>
  The limits merged over all groups are never looser than those of one group: where the
  preview of a single group caps a peer, the live plan caps it too, at the same rate or a lower
  one.
\<close>

theorem group_limits_dominate:
  assumes "map_of (LoadPeerLimitsForGroup g d) ip = Some pl"
  shows "\<exists>pl'. map_of (LoadPeerLimits d) ip = Some pl'
     \<and> (0 < l_download pl \<longrightarrow> 0 < l_download pl' \<and> l_download pl' \<le> l_download pl)
     \<and> (0 < l_upload pl \<longrightarrow> 0 < l_upload pl' \<and> l_upload pl' \<le> l_upload pl)"
proof -
  let ?P = "\<lambda>m. m_group m = trim g"
  have grp: "map_of (LoadPeerLimitsForGroup g d) ip
      = map_of (foldl merge_row [] (map row_caps (limit_rows ?P d))) ip"
    using assms by (auto simp: LoadPeerLimitsForGroup_def Let_def split: if_splits)
  have g: "caps_spec (peer_caps ?P d ip) (Some pl)"
    using caps_spec_fold [of ?P d ip] assms by (simp add: grp)
  have all: "caps_spec (peer_caps (\<lambda>_. True) d ip) (map_of (LoadPeerLimits d) ip)"
    unfolding LoadPeerLimits_def by (rule caps_spec_fold)
  note sub = peer_caps_mono [of ?P d ip]
  obtain pl' where pl': "map_of (LoadPeerLimits d) ip = Some pl'"
    using g all sub by (cases "map_of (LoadPeerLimits d) ip") (auto simp: caps_spec_def)
  with g all show ?thesis
    using least_cap_mono [OF _ _ image_mono [OF sub]] by (auto simp: caps_spec_def)
qed

section \<open>Witnesses\<close>

text \<open>One user in two groups whose presets cap the download rate at 4 and 2 Mbps.\<close>

definition ex_preset :: "string \<Rightarrow> int \<Rightarrow> int option \<Rightarrow> vpn_pcq" where
  "ex_preset g dl ul = \<lparr>q_group = g, q_download = Some dl, q_upload = ul, q_burst_download = None,
     q_burst_upload = None, q_classifier = ''dual'', q_disabled = False\<rparr>"

definition ex_pcq_db :: db where
  "ex_pcq_db = db_empty\<lparr>users := [(user_row ''u1'' ''alice'' ''wireguard'')\<lparr>u_allowed_ips := Some ''10.8.0.2/32''\<rparr>],
     groups := [\<lparr>g_id = ''g1'', g_name = ''one'', g_description = None\<rparr>,
                \<lparr>g_id = ''g2'', g_name = ''two'', g_description = None\<rparr>],
     members := [\<lparr>m_group = ''g1'', m_user = ''u1''\<rparr>, \<lparr>m_group = ''g2'', m_user = ''u1''\<rparr>],
     pcqs := [ex_preset ''g1'' 4096 None, ex_preset ''g2'' 2048 (Some 1024)]\<rparr>"

definition ex_limit :: "int \<Rightarrow> int \<Rightarrow> peer_limit" where
  "ex_limit dl ul = \<lparr>l_download = dl, l_upload = ul, l_burst_download = 0, l_burst_upload = 0\<rparr>"

lemma ex_tunnel: "TunnelIPv4 ''10.8.0.2/32'' = ''10.8.0.2''"
proof -
  have "parseCIDR ''10.8.0.2/32'' = Some (v4_mapped 0x0A080002, Net4 0x0A080002 32)"
    by (simp add: net_eval)
  moreover have "show_v4 0x0A080002 = ''10.8.0.2''" by (simp add: show_v4_def octet_def str_eval)
  ultimately show ?thesis by (simp add: TunnelIPv4_def FirstTunnelIPCIDR_def str_eval)
qed

lemmas pcq_eval = ex_pcq_db_def ex_preset_def user_row_def db_empty_def limit_rows_def row_caps_def
  classifyRow_def sql_trim_def coalesce_str_def ex_tunnel nz64_def merge_row_def effective_def
  limit0_def add_caps_def mergeMin_def ex_limit_def

lemma ex_load: "LoadPeerLimits ex_pcq_db = [(''10.8.0.2'', ex_limit 2048 1024)]"
  by (simp add: LoadPeerLimits_def pcq_eval)

lemma ex_load_group: "LoadPeerLimitsForGroup ''g1'' ex_pcq_db = [(''10.8.0.2'', ex_limit 4096 0)]"
  by (simp add: LoadPeerLimitsForGroup_def pcq_eval str_eval)

lemma LoadPeerLimits_order_free_witness:
  "map_of (foldl merge_row [] (map row_caps (rev (limit_rows (\<lambda>_. True) ex_pcq_db)))) ''10.8.0.2''
     = Some (ex_limit 2048 1024)"
  using LoadPeerLimits_order_free [of "rev (limit_rows (\<lambda>_. True) ex_pcq_db)" ex_pcq_db]
  by (simp add: ex_load)

lemma group_limits_dominate_witness:
  "\<exists>pl'. map_of (LoadPeerLimits ex_pcq_db) ''10.8.0.2'' = Some pl'
     \<and> 0 < l_download pl' \<and> l_download pl' \<le> 4096"
  using group_limits_dominate [of "''g1''" ex_pcq_db "''10.8.0.2''" "ex_limit 4096 0"]
  by (simp add: ex_load_group) (simp add: ex_limit_def)

end
