(* ===== verification/Go_Float.thy ===== *)
theory Go_Float
  imports Go_Strings
begin

text \<open>
  Shares in per cent as the overview computes them, \<open>int(float64(a) / float64(b) * 100)\<close>: a quotient and a product in
  \<open>float64\<close>, each rounded half to even to 53 bits, and the truncation. Numerator and denominator are natural numbers below
  \<open>2 ^ 53\<close>, which a \<open>float64\<close> holds exactly. Then the nearest \<open>float64\<close> of any natural number and the conversion back
  to \<open>int64\<close>, for the rates of the queues.
\<close>

text \<open>The number of doublings that give the quotient 53 bits before the point.\<close>

function shift_of :: "nat \<Rightarrow> nat \<Rightarrow> nat" where
  "shift_of a b = (if a = 0 \<or> b * 2 ^ 52 \<le> a then 0 else Suc (shift_of (2 * a) b))"
  by pat_completeness auto
termination by (relation "measure (\<lambda>(a, b). b * 2 ^ 52 - a)") auto

declare shift_of.simps [simp del]

text \<open>
  The quotient is \<open>m / 2 ^ e\<close> with \<open>m\<close> of 53 bits; a hundred times \<open>m\<close> has 59 or 60 bits, of which
  the last six or seven are rounded away.
\<close>

definition percent :: "nat \<Rightarrow> nat \<Rightarrow> nat" where
  "percent a b =
     (if a = 0 then 0
      else (let e = shift_of a b; m = round_even (a * 2 ^ e) b; p = 100 * m; k = (if p < 2 ^ 59 then 6 else 7) in
            round_even p (2 ^ k) * 2 ^ k div 2 ^ e))"

lemma shift_of_least: "0 < a \<Longrightarrow> b * 2 ^ 52 \<le> a * 2 ^ shift_of a b"
proof (induction a b rule: shift_of.induct)
  case (1 a b)
  show ?case
  proof (cases "b * 2 ^ 52 \<le> a")
    case True
    then show ?thesis by (simp add: shift_of.simps [of a b])
  next
    case False
    then show ?thesis using 1 by (subst shift_of.simps) (simp add: mult.assoc mult.left_commute)
  qed
qed

text \<open>Rounding is off by at most half a unit.\<close>

lemma round_even_near:
  assumes "0 < d"
  shows "2 * round_even n d * d \<le> 2 * n + d" "2 * n \<le> 2 * round_even n d * d + d"
proof -
  define q where "q = n div d"
  define r where "r = n mod d"
  have n: "n = q * d + r" by (simp add: q_def r_def)
  have "(round_even n d = q \<and> 2 * r \<le> d) \<or> (round_even n d = Suc q \<and> d \<le> 2 * r \<and> r < d)"
    using assms by (auto simp: round_even_def Let_def q_def r_def)
  then show "2 * round_even n d * d \<le> 2 * n + d" "2 * n \<le> 2 * round_even n d * d + d"
    by (auto simp: n algebra_simps)
qed

lemma percent_near:
  assumes "0 < a" and "a \<le> b" and "b < 2 ^ 40"
  shows "percent a b \<le> 100 * a div b" "100 * a div b \<le> Suc (percent a b)"
proof -
  define e where "e = shift_of a b"
  define m where "m = round_even (a * 2 ^ e) b"
  define k :: nat where "k = (if 100 * m < 2 ^ 59 then 6 else 7)"
  define N where "N = round_even (100 * m) (2 ^ k) * 2 ^ k"
  have b: "0 < b" using assms by simp
  have "b * 2 ^ 52 \<le> a * 2 ^ e" unfolding e_def by (rule shift_of_least [OF assms(1)])
  also have "\<dots> \<le> b * 2 ^ e" using assms(2) by simp
  finally have e: "(2::nat) ^ 52 \<le> 2 ^ e" using b by simp
  have big: "114 * b < 2 ^ e" using assms(3) e by simp
  have k: "(2::nat) ^ k \<le> 128" by (simp add: k_def)
  have 1: "2 * m * b \<le> 2 * (a * 2 ^ e) + b" "2 * (a * 2 ^ e) \<le> 2 * m * b + b"
    unfolding m_def by (rule round_even_near [OF b])+
  have 2: "2 * N \<le> 2 * (100 * m) + 2 ^ k" "2 * (100 * m) \<le> 2 * N + 2 ^ k"
    unfolding N_def using round_even_near [of "2 ^ k" "100 * m"] by (simp_all add: mult.assoc)
  have up: "N \<le> 100 * m + 64" and lo: "100 * m \<le> N + 64" using 2 k by linarith+
  have "N * b \<le> (100 * m + 64) * b" using up by (rule mult_le_mono1)
  also have "\<dots> \<le> 100 * (a * 2 ^ e) + 114 * b" using 1(1) by (simp add: algebra_simps)
  finally have U: "N * b \<le> 100 * a * 2 ^ e + 114 * b" by simp
  have "100 * m * b \<le> (N + 64) * b" using lo by (rule mult_le_mono1)
  then have L: "100 * a * 2 ^ e \<le> N * b + 114 * b" using 1(2) by (simp add: algebra_simps)
  define n where "n = 100 * a div b"
  have p: "percent a b = N div 2 ^ e"
    using assms(1) by (simp add: percent_def Let_def N_def k_def m_def e_def)
  have n: "n * b \<le> 100 * a" "100 * a + 1 \<le> n * b + b"
    using b div_mult_mod_eq [of "100 * a" b] mod_less_divisor [OF b, of "100 * a"] by (simp_all add: n_def, linarith)
  show "percent a b \<le> 100 * a div b"
  proof (rule ccontr)
    assume "\<not> percent a b \<le> 100 * a div b"
    then have "(n + 1) * 2 ^ e \<le> N"
      by (simp add: p n_def flip: n_def) (metis Suc_leI div_mult_mod_eq dual_order.trans le_add1 mult_Suc mult_le_mono1 not_le)
    then have "(n + 1) * 2 ^ e * b \<le> N * b" by (rule mult_le_mono1)
    moreover have "(100 * a + 1) * 2 ^ e \<le> (n * b + b) * 2 ^ e" using n(2) by (rule mult_le_mono1)
    ultimately show False using U big by (simp add: algebra_simps)
  qed
  show "100 * a div b \<le> Suc (percent a b)"
  proof (rule ccontr)
    assume "\<not> 100 * a div b \<le> Suc (percent a b)"
    then have "N div 2 ^ e + 2 \<le> n" by (simp add: p n_def)
    then have "(N div 2 ^ e + 2) * 2 ^ e \<le> n * 2 ^ e" by (rule mult_le_mono1)
    moreover have "N < (N div 2 ^ e + 1) * 2 ^ e"
      using dividend_less_div_times [of "2 ^ e" N] by simp
    ultimately have "N + 2 ^ e < n * 2 ^ e" by (simp add: algebra_simps)
    then have "(N + 2 ^ e) * b < n * 2 ^ e * b" using b by simp
    then have c: "N * b + 2 ^ e * b < n * b * 2 ^ e" by (simp add: algebra_simps)
    have d: "n * b * 2 ^ e \<le> 100 * a * 2 ^ e" using n(1) by (rule mult_le_mono1)
    have "N * b + 2 ^ e * b < N * b + 114 * b" using less_le_trans [OF c order_trans [OF d L]] .
    then have "2 ^ e < (114::nat)" using b by simp
    then show False using e by simp
  qed
qed

lemma percent_zero [simp]: "percent 0 b = 0"
  by (simp add: percent_def)

lemma shift_of_eq: "0 < a \<Longrightarrow> b * 2 ^ 52 \<le> a * 2 ^ e \<Longrightarrow> \<forall>k < e. a * 2 ^ k < b * 2 ^ 52 \<Longrightarrow> shift_of a b = e"
proof (induction e arbitrary: a)
  case (Suc e)
  have "a < b * 2 ^ 52" using Suc.prems(3) by force
  moreover have "\<forall>k < e. 2 * a * 2 ^ k < b * 2 ^ 52"
  proof (intro allI impI)
    fix k assume "k < e"
    then show "2 * a * 2 ^ k < b * 2 ^ 52" using Suc.prems(3) [rule_format, of "Suc k"] by simp
  qed
  ultimately show ?case using Suc by (subst shift_of.simps) (simp add: mult.assoc mult.left_commute)
qed (simp add: shift_of.simps)

lemma percent_29: "percent 29 100 = 28"
proof -
  have "(29::nat) * 2 ^ k < 100 * 2 ^ 52" if "k < 54" for k
    using power_increasing [of k 53 "2::nat"] that by simp
  then have "shift_of 29 100 = 54" by (intro shift_of_eq) simp_all
  moreover have "round_even (29 * 2 ^ 54) 100 = 5224175567749775" by (simp add: round_even_def)
  moreover have "round_even 522417556774977500 (2 ^ 6) = 8162774324609023" by (simp add: round_even_def)
  ultimately show ?thesis by (simp add: percent_def)
qed

section \<open>Rounding to float64\<close>

text \<open>
  The \<open>float64\<close> nearest to a natural number, ties to even: 53 bits are kept. Scaling by a power of two is exact, so the
  mantissa of a dyadic fraction is rounded the same way. \<open>int64_of\<close> is the conversion of a rounded value on amd64, which
  answers the least \<open>int64\<close> where no \<open>int64\<close> holds it.
\<close>

fun bits :: "nat \<Rightarrow> nat" where
  "bits n = (if n = 0 then 0 else Suc (bits (n div 2)))"

declare bits.simps [simp del]

definition float64_nat :: "nat \<Rightarrow> nat" where
  "float64_nat n = (let k = bits n - 53 in round_even n (2 ^ k) * 2 ^ k)"

definition int64_of :: "int \<Rightarrow> int" where
  "int64_of i = (if i < 2 ^ 63 then i else - (2 ^ 63))"

lemma bits_le: "bits n \<le> k \<longleftrightarrow> n < 2 ^ k"
proof (induction k arbitrary: n)
  case 0
  then show ?case by (subst bits.simps) simp
next
  case (Suc k)
  then show ?case by (subst bits.simps) (simp add: div_less_iff_less_mult mult.commute)
qed

lemma float64_exact:
  assumes "n < 2 ^ 53"
  shows "float64_nat (n * 2 ^ j) = n * 2 ^ j"
proof -
  define k where "k = bits (n * 2 ^ j) - 53"
  have "n * 2 ^ j < 2 ^ (53 + j)" using assms by (simp add: power_add)
  then have "k \<le> j" using bits_le [of "n * 2 ^ j" "53 + j"] by (simp add: k_def)
  then have e: "n * 2 ^ j = (n * 2 ^ (j - k)) * 2 ^ k" by (simp add: mult.assoc flip: power_add)
  have "round_even ((n * 2 ^ (j - k)) * 2 ^ k) (2 ^ k) = n * 2 ^ (j - k)" by (simp add: round_even_def)
  then have "round_even (n * 2 ^ j) (2 ^ k) * 2 ^ k = n * 2 ^ j" by (simp only: e)
  then show ?thesis by (simp add: float64_nat_def Let_def flip: k_def)
qed

lemma float64_at_least:
  assumes "2 ^ j \<le> n"
  shows "2 ^ j \<le> float64_nat n"
proof (cases "bits n \<le> 53")
  case True
  then show ?thesis using assms by (simp add: float64_nat_def round_even_def)
next
  case False
  define k where "k = bits n - 53"
  have "\<not> bits n \<le> 52 + k" using False unfolding k_def by linarith
  then have "\<not> n < 2 ^ (52 + k)" unfolding bits_le .
  then have "2 ^ 52 * 2 ^ k \<le> n" unfolding power_add not_less .
  then have "2 ^ 52 \<le> n div 2 ^ k" by (subst less_eq_div_iff_mult_less_eq) simp_all
  also have "\<dots> \<le> round_even n (2 ^ k)" by (simp add: round_even_def Let_def)
  finally have "2 ^ (52 + k) \<le> round_even n (2 ^ k) * 2 ^ k" by (simp add: power_add)
  moreover have "j < bits n" using assms bits_le [of n j] by linarith
  then have "(2::nat) ^ j \<le> 2 ^ (52 + k)" using False by (intro power_increasing) (simp_all add: k_def)
  ultimately have "2 ^ j \<le> round_even n (2 ^ k) * 2 ^ k" by linarith
  then show ?thesis by (simp add: float64_nat_def Let_def flip: k_def)
qed

end
