(* ===== verification/Pcq_Plan.thy ===== *)
theory Pcq_Plan
  imports Pcq_Limits Go_Float
begin

text \<open>
  The traffic-control plan of \<open>internal/pcq/plan.go\<close>: the argument vectors of the \<open>tc\<close> commands
  that shape the peers, and their one-line form for display. Rates are rounded as the code's \<open>float64\<close>
  rounds them and converted to \<open>int64\<close> as amd64 does. The counters of the loops are \<open>uint32\<close>, kept as
  32-bit words.
\<close>

section \<open>Rates\<close>

text \<open>
  \<open>float64(kbps) / 1024 * 1e6\<close>, kept as its multiple by 1024: the conversion and the product round, the division is
  exact. \<open>round_half\<close> is \<open>math.Round\<close> of a fraction, half away from zero.
\<close>

definition scaled_bits :: "int \<Rightarrow> nat" where
  "scaled_bits kbps = float64_nat (float64_nat (nat kbps) * 10 ^ 6)"

definition round_half :: "nat \<Rightarrow> nat \<Rightarrow> int" where
  "round_half n d = int ((2 * n + d) div (2 * d))"

definition rate_bits :: "int \<Rightarrow> int" where
  "rate_bits kbps = int64_of (max 8000 (round_half (scaled_bits kbps) 1024))"

definition kbpsToRateSpec :: "int \<Rightarrow> string" where
  "kbpsToRateSpec kbps = (if kbps \<le> 0 then [] else itoa (rate_bits kbps) @ ''bit'')"

text \<open>
  An eighth of the rate times 0.05, whose \<open>float64\<close> is \<open>3602879701896397 / 2 ^ 56\<close>.
\<close>

definition burst_bytes :: "int \<Rightarrow> int" where
  "burst_bytes kbps = int64_of (max 1600 (round_half (float64_nat (scaled_bits kbps * 3602879701896397)) (2 ^ 69)))"

definition burstBytesPreferringConfig :: "int \<Rightarrow> int \<Rightarrow> int" where
  "burstBytesPreferringConfig burstKbps rateKbps =
     (let fromRate = (if rateKbps > 0 then burst_bytes rateKbps else 0) in
      if burstKbps > 0 then
        (let fromBurst = burst_bytes burstKbps in
         if fromRate > 0 \<and> fromBurst > fromRate then fromRate else fromBurst)
      else if fromRate > 0 then fromRate
      else 12500)"

section \<open>Commands\<close>

type_synonym argv = "string list"
type_synonym limits = "(string \<times> peer_limit) list"

definition hex_str :: "32 word \<Rightarrow> string" where
  "hex_str w = nat_base 16 (unat w)"

definition limit_at :: "limits \<Rightarrow> string \<Rightarrow> peer_limit" where
  "limit_at peers ip = (case map_of peers ip of None \<Rightarrow> limit0 | Some pl \<Rightarrow> pl)"

definition download_root :: "string \<Rightarrow> argv list" where
  "download_root iface =
     [[''tc'', ''qdisc'', ''add'', ''dev'', iface, ''root'', ''handle'', ''1:'', ''htb'', ''default'', ''30''],
      [''tc'', ''class'', ''add'', ''dev'', iface, ''parent'', ''1:'', ''classid'', ''1:1'', ''htb'',
       ''rate'', ''100000mbit'', ''ceil'', ''100000mbit''],
      [''tc'', ''class'', ''add'', ''dev'', iface, ''parent'', ''1:1'', ''classid'', ''1:30'', ''htb'',
       ''rate'', ''100000mbit'', ''ceil'', ''100000mbit'', ''prio'', ''7'']]"

definition class_cmd :: "string \<Rightarrow> string \<Rightarrow> peer_limit \<Rightarrow> argv" where
  "class_cmd iface classStr pl =
     (let rateSpec = kbpsToRateSpec (l_download pl);
          b = itoa (burstBytesPreferringConfig (l_burst_download pl) (l_download pl)) in
      [''tc'', ''class'', ''add'', ''dev'', iface, ''parent'', ''1:1'', ''classid'', classStr,
       ''htb'', ''rate'', rateSpec, ''ceil'', rateSpec, ''prio'', ''5'']
      @ (if l_burst_download pl > 0 then [''burst'', b, ''cburst'', b] else []))"

definition filter_cmd :: "string \<Rightarrow> 32 word \<Rightarrow> string \<Rightarrow> string \<Rightarrow> argv" where
  "filter_cmd iface fi ip classStr =
     [''tc'', ''filter'', ''add'', ''dev'', iface, ''protocol'', ''ip'', ''parent'', ''1:'', ''prio'', nat_str (unat fi),
      ''u32'', ''match'', ''ip'', ''dst'', ip @ ''/32'', ''flowid'', classStr]"

text \<open>The download loop: \<open>minor\<close> names the class, \<open>fi\<close> orders the filters.\<close>

fun download_loop :: "string \<Rightarrow> limits \<Rightarrow> 32 word \<Rightarrow> 32 word \<Rightarrow> string list \<Rightarrow> argv list" where
  "download_loop iface peers fi minor [] = []"
| "download_loop iface peers fi minor (ip # ips) =
     (let pl = limit_at peers ip in
      if l_download pl \<le> 0 then download_loop iface peers fi minor ips
      else
        (let classStr = ''1:'' @ hex_str minor in
         if kbpsToRateSpec (l_download pl) = [] then download_loop iface peers fi (minor + 1) ips
         else
           [class_cmd iface classStr pl, filter_cmd iface fi ip classStr]
           @ (if minor + 1 > 0xFF00 then []
              else download_loop iface peers (fi + 1) (minor + 1) ips)))"

definition police_cmd :: "string \<Rightarrow> 32 word \<Rightarrow> string \<Rightarrow> peer_limit \<Rightarrow> argv" where
  "police_cmd iface pi ip pl =
     [''tc'', ''filter'', ''add'', ''dev'', iface, ''parent'', ''ffff:'', ''protocol'', ''ip'', ''prio'', nat_str (unat pi),
      ''u32'', ''match'', ''ip'', ''src'', ip @ ''/32'',
      ''police'', ''rate'', kbpsToRateSpec (l_upload pl), ''burst'',
      itoa (burstBytesPreferringConfig (l_burst_upload pl) (l_upload pl)),
      ''mtu'', ''1500'', ''conform-exceed'', ''drop'']"

fun upload_loop :: "string \<Rightarrow> limits \<Rightarrow> 32 word \<Rightarrow> string list \<Rightarrow> argv list" where
  "upload_loop iface peers pi [] = []"
| "upload_loop iface peers pi (ip # ips) =
     (let pl = limit_at peers ip in
      if l_upload pl \<le> 0 \<or> kbpsToRateSpec (l_upload pl) = [] then upload_loop iface peers pi ips
      else police_cmd iface pi ip pl # upload_loop iface peers (pi + 1) ips)"

definition peerShapeAppend :: "string \<Rightarrow> limits \<Rightarrow> argv list" where
  "peerShapeAppend iface peers =
     (if iface = [] \<or> peers = [] then []
      else
        (let keys = sort (map fst peers);
             needsDL = list_ex (\<lambda>ip. l_download (limit_at peers ip) > 0) keys;
             needsUL = list_ex (\<lambda>ip. l_upload (limit_at peers ip) > 0) keys in
         (if needsDL then download_root iface @ download_loop iface peers 50 100 keys else [])
         @ (if needsUL
            then [''tc'', ''qdisc'', ''add'', ''dev'', iface, ''handle'', ''ffff:'', ''ingress'']
                 # upload_loop iface peers 10 keys
            else [])))"

definition teardown :: "string \<Rightarrow> argv list" where
  "teardown iface =
     [[''sh'', ''-c'', ''tc qdisc del dev '' @ iface @ '' ingress 2>/dev/null || true''],
      [''sh'', ''-c'', ''tc qdisc del dev '' @ iface @ '' root 2>/dev/null || true'']]"

definition Plan :: "string \<Rightarrow> limits \<Rightarrow> argv list" where
  "Plan wgIface peers =
     (let iface = trim wgIface in
      if iface = [] \<or> peers = [] then teardown iface
      else teardown iface @ peerShapeAppend iface peers)"

definition PlanForPeers :: "string \<Rightarrow> limits \<Rightarrow> argv list" where
  "PlanForPeers wgIface peers = peerShapeAppend (trim wgIface) peers"

section \<open>Display\<close>

definition needs_quote :: "string \<Rightarrow> bool" where
  "needs_quote a \<longleftrightarrow> contains_any a ('' '' @ [chr_quote, chr_dquote] @ ''&|;<>`$'' @ [chr_nl]) \<or> a = []"

definition quote_arg :: "string \<Rightarrow> string" where
  "quote_arg a =
     (if needs_quote a
      then [chr_quote] @ replace_chr chr_quote [chr_quote, chr_bslash, chr_quote, chr_quote] a @ [chr_quote]
      else a)"

definition quotedJoin :: "argv \<Rightarrow> string" where
  "quotedJoin args = join '' '' (map quote_arg args)"

definition FormatPlan :: "argv list \<Rightarrow> string list" where
  "FormatPlan cmds = map quotedJoin cmds"

definition PlanCommands :: "db \<Rightarrow> string \<Rightarrow> string list" where
  "PlanCommands d wgIface = FormatPlan (Plan wgIface (LoadPeerLimits d))"

definition PlanCommandsForGroup :: "db \<Rightarrow> string \<Rightarrow> string \<Rightarrow> string list" where
  "PlanCommandsForGroup d wgIface groupID =
     (if filter (\<lambda>q. q_group q = groupID) (pcqs d) = [] then
        [''# No saved queue preset for this group yet.'',
         ''# Save Mbps caps below to preview shaping for this group'' @ [chr_quote] @ ''s members only.'',
         ''#'',
         ''# Live apply still merges presets from every group when computing caps per tunnel peer.'']
      else
        (let m = LoadPeerLimitsForGroup groupID d in
         if m = [] then
           [''# This group'' @ [chr_quote] @ ''s preset has no effective shaping lines yet:'',
            ''# set upload/download Mbps or ensure members use WireGuard with IPv4 tunnel addresses.'']
         else
           (let iface = trim wgIface in
            if iface = [] then
              [''# Configure a WireGuard interface name to preview interface-specific tc lines.'']
            else
              (let lines = FormatPlan (PlanForPeers iface m) in
               if lines = [] then [''# (No tc shaping lines for empty interface or limits.)''] else lines))))"

section \<open>The loops in closed form\<close>

text \<open>
  The \<open>i\<close>-th capped peer gets the class \<open>1:(100 + i)\<close>, in hexadecimal, and a filter of priority
  \<open>50 + i\<close>; the loop stops after class \<open>1:ff00\<close>, the 65181st.
\<close>

definition class_id :: "nat \<Rightarrow> string" where
  "class_id i = ''1:'' @ nat_base 16 (100 + i)"

definition shape_pair :: "string \<Rightarrow> limits \<Rightarrow> nat \<Rightarrow> string \<Rightarrow> argv list" where
  "shape_pair iface peers i ip =
     [class_cmd iface (class_id i) (limit_at peers ip), filter_cmd iface (word_of_nat (50 + i)) ip (class_id i)]"

fun shape_from :: "string \<Rightarrow> limits \<Rightarrow> nat \<Rightarrow> string list \<Rightarrow> argv list" where
  "shape_from iface peers i [] = []"
| "shape_from iface peers i (ip # ips) = shape_pair iface peers i ip @ shape_from iface peers (Suc i) ips"

abbreviation max_classes :: nat where "max_classes \<equiv> 65181"

lemma kbpsToRateSpec_Nil: "kbpsToRateSpec k = [] \<longleftrightarrow> k \<le> 0"
  by (simp add: kbpsToRateSpec_def)

lemma unat_small32: "n < 4294967296 \<Longrightarrow> unat (word_of_nat n :: 32 word) = n"
  by (simp add: unsigned_of_nat take_bit_eq_mod)

lemma minor_limit:
  assumes "i < max_classes"
  shows "(word_of_nat (100 + i) :: 32 word) + 1 > 0xFF00 \<longleftrightarrow> Suc i = max_classes"
proof -
  have "(word_of_nat (100 + i) :: 32 word) + 1 = word_of_nat (101 + i)" by (simp add: algebra_simps)
  moreover have "unat (word_of_nat (101 + i) :: 32 word) = 101 + i" using assms by (intro unat_small32) simp
  ultimately show ?thesis using assms by (simp only: word_less_nat_alt) auto
qed

lemma download_loop_closed:
  "i < max_classes \<Longrightarrow>
   download_loop iface peers (word_of_nat (50 + i)) (word_of_nat (100 + i)) ips
     = shape_from iface peers i
         (take (max_classes - i) (filter (\<lambda>ip. 0 < l_download (limit_at peers ip)) ips))"
proof (induction ips arbitrary: i)
  case Nil
  then show ?case by simp
next
  case (Cons ip ips)
  let ?f = "\<lambda>ip. 0 < l_download (limit_at peers ip)"
  show ?case
  proof (cases "?f ip")
    case False
    with Cons show ?thesis by (simp add: not_less)
  next
    case True
    have hex: "hex_str (word_of_nat (100 + i)) = nat_base 16 (100 + i)"
      using Cons.prems unat_small32 [of "100 + i"] by (simp add: hex_str_def)
    have step: "(word_of_nat (50 + i) :: 32 word) + 1 = word_of_nat (50 + Suc i)"
      "(word_of_nat (100 + i) :: 32 word) + 1 = word_of_nat (100 + Suc i)"
      by simp_all
    have tk: "take (max_classes - i) (ip # filter ?f ips) = ip # take (max_classes - Suc i) (filter ?f ips)"
      unfolding Suc_diff_Suc [OF Cons.prems, symmetric] by (rule take_Suc_Cons)
    show ?thesis
    proof (cases "Suc i = max_classes")
      case True
      have "download_loop iface peers (word_of_nat (50 + i)) (word_of_nat (100 + i)) (ip # ips)
          = shape_pair iface peers i ip"
        using \<open>?f ip\<close> True minor_limit [OF Cons.prems]
        by (simp only: download_loop.simps Let_def kbpsToRateSpec_Nil hex not_le [symmetric]
            shape_pair_def class_id_def if_False if_True append.simps append_Nil2 simp_thms)
      then show ?thesis using \<open>?f ip\<close> True
        by (simp only: tk filter.simps if_True shape_from.simps diff_self_eq_0 take_0 append_Nil2)
    next
      case False
      with Cons.prems have "Suc i < max_classes" by simp
      note IH = Cons.IH [OF this]
      have "download_loop iface peers (word_of_nat (50 + i)) (word_of_nat (100 + i)) (ip # ips)
          = shape_pair iface peers i ip
            @ download_loop iface peers (word_of_nat (50 + Suc i)) (word_of_nat (100 + Suc i)) ips"
        using \<open>?f ip\<close> False minor_limit [OF Cons.prems]
        by (simp only: download_loop.simps Let_def kbpsToRateSpec_Nil hex step not_le [symmetric]
            shape_pair_def class_id_def if_False if_True append.simps simp_thms)
      then show ?thesis using \<open>?f ip\<close> by (simp only: IH tk filter.simps if_True shape_from.simps)
    qed
  qed
qed

fun police_from :: "string \<Rightarrow> limits \<Rightarrow> 32 word \<Rightarrow> string list \<Rightarrow> argv list" where
  "police_from iface peers pi [] = []"
| "police_from iface peers pi (ip # ips) =
     police_cmd iface pi ip (limit_at peers ip) # police_from iface peers (pi + 1) ips"

lemma upload_loop_closed:
  "upload_loop iface peers pi ips
     = police_from iface peers pi (filter (\<lambda>ip. 0 < l_upload (limit_at peers ip)) ips)"
  by (induction ips arbitrary: pi) (simp_all add: Let_def kbpsToRateSpec_Nil not_le)

text \<open>The keys the plan caps, in the order of the loops.\<close>

definition capped :: "(peer_limit \<Rightarrow> int) \<Rightarrow> limits \<Rightarrow> string list" where
  "capped f peers = filter (\<lambda>ip. 0 < f (limit_at peers ip)) (sort (map fst peers))"

lemma capped_Nil [simp]: "capped f [] = []"
  by (simp add: capped_def)

definition ingress_cmd :: "string \<Rightarrow> argv" where
  "ingress_cmd iface = [''tc'', ''qdisc'', ''add'', ''dev'', iface, ''handle'', ''ffff:'', ''ingress'']"

lemma peerShapeAppend_closed:
  "iface \<noteq> [] \<Longrightarrow> peerShapeAppend iface peers =
     (if capped l_download peers = [] then []
      else download_root iface @ shape_from iface peers 0 (take max_classes (capped l_download peers)))
   @ (if capped l_upload peers = [] then []
      else ingress_cmd iface # police_from iface peers 10 (capped l_upload peers))"
  using download_loop_closed [of 0 iface peers "sort (map fst peers)"]
  by (cases "peers = []")
     (auto simp: peerShapeAppend_def Let_def upload_loop_closed capped_def ingress_cmd_def
        list_ex_iff filter_empty_conv)

section \<open>Every command finds what it refers to\<close>

text \<open>
  What \<open>tc\<close> requires of a command on a device: a class or a filter names a parent that
  exists, a filter a class that exists, and a new queueing discipline or class a handle that
  does not exist yet. \<open>plan_wf\<close> follows a list of commands from the handles that exist.
\<close>

fun arg_after :: "string \<Rightarrow> string list \<Rightarrow> string list" where
  "arg_after k (x # y # ys) = (if x = k then [y] else arg_after k (y # ys))"
| "arg_after k xs = []"

definition tc_creates :: "argv \<Rightarrow> string list" where
  "tc_creates c =
     (case c of
        t # obj # act # dev # ifc # rest \<Rightarrow>
          if obj = ''qdisc'' then arg_after ''handle'' rest
          else if obj = ''class'' then arg_after ''classid'' rest
          else []
      | _ \<Rightarrow> [])"

definition tc_uses :: "argv \<Rightarrow> string list" where
  "tc_uses c =
     (case c of
        t # obj # act # dev # ifc # rest \<Rightarrow> arg_after ''parent'' rest @ arg_after ''flowid'' rest
      | _ \<Rightarrow> [])"

definition tc_on :: "string \<Rightarrow> argv \<Rightarrow> bool" where
  "tc_on iface c \<longleftrightarrow> take 1 c = [''tc''] \<and> take 3 (drop 2 c) = [''add'', ''dev'', iface]"

fun plan_wf :: "string \<Rightarrow> string set \<Rightarrow> argv list \<Rightarrow> bool" where
  "plan_wf iface seen [] = True"
| "plan_wf iface seen (c # cs) =
     (tc_on iface c \<and> set (tc_uses c) \<subseteq> seen \<and> set (tc_creates c) \<inter> seen = {}
      \<and> plan_wf iface (set (tc_creates c) \<union> seen) cs)"

fun created :: "string set \<Rightarrow> argv list \<Rightarrow> string set" where
  "created seen [] = seen"
| "created seen (c # cs) = created (set (tc_creates c) \<union> seen) cs"

lemma plan_wf_append:
  "plan_wf iface seen (xs @ ys) \<longleftrightarrow> plan_wf iface seen xs \<and> plan_wf iface (created seen xs) ys"
  by (induction xs arbitrary: seen) auto

lemma created_append: "created seen (xs @ ys) = created (created seen xs) ys"
  by (induction xs arbitrary: seen) auto

lemma digits_neq_flowid: "nat_str n \<noteq> ''flowid''" "nat_str n @ x \<noteq> ''flowid''"
  using hd_nat_str_digit [of n] by (cases "nat_str n"; force simp: is_digit_def)+

lemma itoa_pos: "0 \<le> i \<Longrightarrow> itoa i = nat_str (nat i)"
  by (simp add: itoa_def)

lemma slash32_neq: "ip @ ''/32'' \<noteq> ''flowid''"
proof
  assume "ip @ ''/32'' = ''flowid''"
  then have "last (ip @ ''/32'') = last ''flowid''" by (rule arg_cong)
  then show False by simp
qed

lemma itoa_not_flowid: "itoa i \<noteq> ''flowid''" "itoa i @ x \<noteq> ''flowid''"
  using digits_neq_flowid by (auto simp: itoa_def)

lemma rate_not_flowid: "kbpsToRateSpec k \<noteq> ''flowid''"
  by (simp add: kbpsToRateSpec_def itoa_not_flowid)

lemmas not_flowid = rate_not_flowid itoa_not_flowid slash32_neq digits_neq_flowid

lemma class_cmd_handles:
  "tc_on iface (class_cmd iface c pl)"
  "tc_creates (class_cmd iface c pl) = [c]"
  "tc_uses (class_cmd iface (class_id i) pl) = [''1:1'']"
  by (simp_all add: class_id_def class_cmd_def Let_def tc_on_def tc_creates_def tc_uses_def not_flowid)

lemma filter_cmd_handles:
  "tc_on iface (filter_cmd iface f ip c)"
  "tc_creates (filter_cmd iface f ip c) = []"
  "tc_uses (filter_cmd iface f ip c) = [''1:'', c]"
  by (simp_all add: filter_cmd_def tc_on_def tc_creates_def tc_uses_def not_flowid)

lemma police_cmd_handles:
  "tc_on iface (police_cmd iface f ip pl)"
  "tc_creates (police_cmd iface f ip pl) = []"
  "tc_uses (police_cmd iface f ip pl) = [''ffff:'']"
  by (simp_all add: police_cmd_def tc_on_def tc_creates_def tc_uses_def not_flowid)

lemma download_root_handles:
  "plan_wf iface {} (download_root iface)"
  "created {} (download_root iface) = {''1:'', ''1:1'', ''1:30''}"
  by (auto simp: download_root_def tc_on_def tc_creates_def tc_uses_def)

lemma ingress_cmd_handles:
  "tc_on iface (ingress_cmd iface)"
  "tc_creates (ingress_cmd iface) = [''ffff:'']"
  "tc_uses (ingress_cmd iface) = []"
  by (simp_all add: ingress_cmd_def tc_on_def tc_creates_def tc_uses_def)

lemmas cmd_handles = class_cmd_handles filter_cmd_handles police_cmd_handles ingress_cmd_handles

text \<open>Hexadecimal numbers are read back, so distinct numbers name distinct classes.\<close>

lemma hex_digit: "n < 16 \<Longrightarrow> hex_digit_val (digit n) = n"
proof -
  have "\<forall>n \<in> set [0 ..< 16]. hex_digit_val (digit n) = n"
    by (simp add: upt_rec digit_def hex_digit_val_def)
  then show "n < 16 \<Longrightarrow> ?thesis" by simp
qed

lemma hex_val_nat_base: "hex_val (nat_base 16 n) = n"
proof (induction n rule: less_induct)
  case (less n)
  show ?case
  proof (cases "n < 16")
    case True
    then show ?thesis by (subst nat_base.simps) (simp add: hex_val_def hex_digit)
  next
    case False
    then have "hex_val (nat_base 16 (n div 16)) = n div 16" by (intro less) simp
    with False show ?thesis by (subst nat_base.simps) (simp add: hex_val_def hex_digit)
  qed
qed

lemma class_id_inj [simp]: "class_id i = class_id j \<longleftrightarrow> i = j"
proof
  assume "class_id i = class_id j"
  then have "hex_val (nat_base 16 (100 + i)) = hex_val (nat_base 16 (100 + j))"
    by (simp add: class_id_def)
  then show "i = j" by (simp add: hex_val_nat_base)
qed simp

lemma class_id_fresh: "class_id i \<notin> {''1:'', ''1:1'', ''1:30''}"
proof -
  have *: "hex_val s \<noteq> 100 + i \<Longrightarrow> class_id i \<noteq> ''1:'' @ s" for s
    using hex_val_nat_base [of "100 + i"] by (auto simp: class_id_def)
  have "hex_val [] = 0" "hex_val ''1'' = 1" "hex_val ''30'' = 48"
    by (simp_all add: hex_val_def hex_digit_val_def)
  then show ?thesis using * [of "[]"] * [of "''1''"] * [of "''30''"] by simp
qed

lemma class_id_not_ingress: "class_id i \<noteq> ''ffff:''"
  by (simp add: class_id_def)

lemma shape_from_wf:
  assumes "{''1:'', ''1:1''} \<subseteq> seen" and "\<forall>j \<ge> i. class_id j \<notin> seen"
  shows "plan_wf iface seen (shape_from iface peers i ips)
    \<and> created seen (shape_from iface peers i ips) = class_id ` {i ..< i + length ips} \<union> seen"
  using assms
proof (induction ips arbitrary: i seen)
  case Nil
  then show ?case by simp
next
  case (Cons ip ips)
  have "class_id ` {i ..< i + length (ip # ips)} = insert (class_id i) (class_id ` {Suc i ..< Suc i + length ips})"
  proof -
    have "{i ..< i + length (ip # ips)} = insert i {Suc i ..< Suc i + length ips}" by auto
    then show ?thesis by simp
  qed
  moreover have "plan_wf iface (insert (class_id i) seen) (shape_from iface peers (Suc i) ips)
      \<and> created (insert (class_id i) seen) (shape_from iface peers (Suc i) ips)
        = class_id ` {Suc i ..< Suc i + length ips} \<union> insert (class_id i) seen"
    using Cons.prems by (intro Cons.IH) auto
  ultimately show ?case using Cons.prems by (simp add: shape_pair_def cmd_handles)
qed

lemma police_from_wf:
  "''ffff:'' \<in> seen \<Longrightarrow> plan_wf iface seen (police_from iface peers pi ips)
     \<and> created seen (police_from iface peers pi ips) = seen"
  by (induction ips arbitrary: pi) (simp_all add: cmd_handles)

definition plan_handles :: "limits \<Rightarrow> string set" where
  "plan_handles peers =
     (if capped l_download peers = [] then {}
      else {''1:'', ''1:1'', ''1:30''} \<union> class_id ` {..< min max_classes (length (capped l_download peers))})
   \<union> (if capped l_upload peers = [] then {} else {''ffff:''})"

lemma peerShapeAppend_wf:
  assumes "iface \<noteq> []"
  shows "plan_wf iface {} (peerShapeAppend iface peers)
    \<and> created {} (peerShapeAppend iface peers) = plan_handles peers"
proof -
  let ?down = "if capped l_download peers = [] then []
      else download_root iface @ shape_from iface peers 0 (take max_classes (capped l_download peers))"
  let ?H = "if capped l_download peers = [] then {}
      else {''1:'', ''1:1'', ''1:30''} \<union> class_id ` {..< min max_classes (length (capped l_download peers))}"
  let ?up = "if capped l_upload peers = [] then []
      else ingress_cmd iface # police_from iface peers 10 (capped l_upload peers)"
  have down: "plan_wf iface {} ?down \<and> created {} ?down = ?H"
    using shape_from_wf [of "{''1:'', ''1:1'', ''1:30''}" 0 iface peers
        "take max_classes (capped l_download peers)"] class_id_fresh
    by (auto simp: plan_wf_append created_append download_root_handles atLeast0LessThan min.commute)
  have "''ffff:'' \<notin> ?H" using class_id_not_ingress by auto metis
  then have "plan_wf iface ?H ?up \<and> created ?H ?up = (if capped l_upload peers = [] then {} else {''ffff:''}) \<union> ?H"
    using police_from_wf [of "insert ''ffff:'' ?H" iface peers 10 "capped l_upload peers"]
    by (simp add: cmd_handles)
  with down show ?thesis
    unfolding peerShapeAppend_closed [OF assms] plan_wf_append created_append plan_handles_def by auto
qed

text \<open>
  C4. The plan is executable in order: from a device without queueing disciplines, every
  command of \<open>peerShapeAppend\<close> is on the device, names only parents and classes that earlier
  commands created, and creates no handle twice; in the end the handles are the roots that are
  needed and one class for each capped peer, up to class \<open>1:ff00\<close>.
\<close>

theorem plan_executable:
  "plan_wf (trim wgIface) {} (PlanForPeers wgIface peers)
   \<and> created {} (PlanForPeers wgIface peers) = (if trim wgIface = [] then {} else plan_handles peers)"
  using peerShapeAppend_wf [of "trim wgIface" peers]
  by (cases "trim wgIface = []") (auto simp: PlanForPeers_def peerShapeAppend_def)

section \<open>Each capped peer has its class\<close>

lemma set_shape_from:
  "c \<in> set (shape_from iface peers i ips)
     \<longleftrightarrow> (\<exists>k < length ips. c \<in> set (shape_pair iface peers (i + k) (ips ! k)))"
proof (induction ips arbitrary: i)
  case Nil
  then show ?case by simp
next
  case (Cons ip ips)
  have "(\<exists>k < length (ip # ips). c \<in> set (shape_pair iface peers (i + k) ((ip # ips) ! k)))
      \<longleftrightarrow> c \<in> set (shape_pair iface peers i ip)
        \<or> (\<exists>k < length ips. c \<in> set (shape_pair iface peers (Suc i + k) (ips ! k)))"
    by (auto simp: less_Suc_eq_0_disj)
  with Cons show ?case by simp
qed

lemma police_from_not_filter: "filter_cmd iface f ip c \<notin> set (police_from iface peers pi ips)"
  by (induction ips arbitrary: pi) (simp_all add: filter_cmd_def police_cmd_def)

lemma filter_in_pair:
  "filter_cmd iface f ip c \<in> set (shape_pair iface peers i x) \<longleftrightarrow>
     f = word_of_nat (50 + i) \<and> ip = x \<and> c = class_id i"
  by (auto simp: shape_pair_def filter_cmd_def class_cmd_def Let_def nat_str_inj simp flip: word_eq_iff_unsigned)

lemma filter_in_plan:
  assumes "trim wgIface \<noteq> []"
  shows "filter_cmd (trim wgIface) f ip c \<in> set (Plan wgIface peers) \<longleftrightarrow>
    (\<exists>k < min max_classes (length (capped l_download peers)).
       f = word_of_nat (50 + k) \<and> ip = capped l_download peers ! k \<and> c = class_id k)"
proof -
  have "filter_cmd (trim wgIface) f ip c \<notin> set (teardown (trim wgIface))"
    "filter_cmd (trim wgIface) f ip c \<notin> set (download_root (trim wgIface))"
    "filter_cmd (trim wgIface) f ip c \<noteq> ingress_cmd (trim wgIface)"
    by (simp_all add: teardown_def download_root_def ingress_cmd_def filter_cmd_def)
  with police_from_not_filter assms show ?thesis
    by (cases "peers = []")
       (auto simp: Plan_def Let_def peerShapeAppend_closed set_shape_from filter_in_pair)
qed

lemma class_in_plan:
  assumes "trim wgIface \<noteq> []" and "k < min max_classes (length (capped l_download peers))"
  shows "class_cmd (trim wgIface) (class_id k) (limit_at peers (capped l_download peers ! k))
    \<in> set (Plan wgIface peers)"
proof -
  have "peers \<noteq> []" "capped l_download peers \<noteq> []" using assms(2) by (auto simp: capped_def)
  with assms show ?thesis
    by (auto simp: Plan_def Let_def peerShapeAppend_closed set_shape_from shape_pair_def)
qed

text \<open>
  The plan gives each peer its own class: on a named interface, for limits with distinct
  addresses of which at most 65181 have a download cap, every capped peer has a filter in the
  plan that directs its address to a class created with its rate, all filters of the address
  lead to that class, and no other address is directed there.
\<close>

theorem plan_class_per_peer:
  assumes "trim wgIface \<noteq> []" and "distinct (map fst peers)"
    and "length (capped l_download peers) \<le> max_classes"
    and "map_of peers ip = Some pl" and "0 < l_download pl"
  shows "\<exists>f c. filter_cmd (trim wgIface) f ip c \<in> set (Plan wgIface peers)
    \<and> class_cmd (trim wgIface) c pl \<in> set (Plan wgIface peers)
    \<and> (\<forall>f' ip' c'. filter_cmd (trim wgIface) f' ip' c' \<in> set (Plan wgIface peers) \<longrightarrow> (ip' = ip) = (c' = c))"
proof -
  let ?ks = "capped l_download peers"
  have at: "limit_at peers ip = pl" using assms(4) by (simp add: limit_at_def)
  have "ip \<in> set ?ks"
    using assms(4,5) by (auto simp: capped_def at intro: map_of_SomeD image_eqI [of _ fst "(ip, pl)"])
  then obtain k where k: "k < length ?ks" "?ks ! k = ip" by (auto simp: in_set_conv_nth)
  then have km: "k < min max_classes (length ?ks)" using assms(3) by simp
  have d: "distinct ?ks" using assms(2) by (simp add: capped_def)
  show ?thesis
  proof (intro exI conjI allI impI)
    show "filter_cmd (trim wgIface) (word_of_nat (50 + k)) ip (class_id k) \<in> set (Plan wgIface peers)"
      using k km by (auto simp: filter_in_plan [OF assms(1)] simp del: of_nat_add)
    show "class_cmd (trim wgIface) (class_id k) pl \<in> set (Plan wgIface peers)"
      using class_in_plan [OF assms(1) km] by (simp add: k at)
    fix f' ip' c'
    assume "filter_cmd (trim wgIface) f' ip' c' \<in> set (Plan wgIface peers)"
    then obtain j where "j < length ?ks" "ip' = ?ks ! j" "c' = class_id j"
      by (auto simp: filter_in_plan [OF assms(1)])
    then show "(ip' = ip) = (c' = class_id k)" using k d by (auto simp: nth_eq_iff_index_eq)
  qed
qed

section \<open>What the queues do to an address\<close>

text \<open>
  The meaning of the commands in force on a device for one tunnel address, read off their arguments: a download passes
  the first filter that matches the address as destination and is held to the rate of the class the filter names; an upload is
  held to the rate of the first policing filter that matches the address as source.
\<close>

definition tc_args :: "string \<Rightarrow> string \<Rightarrow> argv \<Rightarrow> string list" where
  "tc_args kind key c = (if take 3 c = [''tc'', kind, ''add''] then arg_after key (drop 5 c) else [])"

definition download_rate :: "argv list \<Rightarrow> string \<Rightarrow> string list option" where
  "download_rate cmds ip =
     (case find (\<lambda>c. tc_args ''filter'' ''dst'' c = [ip @ ''/32'']) cmds of
        None \<Rightarrow> None
      | Some f \<Rightarrow> map_option (tc_args ''class'' ''rate'')
          (find (\<lambda>c. tc_args ''class'' ''classid'' c = tc_args ''filter'' ''flowid'' f) cmds))"

definition upload_rate :: "argv list \<Rightarrow> string \<Rightarrow> string list option" where
  "upload_rate cmds ip = map_option (tc_args ''filter'' ''rate'') (find (\<lambda>c. tc_args ''filter'' ''src'' c = [ip @ ''/32'']) cmds)"

text \<open>
  Every address is held to its own limits and no other address is limited; beyond class \<open>1:ff00\<close> there are no downloads to
  limit, so that the caps of the first 65181 addresses count.
\<close>

definition limits_hold :: "argv list \<Rightarrow> limits \<Rightarrow> bool" where
  "limits_hold cmds peers \<longleftrightarrow>
     (\<forall>ip. download_rate cmds ip =
            (if ip \<in> set (take max_classes (capped l_download peers)) then Some [kbpsToRateSpec (l_download (limit_at peers ip))] else None)
        \<and> upload_rate cmds ip =
            (if 0 < l_upload (limit_at peers ip) then Some [kbpsToRateSpec (l_upload (limit_at peers ip))] else None))"

lemma not_key:
  assumes "k \<in> {''dst'', ''src'', ''rate'', ''flowid'', ''classid''}"
  shows "nat_str n \<noteq> k" "itoa i \<noteq> k" "kbpsToRateSpec r \<noteq> k" "ip @ ''/32'' \<noteq> k" "class_id j \<noteq> k"
proof -
  have hd: "hd k \<in> set ''dsrfc''" "k \<noteq> []" "last k \<noteq> CHR ''2''" using assms by auto
  have d: "hd (nat_str n @ x) \<notin> set ''dsrfc''" for n x
    using nat_str_is_digit [of "hd (nat_str n)" n] by (auto simp: is_digit_def)
  show "nat_str n \<noteq> k" using d [of n "[]"] hd by auto
  have i: "hd (itoa i @ x) \<notin> set ''dsrfc''" for i x using d [of "nat i" x] by (simp add: itoa_def)
  show "itoa i \<noteq> k" using i [of i "[]"] hd by auto
  show "kbpsToRateSpec r \<noteq> k" using i [of "rate_bits r" "''bit''"] hd by (auto simp: kbpsToRateSpec_def)
  have "last (ip @ ''/32'') = CHR ''2''" by simp
  then show "ip @ ''/32'' \<noteq> k" using hd(3) by metis
  show "class_id j \<noteq> k" using hd by (auto simp: class_id_def)
qed

lemma cmd_args:
  "tc_args ''filter'' k (class_cmd iface c pl) = []"
  "tc_args ''class'' ''classid'' (class_cmd iface c pl) = [c]"
  "tc_args ''class'' ''rate'' (class_cmd iface (class_id j) pl) = [kbpsToRateSpec (l_download pl)]"
  "tc_args ''filter'' ''dst'' (filter_cmd iface f ip c) = [ip @ ''/32'']"
  "tc_args ''filter'' ''src'' (filter_cmd iface f ip (class_id j)) = []"
  "tc_args ''filter'' ''flowid'' (filter_cmd iface f ip c) = [c]"
  "tc_args ''class'' k (filter_cmd iface f ip c) = []"
  "tc_args ''filter'' ''dst'' (police_cmd iface p ip pl) = []"
  "tc_args ''filter'' ''src'' (police_cmd iface p ip pl) = [ip @ ''/32'']"
  "tc_args ''filter'' ''rate'' (police_cmd iface p ip pl) = [kbpsToRateSpec (l_upload pl)]"
  "tc_args ''class'' k (police_cmd iface p ip pl) = []"
  by (simp_all add: tc_args_def class_cmd_def filter_cmd_def police_cmd_def Let_def not_key)

lemma root_args:
  "c \<in> set (download_root iface) \<Longrightarrow> tc_args ''filter'' k c = []"
  "c \<in> set (download_root iface) \<Longrightarrow> tc_args ''class'' ''classid'' c \<noteq> [class_id j]"
  "tc_args ''filter'' k (ingress_cmd iface) = []" "tc_args ''class'' k (ingress_cmd iface) = []"
  using class_id_fresh [of j] by (auto simp: download_root_def ingress_cmd_def tc_args_def)

lemma find_append: "find P (xs @ ys) = (case find P xs of None \<Rightarrow> find P ys | Some x \<Rightarrow> Some x)"
  by (induction xs) simp_all

lemma shape_filter:
  "case find (\<lambda>c. tc_args ''filter'' ''dst'' c = [ip @ ''/32'']) (shape_from iface peers i ips) of
     None \<Rightarrow> ip \<notin> set ips
   | Some f \<Rightarrow> \<exists>j < length ips. ips ! j = ip \<and> tc_args ''filter'' ''flowid'' f = [class_id (i + j)]"
proof (induction ips arbitrary: i)
  case (Cons x xs)
  show ?case
  proof (cases "x = ip")
    case True
    then show ?thesis by (auto simp: shape_pair_def cmd_args intro!: exI [of _ 0])
  next
    case False
    let ?f = "find (\<lambda>c. tc_args ''filter'' ''dst'' c = [ip @ ''/32'']) (shape_from iface peers (Suc i) xs)"
    have f: "find (\<lambda>c. tc_args ''filter'' ''dst'' c = [ip @ ''/32'']) (shape_from iface peers i (x # xs)) = ?f"
      using False by (simp add: shape_pair_def cmd_args)
    show ?thesis
    proof (cases ?f)
      case None
      then show ?thesis using Cons [of "Suc i"] False unfolding f by simp
    next
      case (Some c)
      then obtain j where "j < length xs" "xs ! j = ip" "tc_args ''filter'' ''flowid'' c = [class_id (Suc i + j)]"
        using Cons [of "Suc i"] by auto
      then show ?thesis unfolding f Some by (auto intro!: exI [of _ "Suc j"])
    qed
  qed
qed simp

lemma shape_class:
  "j < length ips \<Longrightarrow> find (\<lambda>c. tc_args ''class'' ''classid'' c = [class_id (i + j)]) (shape_from iface peers i ips)
     = Some (class_cmd iface (class_id (i + j)) (limit_at peers (ips ! j)))"
proof (induction ips arbitrary: i j)
  case (Cons x xs)
  then show ?case using Cons.IH [of "j - 1" "Suc i"] by (cases j) (simp_all add: shape_pair_def cmd_args)
qed simp

lemma police_rate:
  "map_option (tc_args ''filter'' ''rate'') (find (\<lambda>c. tc_args ''filter'' ''src'' c = [ip @ ''/32'']) (police_from iface peers p ips))
     = (if ip \<in> set ips then Some [kbpsToRateSpec (l_upload (limit_at peers ip))] else None)"
  by (induction ips arbitrary: p) (auto simp: cmd_args)

lemma police_silent:
  "c \<in> set (police_from iface peers p ips) \<Longrightarrow> tc_args ''filter'' ''dst'' c = [] \<and> tc_args ''class'' k c = []"
  by (induction ips arbitrary: p) (auto simp: cmd_args)

lemma shape_silent: "c \<in> set (shape_from iface peers i ips) \<Longrightarrow> tc_args ''filter'' ''src'' c = []"
  by (induction ips arbitrary: i) (auto simp: shape_pair_def cmd_args)

lemma upload_capped:
  assumes "f limit0 = (0::int)"
  shows "ip \<in> set (capped f peers) \<longleftrightarrow> 0 < f (limit_at peers ip)"
proof -
  have "ip \<in> fst ` set peers" if "0 < f (limit_at peers ip)"
    using that assms by (force simp: limit_at_def split: option.splits dest: map_of_SomeD)
  then show ?thesis by (auto simp: capped_def)
qed

lemma find_none: "(\<And>x. x \<in> set xs \<Longrightarrow> \<not> P x) \<Longrightarrow> find P xs = None"
  by (simp add: find_None_iff)

lemma download_part:
  assumes "\<And>c. c \<in> set rest \<Longrightarrow> tc_args ''filter'' ''dst'' c = []"
    "\<And>c k. c \<in> set rest \<Longrightarrow> tc_args ''class'' k c = []"
  shows "download_rate (download_root iface @ shape_from iface peers 0 ks @ rest) ip =
      (if ip \<in> set ks then Some [kbpsToRateSpec (l_download (limit_at peers ip))] else None)"
proof -
  let ?F = "\<lambda>c. tc_args ''filter'' ''dst'' c = [ip @ ''/32'']"
  have "find ?F (download_root iface) = None" "find ?F rest = None" by (rule find_none, simp add: root_args assms)+
  then have f: "find ?F (download_root iface @ shape_from iface peers 0 ks @ rest) = find ?F (shape_from iface peers 0 ks)"
    by (simp add: find_append split: option.split)
  show ?thesis
  proof (cases "find ?F (shape_from iface peers 0 ks)")
    case None
    then show ?thesis using shape_filter [where ip = ip and iface = iface and peers = peers and i = 0 and ips = ks] by (simp add: download_rate_def f)
  next
    case (Some c)
    then obtain j where j: "j < length ks" "ks ! j = ip" "tc_args ''filter'' ''flowid'' c = [class_id j]"
      using shape_filter [where ip = ip and iface = iface and peers = peers and i = 0 and ips = ks] by auto
    have "find (\<lambda>c. tc_args ''class'' ''classid'' c = [class_id j]) (download_root iface) = None"
      by (rule find_none) (rule root_args(2))
    then have "find (\<lambda>c. tc_args ''class'' ''classid'' c = [class_id j]) (download_root iface @ shape_from iface peers 0 ks @ rest)
        = Some (class_cmd iface (class_id j) (limit_at peers ip))"
      using shape_class [of j ks 0 iface peers] j by (simp add: find_append)
    moreover have "ip \<in> set ks" using j by auto
    ultimately show ?thesis by (simp add: download_rate_def f Some j(3) cmd_args)
  qed
qed

text \<open>The plan holds every address to its limits.\<close>

lemma plan_holds:
  assumes "iface \<noteq> []"
  shows "limits_hold (peerShapeAppend iface peers) peers"
proof -
  let ?ks = "take max_classes (capped l_download peers)"
  let ?down = "if capped l_download peers = [] then [] else download_root iface @ shape_from iface peers 0 ?ks"
  let ?up = "if capped l_upload peers = [] then [] else ingress_cmd iface # police_from iface peers 10 (capped l_upload peers)"
  have up: "tc_args ''filter'' ''dst'' c = []" "tc_args ''class'' k c = []" if "c \<in> set ?up" for c k
    using that police_silent root_args(3,4) by (auto split: if_splits)
  have none: "find (\<lambda>c. tc_args ''filter'' ''dst'' c = [ip @ ''/32'']) ?up = None" for ip using up(1) by (intro find_none) simp
  have down: "tc_args ''filter'' ''src'' c = []" if "c \<in> set ?down" for c
    using that root_args(1) shape_silent by (auto split: if_splits)
  have src: "find (\<lambda>c. tc_args ''filter'' ''src'' c = [ip @ ''/32'']) ?down = None" for ip using down by (intro find_none) simp
  have "download_rate (?down @ ?up) ip = (if ip \<in> set ?ks then Some [kbpsToRateSpec (l_download (limit_at peers ip))] else None)" for ip
  proof (cases "capped l_download peers = []")
    case True
    then show ?thesis using none [of ip] by (simp add: download_rate_def)
  next
    case False
    then have "?down @ ?up = download_root iface @ shape_from iface peers 0 ?ks @ ?up" by simp
    then show ?thesis using download_part [of ?up iface peers ?ks ip] up by simp
  qed
  moreover have "upload_rate (?down @ ?up) ip
      = (if 0 < l_upload (limit_at peers ip) then Some [kbpsToRateSpec (l_upload (limit_at peers ip))] else None)" for ip
    using police_rate [of ip iface peers 10 "capped l_upload peers"] upload_capped [of l_upload ip peers]
    by (auto simp: upload_rate_def find_append src root_args limit0_def split: if_splits)
  ultimately show ?thesis unfolding limits_hold_def peerShapeAppend_closed [OF assms] by blast
qed

text \<open>
  A cap stored as \<open>m\<close> times 1024 kb/s, which is what the forms store for \<open>m\<close> Mbps, becomes a rate of \<open>m\<close> million
  bits per second as long as 15625 \<open>m\<close> has 53 bits; from 9223372036855 Mbps on no \<open>int64\<close> holds the rate.
\<close>

lemma scaled_exact:
  assumes "m < 2 ^ 53"
  shows "scaled_bits (1024 * int m) = float64_nat (m * 15625 * 2 ^ 16)"
proof -
  have "nat (1024 * int m) = m * 2 ^ 10" by (simp add: nat_mult_distrib)
  then have "scaled_bits (1024 * int m) = float64_nat (m * 2 ^ 10 * 10 ^ 6)" using float64_exact [OF assms, of 10] by (simp add: scaled_bits_def)
  moreover have "m * 2 ^ 10 * 10 ^ 6 = m * 15625 * 2 ^ 16" by simp
  ultimately show ?thesis by (simp only:)
qed

lemma rate_exact:
  assumes "0 < m" and "m * 15625 < 2 ^ 53"
  shows "rate_bits (1024 * int m) = 1000000 * int m"
proof -
  have "scaled_bits (1024 * int m) = m * 15625 * 2 ^ 16"
    using scaled_exact [of m] float64_exact [OF assms(2), of 16] assms(2) by simp
  then have "round_half (scaled_bits (1024 * int m)) 1024 = int ((1024 + m * 1000000 * 2048) div 2048)"
    by (simp add: round_half_def algebra_simps)
  also have "(1024 + m * 1000000 * 2048) div 2048 = m * 1000000 + 1024 div 2048" by (rule div_mult_self1) simp
  finally show ?thesis using assms by (simp add: rate_bits_def int64_of_def)
qed

lemma rate_overflows:
  assumes "9223372036855 \<le> m" and "m < 2 ^ 53"
  shows "rate_bits (1024 * int m) = - (2 ^ 63)"
proof -
  have "(2::nat) ^ 73 \<le> m * 15625 * 2 ^ 16" using assms(1) by simp
  from float64_at_least [OF this] have "2 ^ 73 \<le> scaled_bits (1024 * int m)" using scaled_exact [OF assms(2)] by simp
  then have "2 ^ 63 \<le> (2 * scaled_bits (1024 * int m) + 1024) div 2048" by simp
  then have "2 ^ 63 \<le> round_half (scaled_bits (1024 * int m)) 1024" by (simp add: round_half_def)
  then show ?thesis by (simp add: rate_bits_def int64_of_def)
qed

section \<open>The displayed lines read back\<close>

text \<open>
  How a POSIX shell splits a simple command into words: blanks separate, single quotes keep
  everything, a backslash keeps the next character, and an unquoted character with a meaning
  of its own is no part of a simple command.
\<close>

datatype sh_mode = Unquoted | Quoted | Escaped

definition sh_meta :: "char \<Rightarrow> bool" where
  "sh_meta c \<longleftrightarrow> c \<in> set (''&|;<>`$()*?[#~{}!'' @ [chr_dquote, chr_nl, chr_tab])"

fun sh_split :: "sh_mode \<Rightarrow> string option \<Rightarrow> string \<Rightarrow> string list option" where
  "sh_split Unquoted None [] = Some []"
| "sh_split Unquoted (Some w) [] = Some [w]"
| "sh_split _ _ [] = None"
| "sh_split Quoted w (c # s) =
     (if c = chr_quote then sh_split Unquoted w s else sh_split Quoted (map_option (\<lambda>x. x @ [c]) w) s)"
| "sh_split Escaped w (c # s) = sh_split Unquoted (map_option (\<lambda>x. x @ [c]) w) s"
| "sh_split Unquoted w (c # s) =
     (let w' = Some (case w of None \<Rightarrow> [] | Some x \<Rightarrow> x) in
      if c = CHR '' '' then
        (case w of None \<Rightarrow> sh_split Unquoted None s
         | Some x \<Rightarrow> map_option (\<lambda>ws. x # ws) (sh_split Unquoted None s))
      else if c = chr_quote then sh_split Quoted w' s
      else if c = chr_bslash then sh_split Escaped w' s
      else if sh_meta c then None
      else sh_split Unquoted (map_option (\<lambda>x. x @ [c]) w') s)"

text \<open>Arguments that \<open>quotedJoin\<close> leaves bare and that hold a character only a shell knows.\<close>

definition sh_safe :: "string \<Rightarrow> bool" where
  "sh_safe a \<longleftrightarrow> needs_quote a \<or> (\<forall>c \<in> set a. \<not> sh_meta c \<and> c \<noteq> chr_bslash)"

lemma sh_split_quoted:
  "sh_split Quoted (Some w)
     (replace_chr chr_quote [chr_quote, chr_bslash, chr_quote, chr_quote] a @ chr_quote # rest)
   = sh_split Unquoted (Some (w @ a)) rest"
  by (induction a arbitrary: w) (simp_all add: replace_chr_def)

lemma sh_split_bare:
  "\<forall>c \<in> set a. c \<noteq> CHR '' '' \<and> c \<noteq> chr_quote \<and> c \<noteq> chr_bslash \<and> \<not> sh_meta c \<Longrightarrow>
   sh_split Unquoted (Some w) (a @ rest) = sh_split Unquoted (Some (w @ a)) rest"
  by (induction a arbitrary: w) simp_all

lemma sh_split_arg:
  assumes "sh_safe a"
  shows "sh_split Unquoted None (quote_arg a @ rest) = sh_split Unquoted (Some a) rest"
proof (cases "needs_quote a")
  case True
  then show ?thesis using sh_split_quoted [of "[]" a rest] by (simp add: quote_arg_def)
next
  case False
  then obtain c t where a: "a = c # t" by (cases a) (auto simp: needs_quote_def)
  have "\<forall>c \<in> set a. c \<noteq> CHR '' '' \<and> c \<noteq> chr_quote \<and> c \<noteq> chr_bslash \<and> \<not> sh_meta c"
    using False assms by (auto simp: needs_quote_def contains_any_def list_ex_iff sh_safe_def)
  with a False show ?thesis using sh_split_bare [of t "[c]" rest] by (simp add: quote_arg_def)
qed

lemma sh_split_join:
  "\<forall>a \<in> set args. sh_safe a \<Longrightarrow> sh_split Unquoted None (join '' '' (map quote_arg args)) = Some args"
proof (induction args rule: induct_list012)
  case 1
  then show ?case by simp
next
  case (2 a)
  then show ?case using sh_split_arg [of a "[]"] by simp
next
  case (3 a b args)
  then show ?case by (simp add: sh_split_arg)
qed

text \<open>
  The lines shown to the administrator are the commands: a POSIX shell splits every line
  of \<open>FormatPlan\<close> into exactly the arguments of its command, as long as an argument without
  blank, quote or redirection character holds none of the further characters the shell gives
  a meaning to.
\<close>

theorem FormatPlan_reads_back:
  assumes "\<forall>c \<in> set cmds. \<forall>a \<in> set c. sh_safe a"
  shows "map (sh_split Unquoted None) (FormatPlan cmds) = map Some cmds"
  using assms by (simp add: FormatPlan_def quotedJoin_def sh_split_join)

section \<open>Witnesses\<close>

definition ex_limits :: limits where
  "ex_limits = [(''10.8.0.3'', ex_limit 2048 0), (''10.8.0.2'', ex_limit 1024 1024)]"

lemma ex_capped: "capped l_download ex_limits = [''10.8.0.2'', ''10.8.0.3'']"
proof -
  have "sort [''10.8.0.3'', ''10.8.0.2''] = [''10.8.0.2'', ''10.8.0.3'']"
    by (simp add: less_eq_char_def)
  then show ?thesis by (simp add: capped_def ex_limits_def limit_at_def ex_limit_def)
qed

lemma plan_class_per_peer_witness:
  "\<exists>f c. filter_cmd ''wg0'' f ''10.8.0.3'' c \<in> set (Plan ''wg0'' ex_limits)
    \<and> class_cmd ''wg0'' c (ex_limit 2048 0) \<in> set (Plan ''wg0'' ex_limits)
    \<and> (\<forall>f' ip' c'. filter_cmd ''wg0'' f' ip' c' \<in> set (Plan ''wg0'' ex_limits)
          \<longrightarrow> (ip' = ''10.8.0.3'') = (c' = c))"
proof -
  have "trim ''wg0'' = ''wg0''" by (simp add: str_eval)
  then show ?thesis
    using plan_class_per_peer [of "''wg0''" ex_limits "''10.8.0.3''" "ex_limit 2048 0"] ex_capped
    by (simp add: ex_limits_def ex_limit_def)
qed

lemma FormatPlan_reads_back_witness:
  "map (sh_split Unquoted None) (FormatPlan (teardown ''wg0'')) = map Some (teardown ''wg0'')"
  by (rule FormatPlan_reads_back)
     (simp add: teardown_def sh_safe_def needs_quote_def contains_any_def sh_meta_def)

end
