(* ===== verification/Pcq_Apply.thy ===== *)
theory Pcq_Apply
  imports Pcq_Plan
begin

text \<open>
  Executing a plan: \<open>internal/pcq/apply.go\<close> and the Linux runner of
  \<open>internal/pcq/apply_linux.go\<close>. The programs \<open>sh\<close> and \<open>tc\<close> are a parameter, a function from
  argument vector and machine state to the new state, the error text if the exit status is
  not zero, and the output. The mutex makes runs of \<open>Apply\<close> sequential; logging is left out.
\<close>

section \<open>The code\<close>

type_synonym 's exec = "argv \<Rightarrow> 's \<Rightarrow> 's \<times> string option \<times> string"

fun runCommands :: "'s exec \<Rightarrow> argv list \<Rightarrow> 's \<Rightarrow> 's \<times> goerr option" where
  "runCommands exec [] s = (s, None)"
| "runCommands exec (c # cs) s =
     (case c of
        [] \<Rightarrow> runCommands exec cs s
      | prog # _ \<Rightarrow>
          (case exec c s of
             (s', None, _) \<Rightarrow> runCommands exec cs s'
           | (s', Some err, out) \<Rightarrow>
               (s', Some (ErrMsg (prog @ '': '' @ err @ '': '' @ trim out)))))"

definition Apply :: "'s exec \<Rightarrow> db \<Rightarrow> string \<Rightarrow> bool \<Rightarrow> 's \<Rightarrow> 's \<times> string list \<times> goerr option" where
  "Apply exec d wgIface disabled s =
     (let peers = (if disabled then [] else LoadPeerLimits d);
          cmds = Plan wgIface peers;
          lines = FormatPlan cmds;
          (s', err) = runCommands exec cmds s in
      (s', lines, err))"

text \<open>The data of the log entries (\<open>debug_log.go\<close>).\<close>

definition summarizePeerDirections :: "limits \<Rightarrow> bool \<times> bool" where
  "summarizePeerDirections peers =
     (list_ex (\<lambda>(_, pl). l_download pl > 0) peers, list_ex (\<lambda>(_, pl). l_upload pl > 0) peers)"

definition peersApplyRecords :: "limits \<Rightarrow> (string \<times> peer_limit) list" where
  "peersApplyRecords peers = map (\<lambda>ip. (ip, limit_at peers ip)) (sort (map fst peers))"

section \<open>The runner stops at the first failure\<close>

definition runs :: "'s exec \<Rightarrow> argv list \<Rightarrow> 's \<Rightarrow> 's" where
  "runs exec cs s = foldl (\<lambda>s c. fst (exec c s)) s (filter (\<lambda>c. c \<noteq> []) cs)"

definition succeeds :: "'s exec \<Rightarrow> argv \<Rightarrow> 's \<Rightarrow> bool" where
  "succeeds exec c s \<longleftrightarrow> fst (snd (exec c s)) = None"

lemma runs_Nil [simp]: "runs exec [] s = s"
  by (simp add: runs_def)

lemma runs_Cons [simp]: "runs exec (c # cs) s = (if c = [] then runs exec cs s else runs exec cs (fst (exec c s)))"
  by (simp add: runs_def)

lemma runCommands_ok:
  "snd (runCommands exec cs s) = None \<Longrightarrow> fst (runCommands exec cs s) = runs exec cs s"
  by (induction cs arbitrary: s) (auto split: list.splits prod.splits option.splits)

lemma runCommands_fail:
  "snd (runCommands exec cs s) = Some e \<Longrightarrow>
   \<exists>pre c post. cs = pre @ c # post \<and> c \<noteq> [] \<and> snd (runCommands exec pre s) = None
     \<and> \<not> succeeds exec c (runs exec pre s) \<and> fst (runCommands exec cs s) = fst (exec c (runs exec pre s))"
proof (induction cs arbitrary: s)
  case Nil
  then show ?case by simp
next
  case (Cons c cs)
  show ?case
  proof (cases "c = [] \<or> succeeds exec c s")
    case True
    define s1 where "s1 = (if c = [] then s else fst (exec c s))"
    have step: "runCommands exec (c # xs) s = runCommands exec xs s1" for xs
      using True by (auto simp: s1_def succeeds_def split: list.splits prod.splits option.splits)
    have runs1: "runs exec (c # xs) s = runs exec xs s1" for xs by (simp add: s1_def)
    from Cons.prems have "snd (runCommands exec cs s1) = Some e" by (simp only: step)
    from Cons.IH [OF this] obtain pre c' post where
      "cs = pre @ c' # post" "c' \<noteq> []" "snd (runCommands exec pre s1) = None"
      "\<not> succeeds exec c' (runs exec pre s1)"
      "fst (runCommands exec cs s1) = fst (exec c' (runs exec pre s1))" by blast
    then have "c # cs = (c # pre) @ c' # post \<and> c' \<noteq> [] \<and> snd (runCommands exec (c # pre) s) = None
      \<and> \<not> succeeds exec c' (runs exec (c # pre) s)
      \<and> fst (runCommands exec (c # cs) s) = fst (exec c' (runs exec (c # pre) s))"
      by (simp only: step runs1) simp
    then show ?thesis by blast
  next
    case False
    then have "c # cs = [] @ c # cs \<and> c \<noteq> [] \<and> snd (runCommands exec [] s) = None
      \<and> \<not> succeeds exec c (runs exec [] s)
      \<and> fst (runCommands exec (c # cs) s) = fst (exec c (runs exec [] s))"
      by (auto simp: succeeds_def split: list.splits prod.splits option.splits)
    then show ?thesis by blast
  qed
qed

text \<open>
  A plan is applied up to its first failing command and no further: \<open>runCommands\<close> returns
  no error exactly when it ran every command and each succeeded; otherwise the commands split
  into a part that ran with success, the command that failed, and a part that was not run.
\<close>

theorem runCommands_first_failure:
  "case runCommands exec cs s of
     (s', None) \<Rightarrow> s' = runs exec cs s
   | (s', Some e) \<Rightarrow> \<exists>pre c post. cs = pre @ c # post \<and> snd (runCommands exec pre s) = None
       \<and> \<not> succeeds exec c (runs exec pre s) \<and> s' = fst (exec c (runs exec pre s))"
  using runCommands_ok [of exec cs s] runCommands_fail [of exec cs s]
  by (cases "runCommands exec cs s"; cases "snd (runCommands exec cs s)") auto

section \<open>Applying installs the plan\<close>

text \<open>
  The objects on the device are described by the \<open>add\<close> commands that are in force there, with their rates, addresses and
  priorities, in the order they were given. \<open>tc\<close> documents that an \<open>add\<close> installs its object or fails and
  changes nothing; when it fails is left to it. The shell lines end in \<open>|| true\<close>, so that they exit with 0
  whether the deletion worked or not.
\<close>

definition tc_contract :: "'s exec \<Rightarrow> ('s \<Rightarrow> argv list) \<Rightarrow> string \<Rightarrow> bool" where
  "tc_contract exec installed iface \<longleftrightarrow>
     (\<forall>s. \<forall>c \<in> set (teardown iface). succeeds exec c s)
   \<and> (\<forall>s c. tc_on iface c \<longrightarrow>
        installed (fst (exec c s)) = (if succeeds exec c s then installed s @ [c] else installed s))"

text \<open>The two deletions, run in this state, leave nothing on the device.\<close>

definition clears :: "'s exec \<Rightarrow> ('s \<Rightarrow> argv list) \<Rightarrow> string \<Rightarrow> 's \<Rightarrow> bool" where
  "clears exec installed iface s \<longleftrightarrow> installed (runs exec (teardown iface) s) = []"

lemma runCommands_Cons_ok:
  "c \<noteq> [] \<Longrightarrow> succeeds exec c s \<Longrightarrow> runCommands exec (c # cs) s = runCommands exec cs (fst (exec c s))"
  by (cases c) (auto simp: succeeds_def split: prod.splits)

lemma runCommands_Cons_fail:
  "c \<noteq> [] \<Longrightarrow> \<not> succeeds exec c s \<Longrightarrow> \<exists>e. runCommands exec (c # cs) s = (fst (exec c s), Some e)"
  by (cases c) (auto simp: succeeds_def split: prod.splits option.split)

text \<open>What a run of \<open>add\<close> commands installs: all of them, or those before the first that \<open>tc\<close> refuses.\<close>

definition installs_upto :: "'s exec \<Rightarrow> ('s \<Rightarrow> argv list) \<Rightarrow> argv list \<Rightarrow> 's \<Rightarrow> goerr option \<Rightarrow> bool" where
  "installs_upto exec installed q s' err \<longleftrightarrow>
     (case err of
        None \<Rightarrow> installed s' = q
      | Some _ \<Rightarrow> \<exists>p c r s. q = p @ c # r \<and> installed s' = p \<and> \<not> succeeds exec c s \<and> s' = fst (exec c s))"

lemma runCommands_installs:
  assumes "tc_contract exec installed iface" and "\<forall>c \<in> set cs. tc_on iface c" and "runCommands exec cs s = (s', err)"
  shows "installs_upto exec installed (installed s @ cs) s' err"
  using assms(2,3)
proof (induction cs arbitrary: s)
  case Nil
  then show ?case by (simp add: installs_upto_def)
next
  case (Cons c cs)
  then have on: "tc_on iface c" and ne: "c \<noteq> []" by (auto simp: tc_on_def)
  then have i: "installed (fst (exec c s)) = (if succeeds exec c s then installed s @ [c] else installed s)"
    using assms(1) by (simp add: tc_contract_def)
  show ?case
  proof (cases "succeeds exec c s")
    case True
    then show ?thesis using Cons.IH [of "fst (exec c s)"] Cons.prems i runCommands_Cons_ok [OF ne True, of cs] by simp
  next
    case False
    then obtain e where e: "s' = fst (exec c s)" "err = Some e"
      using Cons.prems(2) runCommands_Cons_fail [OF ne False, of cs] by auto
    have "installed s @ c # cs = installed s @ c # cs \<and> installed s' = installed s \<and> \<not> succeeds exec c s \<and> s' = fst (exec c s)"
      using False i e(1) by simp
    then have "\<exists>p c' r s0. installed s @ c # cs = p @ c' # r \<and> installed s' = p \<and> \<not> succeeds exec c' s0 \<and> s' = fst (exec c' s0)"
      by blast
    then show ?thesis using e(2) by (simp add: installs_upto_def)
  qed
qed

lemma plan_wf_on: "plan_wf iface seen cs \<Longrightarrow> c \<in> set cs \<Longrightarrow> tc_on iface c"
  by (induction cs arbitrary: seen) auto

lemma runCommands_teardown:
  assumes "\<forall>s. \<forall>c \<in> set (teardown iface). succeeds exec c s"
  shows "runCommands exec (teardown iface @ cs) s = runCommands exec cs (runs exec (teardown iface) s)"
proof -
  obtain a b where ab: "teardown iface = [a, b]" "a \<noteq> []" "b \<noteq> []" by (simp add: teardown_def)
  then show ?thesis using assms by (simp add: runCommands_Cons_ok del: runCommands.simps(2))
qed

lemma Plan_split: "trim wgIface \<noteq> [] \<Longrightarrow> Plan wgIface peers = teardown (trim wgIface) @ peerShapeAppend (trim wgIface) peers"
  by (simp add: Plan_def Let_def peerShapeAppend_def)

text \<open>The queues the limits ask for.\<close>

definition wanted :: "db \<Rightarrow> string \<Rightarrow> bool \<Rightarrow> argv list" where
  "wanted d iface disabled = (if disabled then [] else peerShapeAppend iface (LoadPeerLimits d))"

lemma Apply_leaves:
  assumes "tc_contract exec installed (trim wgIface)" and "trim wgIface \<noteq> []" and "clears exec installed (trim wgIface) s"
    and "Apply exec d wgIface disabled s = (s', lines, err)"
  shows "installs_upto exec installed (wanted d (trim wgIface) disabled) s' err"
proof -
  let ?i = "trim wgIface" and ?s = "runs exec (teardown (trim wgIface)) s"
  define p where "p = (if disabled then [] else LoadPeerLimits d)"
  define q where "q = peerShapeAppend ?i p"
  have q: "wanted d ?i disabled = q" by (simp add: wanted_def q_def p_def peerShapeAppend_def)
  have ok: "\<forall>s. \<forall>c \<in> set (teardown ?i). succeeds exec c s" using assms(1) by (simp add: tc_contract_def)
  have "runCommands exec (Plan wgIface p) s = (s', err)"
    using assms(4) by (simp add: Apply_def Let_def flip: p_def split: prod.splits)
  then have "runCommands exec q ?s = (s', err)"
    unfolding Plan_split [OF assms(2)] runCommands_teardown [OF ok] q_def .
  moreover have "\<forall>c \<in> set q. tc_on ?i c" using plan_wf_on peerShapeAppend_wf [OF assms(2)] unfolding q_def by blast
  ultimately show ?thesis
    using runCommands_installs [OF assms(1), of q ?s] assms(3) by (simp add: clears_def q)
qed

text \<open>
  C31. Applying the limits installs exactly what the plan describes: on a machine whose \<open>tc\<close> keeps its
  contract, and from a state whose deletions work, a run of \<open>Apply\<close> on a named interface that reports no error
  leaves the queueing disciplines, classes and filters of the current limits and no others, or none when shaping is
  disabled, and what is then in force holds the downloads and the uploads of each address to the rates of the limits
  stored for it and limits no other address; one that reports an error leaves those of the plan before the command that
  \<open>tc\<close> refused. Whether \<open>tc\<close> accepts a command is not assumed.
\<close>

theorem Apply_installs:
  assumes "tc_contract exec installed (trim wgIface)" and "trim wgIface \<noteq> []" and "clears exec installed (trim wgIface) s"
  shows "case Apply exec d wgIface disabled s of
      (s', lines, None) \<Rightarrow> installed s' = (if disabled then [] else peerShapeAppend (trim wgIface) (LoadPeerLimits d))
        \<and> limits_hold (installed s') (if disabled then [] else LoadPeerLimits d)
    | (s', lines, Some e) \<Rightarrow> \<not> disabled \<and> (\<exists>p c r s0. peerShapeAppend (trim wgIface) (LoadPeerLimits d) = p @ c # r
        \<and> installed s' = p \<and> \<not> succeeds exec c s0 \<and> s' = fst (exec c s0))"
proof -
  obtain s' lines err where "Apply exec d wgIface disabled s = (s', lines, err)" by (metis prod_cases3)
  moreover have "limits_hold (wanted d (trim wgIface) disabled) (if disabled then [] else LoadPeerLimits d)"
    using plan_holds [OF assms(2), of "[]"] plan_holds [OF assms(2), of "LoadPeerLimits d"]
    by (simp add: wanted_def peerShapeAppend_def)
  ultimately show ?thesis using Apply_leaves [OF assms, of d disabled s' lines err]
    by (cases err; cases disabled) (auto simp: installs_upto_def wanted_def)
qed

text \<open>The log entry's directions are the ones the plan shapes.\<close>

lemma summarize_capped:
  assumes "distinct (map fst peers)"
  shows "summarizePeerDirections peers = (capped l_download peers \<noteq> [], capped l_upload peers \<noteq> [])"
proof -
  have "list_ex (\<lambda>(_, pl). 0 < f pl) peers \<longleftrightarrow> capped f peers \<noteq> []" for f :: "peer_limit \<Rightarrow> int"
    using assms by (force simp: capped_def list_ex_iff filter_empty_conv limit_at_def)
  then show ?thesis by (simp add: summarizePeerDirections_def)
qed

section \<open>Witnesses\<close>

text \<open>
  A machine that keeps the commands in force and refuses one whose parent or class is missing or whose handle is taken.
\<close>

definition ex_exec :: "argv list exec" where
  "ex_exec c s =
     (if take 1 c = [''sh''] then ([], None, [])
      else if set (tc_uses c) \<subseteq> created {} s \<and> set (tc_creates c) \<inter> created {} s = {} then (s @ [c], None, [])
      else (s, Some ''exit status 2'', ''RTNETLINK answers: File exists''))"

lemma ex_exec_contract: "tc_contract ex_exec id ''wg0''" "clears ex_exec id ''wg0'' s"
proof -
  have "take 1 c \<noteq> [''sh'']" if "tc_on ''wg0'' c" for c using that by (auto simp: tc_on_def)
  then show "tc_contract ex_exec id ''wg0''" by (auto simp: tc_contract_def succeeds_def ex_exec_def teardown_def)
  show "clears ex_exec id ''wg0'' s" by (simp add: clears_def teardown_def ex_exec_def)
qed

lemma ex_exec_accepts: "plan_wf ''wg0'' (created {} s) cs \<Longrightarrow> runCommands ex_exec cs s = (s @ cs, None)"
proof (induction cs arbitrary: s)
  case (Cons c cs)
  then have "c \<noteq> []" "take 1 c \<noteq> [''sh'']" by (auto simp: tc_on_def)
  then have "ex_exec c s = (s @ [c], None, [])" using Cons.prems by (simp add: ex_exec_def)
  then have "runCommands ex_exec (c # cs) s = runCommands ex_exec cs (s @ [c])"
    using runCommands_Cons_ok [OF \<open>c \<noteq> []\<close>, of ex_exec s cs] by (simp add: succeeds_def)
  then show ?case using Cons by (simp add: created_append)
qed simp

lemma ex_exec_succeeds: "\<exists>s' lines. Apply ex_exec d ''wg0'' disabled s = (s', lines, None)"
proof -
  have t: "trim ''wg0'' = ''wg0''" by (simp add: str_eval)
  let ?p = "if disabled then [] else LoadPeerLimits d"
  have "runs ex_exec (teardown ''wg0'') s = []" using ex_exec_contract(2) [of s] by (simp add: clears_def)
  then have "runCommands ex_exec (Plan ''wg0'' ?p) s = (peerShapeAppend ''wg0'' ?p, None)"
    using runCommands_teardown [of "''wg0''" ex_exec "peerShapeAppend ''wg0'' ?p" s] ex_exec_contract(1) Plan_split [of "''wg0''" ?p]
      ex_exec_accepts [of "[]" "peerShapeAppend ''wg0'' ?p"] peerShapeAppend_wf [of "''wg0''" ?p]
    by (simp add: t tc_contract_def)
  then show ?thesis by (simp add: Apply_def Let_def)
qed

lemma Apply_installs_witness:
  "\<exists>s' lines. Apply ex_exec ex_pcq_db ''wg0'' False [ingress_cmd ''wg0''] = (s', lines, None)
    \<and> s' = peerShapeAppend ''wg0'' (LoadPeerLimits ex_pcq_db)
    \<and> limits_hold s' (LoadPeerLimits ex_pcq_db)"
proof -
  have t: "trim ''wg0'' = ''wg0''" by (simp add: str_eval)
  obtain s' lines where a: "Apply ex_exec ex_pcq_db ''wg0'' False [ingress_cmd ''wg0''] = (s', lines, None)"
    using ex_exec_succeeds by blast
  have "clears ex_exec id (trim ''wg0'') [ingress_cmd ''wg0'']" unfolding t by (rule ex_exec_contract(2))
  from Apply_installs [OF _ _ this, of False ex_pcq_db]
  have "s' = peerShapeAppend ''wg0'' (LoadPeerLimits ex_pcq_db) \<and> limits_hold s' (LoadPeerLimits ex_pcq_db)"
    using ex_exec_contract(1) a by (auto simp: t)
  then show ?thesis using a by blast
qed

end
