(* ===== verification/Dns_Records.thy ===== *)
theory Dns_Records
  imports Go_Net Store "HOL-Library.Product_Lexorder"
begin

text \<open>
  The DNS tables: settings (\<open>internal/db/dns_config.go\<close>), custom records
  (\<open>internal/db/dns_records.go\<close>) and block or allow rules (\<open>internal/db/dns_filter.go\<close>), with
  their normalisation, validation and statements. Which code points outside ASCII are letters or
  digits is the parameter \<open>uni\<close> (the Unicode tables behind \<open>unicode.IsLetter\<close>). The quoted
  input in error messages is left out.
\<close>

section \<open>Runes of a string\<close>

definition cont_byte :: "nat \<Rightarrow> bool" where
  "cont_byte b \<longleftrightarrow> 128 \<le> b \<and> b < 192"

text \<open>
  The rune \<open>range\<close> reads at the head of a string, and its width: an invalid sequence is
  U+FFFD of one byte.
\<close>

definition rune1 :: "string \<Rightarrow> nat \<times> nat" where
  "rune1 s =
     (let b = (\<lambda>i. if i < length s then (of_char (s ! i) :: nat) else 0); x = b 0 in
      if x < 128 then (x, 1)
      else if 194 \<le> x \<and> x < 224 \<and> cont_byte (b 1) then ((x - 192) * 64 + (b 1 - 128), 2)
      else if 224 \<le> x \<and> x < 240 \<and> cont_byte (b 1) \<and> cont_byte (b 2)
              \<and> (x = 224 \<longrightarrow> 160 \<le> b 1) \<and> (x = 237 \<longrightarrow> b 1 < 160)
        then ((x - 224) * 4096 + (b 1 - 128) * 64 + (b 2 - 128), 3)
      else if 240 \<le> x \<and> x < 245 \<and> cont_byte (b 1) \<and> cont_byte (b 2) \<and> cont_byte (b 3)
              \<and> (x = 240 \<longrightarrow> 144 \<le> b 1) \<and> (x = 244 \<longrightarrow> b 1 < 144)
        then ((x - 240) * 262144 + (b 1 - 128) * 4096 + (b 2 - 128) * 64 + (b 3 - 128), 4)
      else (65533, 1))"

lemma rune1_width: "1 \<le> snd (rune1 s)"
  by (auto simp: rune1_def Let_def)

function runes :: "string \<Rightarrow> nat list" where
  "runes s = (if s = [] then [] else fst (rune1 s) # runes (drop (snd (rune1 s)) s))"
  by pat_completeness auto
termination
proof (relation "measure length")
  fix s :: string
  assume "s \<noteq> []"
  then show "(drop (snd (rune1 s)) s, s) \<in> measure length" using rune1_width [of s] by (cases s) auto
qed simp

declare runes.simps [simp del]

definition letter_or_digit :: "(nat \<Rightarrow> bool) \<Rightarrow> nat \<Rightarrow> bool" where
  "letter_or_digit uni r \<longleftrightarrow>
     (if r < 128 then (48 \<le> r \<and> r \<le> 57) \<or> (65 \<le> r \<and> r \<le> 90) \<or> (97 \<le> r \<and> r \<le> 122)
      else r \<noteq> 65533 \<and> uni r)"

section \<open>Settings\<close>

definition DefaultDNSSettings :: dns_settings_row where
  "DefaultDNSSettings = \<lparr>ds_enabled = False, ds_client_dns_host = [], ds_listen_host = [], ds_listen_addr = [],
     ds_listen_port = 53, ds_binary = ''coredns'', ds_upstreams = ''1.1.1.1 1.0.0.1'', ds_block_ads = False,
     ds_blocklist_urls = [], ds_block_address = ''0.0.0.0'', ds_cache_ttl = 300, ds_query_log = False\<rparr>"

definition or_default :: "string \<Rightarrow> string \<Rightarrow> string" where
  "or_default s def = (if trim s \<noteq> [] then trim s else def)"

definition GetDNSSettings :: "db \<Rightarrow> dns_settings_row" where
  "GetDNSSettings d =
     (let def = DefaultDNSSettings in
      case dns_settings d of
        None \<Rightarrow> def
      | Some r \<Rightarrow>
          def\<lparr>ds_enabled := ds_enabled r,
              ds_listen_port := (if ds_listen_port r > 0 then ds_listen_port r else ds_listen_port def),
              ds_client_dns_host := or_default (ds_client_dns_host r) (ds_client_dns_host def),
              ds_listen_host := or_default (ds_listen_host r) (ds_listen_host def),
              ds_listen_addr := or_default (ds_listen_addr r) (ds_listen_addr def),
              ds_binary := or_default (ds_binary r) (ds_binary def),
              ds_upstreams := or_default (ds_upstreams r) (ds_upstreams def),
              ds_block_ads := ds_block_ads r,
              ds_blocklist_urls := or_default (ds_blocklist_urls r) (ds_blocklist_urls def),
              ds_block_address := or_default (ds_block_address r) (ds_block_address def),
              ds_cache_ttl := (if ds_cache_ttl r > 0 then ds_cache_ttl r else ds_cache_ttl def),
              ds_query_log := ds_query_log r\<rparr>)"

definition UpsertDNSSettings :: "dns_settings_row \<Rightarrow> db \<Rightarrow> db" where
  "UpsertDNSSettings s d =
     d\<lparr>dns_settings := Some
        \<lparr>ds_enabled = ds_enabled s, ds_client_dns_host = trim (ds_client_dns_host s),
         ds_listen_host = trim (ds_listen_host s), ds_listen_addr = [],
         ds_listen_port = (if ds_listen_port s \<le> 0 then 53 else ds_listen_port s),
         ds_binary = or_default (ds_binary s) ''coredns'',
         ds_upstreams = or_default (ds_upstreams s) (ds_upstreams DefaultDNSSettings),
         ds_block_ads = ds_block_ads s, ds_blocklist_urls = trim (ds_blocklist_urls s),
         ds_block_address = or_default (ds_block_address s) ''0.0.0.0'',
         ds_cache_ttl = (if ds_cache_ttl s \<le> 0 then 300 else ds_cache_ttl s),
         ds_query_log = ds_query_log s\<rparr>\<rparr>"

section \<open>Records\<close>

definition DNSRecordTypes :: "string list" where
  "DNSRecordTypes = [''A'', ''AAAA'', ''CNAME'', ''TXT'', ''PTR'', ''MX'', ''NS'']"

abbreviation chr_dot :: char where "chr_dot \<equiv> CHR ''.''"

definition NormalizeDNSRewriteDomain :: "string \<Rightarrow> string" where
  "NormalizeDNSRewriteDomain domain = trim_suffix (toLower (trim domain)) ''.''"

definition SplitRewriteDomain :: "string \<Rightarrow> string \<times> string" where
  "SplitRewriteDomain name =
     (let fqdn = NormalizeDNSRewriteDomain name; labels = split_on chr_dot fqdn in
      if fqdn = [] then ([], [])
      else if length labels = 1 then (fqdn, ''@'')
      else if length labels = 2 then (labels ! 1, labels ! 0)
      else (join ''.'' (drop 1 labels), labels ! 0))"

definition NormalizeDNSRecordType :: "string \<Rightarrow> string res" where
  "NormalizeDNSRecordType t =
     (let t = toUpper (trim t) in
      if t \<in> set DNSRecordTypes then Inr t else Inl (ErrMsg ''unsupported record type''))"

definition validateDNSLabel :: "(nat \<Rightarrow> bool) \<Rightarrow> string \<Rightarrow> goerr option" where
  "validateDNSLabel uni l =
     (if l = [] \<or> length l > 63 then Some (ErrMsg ''invalid DNS label'')
      else if hd l = CHR ''-'' \<or> last l = CHR ''-'' then Some (ErrMsg ''invalid DNS label'')
      else if list_all (\<lambda>r. letter_or_digit uni r \<or> r = 45) (runes l) then None
      else Some (ErrMsg ''invalid DNS label''))"

definition validateRewriteDomainLabels :: "(nat \<Rightarrow> bool) \<Rightarrow> string \<Rightarrow> goerr option" where
  "validateRewriteDomainLabels uni domain =
     (if \<exists>l \<in> set (split_on chr_dot domain). validateDNSLabel uni l \<noteq> None
      then Some (ErrMsg ''invalid domain'') else None)"

fun validate_labels :: "(nat \<Rightarrow> bool) \<Rightarrow> string list \<Rightarrow> goerr option" where
  "validate_labels uni [] = None"
| "validate_labels uni (l # ls) =
     (if l = [] then Some (ErrMsg ''invalid hostname'')
      else case validateDNSLabel uni l of Some e \<Rightarrow> Some e | None \<Rightarrow> validate_labels uni ls)"

definition validateDNSHostname :: "(nat \<Rightarrow> bool) \<Rightarrow> string \<Rightarrow> bool \<Rightarrow> goerr option" where
  "validateDNSHostname uni host0 allowReverse =
     (let host = trim_suffix (trim host0) ''.''; labels = split_on chr_dot host in
      if host = [] then Some (ErrMsg ''hostname is required'')
      else if allowReverse \<and> length labels > 1 then
        (if [] \<in> set labels then Some (ErrMsg ''invalid hostname'') else None)
      else if length labels = 1 then (if host = ''@'' then None else validateDNSLabel uni host)
      else validate_labels uni labels)"

definition validateMXValue :: "(nat \<Rightarrow> bool) \<Rightarrow> string \<Rightarrow> goerr option" where
  "validateMXValue uni value =
     (let parts = str_fields value in
      if length parts < 2 then Some (ErrMsg ''MX value must be priority and hostname (e.g. 10 mail)'')
      else (case atoi (parts ! 0) of
              None \<Rightarrow> Some (ErrMsg ''MX priority must be a number from 0 to 65535'')
            | Some prio \<Rightarrow>
                if prio < 0 \<or> prio > 65535 then Some (ErrMsg ''MX priority must be a number from 0 to 65535'')
                else validateDNSHostname uni (join '' '' (drop 1 parts)) False))"

definition validate_value :: "(nat \<Rightarrow> bool) \<Rightarrow> string \<Rightarrow> string \<Rightarrow> goerr option" where
  "validate_value uni recType value =
     (if recType = ''A'' then
        (case parseIP value of
           None \<Rightarrow> Some (ErrMsg ''A record value must be an IPv4 address'')
         | Some ip \<Rightarrow> if to4 ip = None then Some (ErrMsg ''A record value must be an IPv4 address'') else None)
      else if recType = ''AAAA'' then
        (case parseIP value of
           None \<Rightarrow> Some (ErrMsg ''AAAA record value must be an IPv6 address'')
         | Some ip \<Rightarrow> if to4 ip \<noteq> None then Some (ErrMsg ''AAAA record value must be an IPv6 address'') else None)
      else if recType = ''CNAME'' \<or> recType = ''NS'' \<or> recType = ''PTR'' then
        validateDNSHostname uni value (recType = ''PTR'')
      else if recType = ''TXT'' then
        (if length value > 4096 then Some (ErrMsg ''TXT record value is too long'') else None)
      else if recType = ''MX'' then validateMXValue uni value
      else None)"

definition ValidateDNSRewrite :: "(nat \<Rightarrow> bool) \<Rightarrow> dns_record \<Rightarrow> goerr option" where
  "ValidateDNSRewrite uni r =
     (let domain = NormalizeDNSRewriteDomain (r_name r) in
      if domain = [] then Some (ErrMsg ''domain is required'')
      else if chr_dot \<notin> set domain then Some (ErrMsg ''enter a full domain name (e.g. router.vpn)'')
      else if validateRewriteDomainLabels uni domain \<noteq> None then validateRewriteDomainLabels uni domain
      else (case NormalizeDNSRecordType (r_type r) of
              Inl e \<Rightarrow> Some e
            | Inr recType \<Rightarrow>
                (let value = trim (r_value r); ttl = (if r_ttl r \<le> 0 then 300 else r_ttl r) in
                 if value = [] then Some (ErrMsg ''record value is required'')
                 else if ttl > 2147483647 then Some (ErrMsg ''TTL is too large'')
                 else validate_value uni recType value)))"

definition ListDNSRecords :: "db \<Rightarrow> dns_record list" where
  "ListDNSRecords d = sort_key (\<lambda>r. (toLower (r_name r), r_type r, r_value r)) (dns_records d)"

definition InsertDNSRecord :: "string \<Rightarrow> dns_record \<Rightarrow> db \<Rightarrow> (dns_record \<times> db) res" where
  "InsertDNSRecord uuid r d =
     bindR (NormalizeDNSRecordType (r_type r)) (\<lambda>recType.
       (let r' = r\<lparr>r_id := (if trim (r_id r) = [] then uuid else r_id r),
                   r_name := NormalizeDNSRewriteDomain (r_name r), r_type := recType,
                   r_value := trim (r_value r), r_ttl := (if r_ttl r \<le> 0 then 300 else r_ttl r)\<rparr> in
        if r_id r' \<in> r_id ` set (dns_records d) then Inl (ErrConstraint ''dns_records.id'')
        else Inr (r', d\<lparr>dns_records := dns_records d @ [r']\<rparr>)))"

definition DeleteDNSRecord :: "string \<Rightarrow> db \<Rightarrow> db res" where
  "DeleteDNSRecord i d =
     (let i = trim i in
      if i = [] then Inl (ErrMsg ''record id is required'')
      else if i \<notin> r_id ` set (dns_records d) then Inl ErrNoRows
      else Inr (d\<lparr>dns_records := filter (\<lambda>r. r_id r \<noteq> i) (dns_records d)\<rparr>))"

section \<open>Rules\<close>

definition NormalizeDNSDomainRule :: "string \<Rightarrow> string" where
  "NormalizeDNSDomainRule domain = NormalizeDNSRewriteDomain domain"

definition ValidateDNSDomainRule :: "(nat \<Rightarrow> bool) \<Rightarrow> dns_rule \<Rightarrow> goerr option" where
  "ValidateDNSDomainRule uni r =
     (let domain = NormalizeDNSDomainRule (dr_domain r); t = toLower (trim (dr_type r)) in
      if domain = [] then Some (ErrMsg ''domain is required'')
      else if chr_dot \<notin> set domain then Some (ErrMsg ''enter a full domain name (e.g. ads.example.com)'')
      else if validateRewriteDomainLabels uni domain \<noteq> None then validateRewriteDomainLabels uni domain
      else if t \<noteq> ''block'' \<and> t \<noteq> ''allow'' then Some (ErrMsg ''rule type must be block or allow'')
      else None)"

definition ListDNSDomainRules :: "db \<Rightarrow> dns_rule list" where
  "ListDNSDomainRules d = sort_key (\<lambda>r. (dr_type r, toLower (dr_domain r))) (dns_rules d)"

definition InsertDNSDomainRule :: "(nat \<Rightarrow> bool) \<Rightarrow> string \<Rightarrow> dns_rule \<Rightarrow> db \<Rightarrow> (dns_rule \<times> db) res" where
  "InsertDNSDomainRule uni uuid r d =
     (let r' = r\<lparr>dr_id := (if trim (dr_id r) = [] then uuid else dr_id r),
                 dr_domain := NormalizeDNSDomainRule (dr_domain r), dr_type := toLower (trim (dr_type r))\<rparr> in
      case ValidateDNSDomainRule uni r' of
        Some e \<Rightarrow> Inl e
      | None \<Rightarrow>
          if dr_id r' \<in> dr_id ` set (dns_rules d) then Inl (ErrConstraint ''dns_domain_rules.id'')
          else Inr (r', d\<lparr>dns_rules := dns_rules d @ [r']\<rparr>))"

definition DeleteDNSDomainRule :: "string \<Rightarrow> db \<Rightarrow> db res" where
  "DeleteDNSDomainRule i d =
     (let i = trim i in
      if i = [] then Inl (ErrMsg ''rule id is required'')
      else if i \<notin> dr_id ` set (dns_rules d) then Inl ErrNoRows
      else Inr (d\<lparr>dns_rules := filter (\<lambda>r. dr_id r \<noteq> i) (dns_rules d)\<rparr>))"

text \<open>The maximal runs of characters that satisfy no separator predicate: \<open>strings.FieldsFunc\<close>.\<close>

fun fields_func :: "(char \<Rightarrow> bool) \<Rightarrow> string \<Rightarrow> string \<Rightarrow> string list" where
  "fields_func P cur [] = (if cur = [] then [] else [rev cur])"
| "fields_func P cur (c # s) =
     (if P c then (if cur = [] then [] else [rev cur]) @ fields_func P [] s else fields_func P (c # cur) s)"

definition ParseBlocklistURLs :: "string \<Rightarrow> string list" where
  "ParseBlocklistURLs raw =
     filter (\<lambda>p. p \<noteq> []) (map trim (fields_func (\<lambda>c. c = chr_nl \<or> c = CHR 0x0D \<or> c = CHR '','' \<or> c = CHR '' '') [] raw))"


section \<open>Settings survive a round trip\<close>

lemma trim_or_default: "trim def = def \<Longrightarrow> trim (or_default s def) = or_default s def"
  by (simp add: or_default_def)

lemma or_default_idem: "trim def = def \<Longrightarrow> or_default (or_default s def) def = or_default s def"
  by (auto simp: or_default_def)

lemma or_default_self: "trim def = def \<Longrightarrow> or_default def def = def"
  by (simp add: or_default_def)

lemma or_default_Nil [simp]: "or_default [] def = def" "or_default s [] = trim s"
  by (simp_all add: or_default_def)

lemma default_texts: "trim ''coredns'' = ''coredns''" "trim ''1.1.1.1 1.0.0.1'' = ''1.1.1.1 1.0.0.1''"
  "trim ''0.0.0.0'' = ''0.0.0.0''"
  by (simp_all add: str_eval)

text \<open>
  What \<open>GetDNSSettings\<close> returns is a fixed point: writing it back and reading it again gives
  the same settings, defaults included, but for the computed listen address, which a write
  clears.
\<close>

theorem dns_settings_fixed:
  "GetDNSSettings (UpsertDNSSettings (GetDNSSettings d) d) = (GetDNSSettings d)\<lparr>ds_listen_addr := []\<rparr>"
  by (cases "dns_settings d")
     (simp_all add: GetDNSSettings_def UpsertDNSSettings_def DefaultDNSSettings_def Let_def or_default_idem
        default_texts trim_or_default or_default_self)

section \<open>Names and statements\<close>

lemma NormalizeDNSRewriteDomain_lower: "toLower (NormalizeDNSRewriteDomain s) = NormalizeDNSRewriteDomain s"
proof -
  have "toLower (take n (toLower t)) = take n (toLower t)" for n t
    by (simp add: toLower_def take_map comp_def)
  then show ?thesis by (simp add: NormalizeDNSRewriteDomain_def trim_suffix_def)
qed

lemma split_first_label:
  assumes "split_on c s = l # ls" and "ls \<noteq> []"
  shows "s = l @ c # join [c] ls"
  using join_split_on [of c s] assms by (simp add: join_Cons)

lemma SplitRewriteDomain_dotted:
  assumes "chr_dot \<in> set (NormalizeDNSRewriteDomain name)"
  shows "\<exists>zone owner. SplitRewriteDomain name = (zone, owner)
     \<and> owner @ ''.'' @ zone = NormalizeDNSRewriteDomain name \<and> chr_dot \<notin> set owner"
proof -
  let ?n = "NormalizeDNSRewriteDomain name"
  obtain l ls where s: "split_on chr_dot ?n = l # ls" by (cases "split_on chr_dot ?n") auto
  have ls: "ls \<noteq> []"
  proof
    assume "ls = []"
    then have "?n = l" using join_split_on [of chr_dot ?n] s by simp
    then show False using split_on_no_sep [of l chr_dot ?n] s assms by simp
  qed
  have "SplitRewriteDomain name = (join ''.'' ls, l)"
    using ls assms by (cases ls; cases "tl ls") (auto simp: SplitRewriteDomain_def Let_def s)
  moreover have "l @ ''.'' @ join ''.'' ls = ?n" using split_first_label [OF s ls] by simp
  moreover have "chr_dot \<notin> set l" using split_on_no_sep [of l chr_dot ?n] s by simp
  ultimately show ?thesis by blast
qed

lemma valid_label_ends:
  assumes "validateDNSLabel uni l = None"
  shows "l \<noteq> []" and "length l \<le> 63"
  using assms by (auto simp: validateDNSLabel_def split: if_splits)

lemma rune1_wide:
  assumes "snd (rune1 s) \<noteq> 1" and "i < snd (rune1 s)" and "i < length s"
  shows "128 \<le> (of_char (s ! i) :: nat)"
proof -
  have "snd (rune1 s) \<le> 4" by (simp add: rune1_def Let_def)
  with assms(2) have "i = 0 \<or> i = 1 \<or> i = 2 \<or> i = 3" by linarith
  then show ?thesis
  proof (elim disjE)
    assume "i = 0"
    then show ?thesis using assms unfolding rune1_def Let_def by (simp split: if_split_asm)
  next
    assume "i = 1"
    then show ?thesis using assms unfolding rune1_def Let_def cont_byte_def by (simp split: if_split_asm)
  next
    assume "i = 2"
    then show ?thesis using assms unfolding rune1_def Let_def cont_byte_def by (simp split: if_split_asm)
  next
    assume "i = 3"
    then show ?thesis using assms unfolding rune1_def Let_def cont_byte_def by (simp split: if_split_asm)
  qed
qed

lemma rune1_bytes:
  assumes "c \<in> set (take (snd (rune1 s)) s)" and "of_char c < (128 :: nat)"
  shows "fst (rune1 s) = of_char c"
proof -
  obtain i where i: "i < snd (rune1 s)" "i < length s" "c = s ! i"
    using assms(1) by (auto simp: in_set_conv_nth)
  with assms(2) have "snd (rune1 s) = 1" using rune1_wide [of s i] by fastforce
  with i have "i = 0" by simp
  with i assms(2) show ?thesis by (simp add: rune1_def Let_def)
qed

text \<open>Every ASCII byte of a string is one of its runes.\<close>

lemma ascii_in_runes: "c \<in> set s \<Longrightarrow> of_char c < (128 :: nat) \<Longrightarrow> of_char c \<in> set (runes s)"
proof (induction s rule: runes.induct)
  case (1 s)
  have "c \<in> set (take (snd (rune1 s)) s) \<or> c \<in> set (drop (snd (rune1 s)) s)"
    using 1(2) by (metis Un_iff append_take_drop_id set_append)
  moreover have "s \<noteq> []" using 1(2) by auto
  ultimately show ?case
    using 1 rune1_bytes [of c s] by (subst runes.simps) auto
qed

lemma valid_label_char:
  assumes "validateDNSLabel uni l = None" and "c \<in> set l"
  shows "\<not> ascii_space c" and "c \<noteq> chr_dot"
proof -
  have all: "list_all (\<lambda>r. letter_or_digit uni r \<or> r = 45) (runes l)"
    using assms by (auto simp: validateDNSLabel_def split: if_splits)
  have "of_char c < (128 :: nat) \<Longrightarrow> letter_or_digit uni (of_char c) \<or> of_char c = (45 :: nat)"
    using ascii_in_runes [OF assms(2)] all by (auto simp: list_all_iff)
  then show "\<not> ascii_space c" "c \<noteq> chr_dot"
    by (auto simp: letter_or_digit_def ascii_space_def)
qed

lemma validate_labels_all: "validate_labels uni ls = None \<Longrightarrow> l \<in> set ls \<Longrightarrow> validateDNSLabel uni l = None"
  by (induction ls) (auto split: if_splits option.splits)

lemma split_on_member: "x \<in> set s \<Longrightarrow> x \<noteq> c \<Longrightarrow> \<exists>w \<in> set (split_on c s). x \<in> set w"
proof (induction s)
  case (Cons a s)
  obtain w ws where w: "split_on c s = w # ws" by (cases "split_on c s") auto
  show ?case
  proof (cases "x = a")
    case True
    with Cons.prems(2) show ?thesis by (simp add: w)
  next
    case False
    with Cons obtain v where "v \<in> set (w # ws)" "x \<in> set v" using w by auto
    then show ?thesis by (auto simp: w)
  qed
qed simp

text \<open>A validated host name holds no white space, reverse names apart, which are checked for empty labels only.\<close>

lemma validateDNSHostname_no_space:
  assumes "validateDNSHostname uni v False = None" and "c \<in> set (trim_suffix (trim v) ''.'')"
  shows "\<not> ascii_space c"
proof (cases "c = chr_dot \<or> trim_suffix (trim v) ''.'' = ''@''")
  case True
  then show ?thesis using assms(2) by (auto simp: ascii_space_def)
next
  case False
  let ?h = "trim_suffix (trim v) ''.''"
  obtain w where w: "w \<in> set (split_on chr_dot ?h)" "c \<in> set w"
    using split_on_member [OF assms(2), of chr_dot] False by blast
  have "validateDNSLabel uni w = None"
  proof (cases "length (split_on chr_dot ?h) = 1")
    case True
    then obtain x where "split_on chr_dot ?h = [x]" by (auto simp: length_Suc_conv)
    moreover from this have "?h = x" using join_split_on [of chr_dot ?h] by simp
    ultimately show ?thesis
      using True False w assms by (auto simp: validateDNSHostname_def Let_def split: if_splits)
  next
    case n1: False
    then show ?thesis
      using assms(1) w validate_labels_all
      by (auto simp: validateDNSHostname_def Let_def split: if_splits)
  qed
  with w(2) show ?thesis by (rule valid_label_char(1) [rotated])
qed

section \<open>Integrity\<close>

lemma db_ok_dns_statements:
  "db_ok d \<Longrightarrow> db_ok (UpsertDNSSettings s d)"
  "db_ok d \<Longrightarrow> InsertDNSRecord uuid r d = Inr (r', d') \<Longrightarrow> db_ok d'"
  "db_ok d \<Longrightarrow> DeleteDNSRecord i d = Inr d' \<Longrightarrow> db_ok d'"
  "db_ok d \<Longrightarrow> InsertDNSDomainRule uni uuid x d = Inr (x', d') \<Longrightarrow> db_ok d'"
  "db_ok d \<Longrightarrow> DeleteDNSDomainRule i d = Inr d' \<Longrightarrow> db_ok d'"
  by (auto simp: db_defs UpsertDNSSettings_def InsertDNSRecord_def DeleteDNSRecord_def InsertDNSDomainRule_def
      DeleteDNSDomainRule_def Let_def bindR_eq_Inr distinct_on_append1 split: if_splits option.splits)

end
