(* ===== verification/Dns_Files.thy ===== *)
theory Dns_Files
  imports Dns_Records Wg_Config
begin

text \<open>
  The files CoreDNS reads, \<open>internal/dns/zonefile.go\<close>, \<open>hostsfile.go\<close>, \<open>rewrites.go\<close> and
  \<open>blocklist.go\<close>. Go iterates a map in no fixed order: the order is a parameter \<open>ord\<close>, a
  function that permutes the list of keys. The network is the parameter \<open>http\<close>, the age of a
  cache file the parameter \<open>fresh\<close>, the writes that fail the parameter \<open>wfail\<close>.
\<close>

section \<open>Addresses as text\<close>

definition v6_groups :: "ip16 \<Rightarrow> nat list" where
  "v6_groups a = map (\<lambda>i. unat a div 2 ^ (16 * (7 - i)) mod 65536) [0 ..< 8]"

definition zero_run :: "nat list \<Rightarrow> nat \<Rightarrow> nat" where
  "zero_run gs i = length (takeWhile (\<lambda>g. g = 0) (drop i gs))"

text \<open>The first of the longest runs of zero groups is written \<open>::\<close>, when it has at least two.\<close>

definition show_v6 :: "ip16 \<Rightarrow> string" where
  "show_v6 a =
     (let gs = v6_groups a; n = Max (set (map (zero_run gs) [0 ..< 8]));
          i = hd (filter (\<lambda>i. zero_run gs i = n) [0 ..< 8]); hex = map (nat_base 16) gs in
      if n < 2 then join '':'' hex
      else join '':'' (take i hex) @ ''::'' @ join '':'' (drop (i + n) hex))"

definition show_ip :: "ip16 \<Rightarrow> string" where
  "show_ip a = (case to4 a of Some b \<Rightarrow> show_v4 b | None \<Rightarrow> show_v6 a)"

section \<open>Zone files\<close>

definition canonicalIP :: "string \<Rightarrow> bool \<Rightarrow> string" where
  "canonicalIP value v4 =
     (case parseIP (trim value) of
        None \<Rightarrow> trim value
      | Some ip \<Rightarrow>
          if v4 then (case to4 ip of None \<Rightarrow> ''<nil>'' | Some b \<Rightarrow> show_v4 b) else show_ip ip)"

text \<open>\<open>strings.ReplaceAll\<close> for a pattern that is not empty.\<close>

function replace_all :: "string \<Rightarrow> string \<Rightarrow> string \<Rightarrow> string" where
  "replace_all p r s =
     (if s = [] then [] else if p \<noteq> [] \<and> has_prefix s p then r @ replace_all p r (drop (length p) s)
      else hd s # replace_all p r (tl s))"
  by pat_completeness auto
termination
proof (relation "measure (\<lambda>(p, r, s). length s)")
  fix p r s :: string
  assume "s \<noteq> []" "p \<noteq> [] \<and> has_prefix s p"
  then show "((p, r, drop (length p) s), p, r, s) \<in> measure (\<lambda>(p, r, s). length s)"
    by (cases s; cases p) auto
qed (auto simp: less_Suc_eq)

declare replace_all.simps [simp del]

definition formatTXT :: "string \<Rightarrow> string" where
  "formatTXT value =
     (if has_prefix value [chr_dquote] \<and> has_suffix value [chr_dquote] then value
      else
        (let escaped = replace_all [chr_bslash, chr_dquote] [chr_bslash, chr_bslash, chr_dquote] value;
             escaped = replace_all [chr_dquote] [chr_bslash, chr_dquote] escaped in
         [chr_dquote] @ escaped @ [chr_dquote]))"

definition formatHostRdata :: "string \<Rightarrow> string \<Rightarrow> string" where
  "formatHostRdata value zone =
     (let value = trim_suffix (trim value) ''.'' in
      if value = [] \<or> value = ''@'' then trim_suffix zone ''.'' @ ''.''
      else if chr_dot \<in> set value then value @ ''.''
      else value @ ''.'' @ trim_suffix zone ''.'' @ ''.'')"

definition formatMX :: "string \<Rightarrow> string \<Rightarrow> (int \<times> string) res" where
  "formatMX value zone =
     (let parts = str_fields value in
      if length parts < 2 then Inl (ErrMsg ''MX value must be priority and hostname'')
      else (case atoi (parts ! 0) of
              None \<Rightarrow> Inl (ErrMsg ''strconv.Atoi'')
            | Some prio \<Rightarrow> Inr (prio, formatHostRdata (join '' '' (drop 1 parts)) zone)))"

definition rr :: "string \<Rightarrow> int \<Rightarrow> string \<Rightarrow> string \<Rightarrow> string" where
  "rr name ttl recType rdata = name @ '' '' @ itoa ttl @ '' IN '' @ recType @ '' '' @ rdata"

definition formatZoneLine :: "string \<Rightarrow> int \<Rightarrow> dns_record \<Rightarrow> string res" where
  "formatZoneLine zone defaultTTL r =
     (let name0 = trim_suffix (trim (r_name r)) ''.''; name = (if name0 = [] then ''@'' else name0) in
      bindR (NormalizeDNSRecordType (r_type r)) (\<lambda>recType.
        (let ttl = (if r_ttl r \<le> 0 then defaultTTL else r_ttl r); value = trim (r_value r) in
         if recType = ''A'' then Inr (rr name ttl ''A'' (canonicalIP value True))
         else if recType = ''AAAA'' then Inr (rr name ttl ''AAAA'' (canonicalIP value False))
         else if recType = ''TXT'' then Inr (rr name ttl ''TXT'' (formatTXT value))
         else if recType = ''MX'' then
           bindR (formatMX value zone) (\<lambda>(prio, host). Inr (rr name ttl ''MX'' (itoa prio @ '' '' @ host)))
         else Inr (rr name ttl recType (formatHostRdata value zone)))))"

fun zone_lines :: "string \<Rightarrow> int \<Rightarrow> dns_record list \<Rightarrow> string list res" where
  "zone_lines zone ttl [] = Inr []"
| "zone_lines zone ttl (r # rs) =
     (if \<not> r_enabled r then zone_lines zone ttl rs
      else bindR (formatZoneLine zone ttl r) (\<lambda>l. bindR (zone_lines zone ttl rs) (\<lambda>ls. Inr (l # ls))))"

definition soa_line :: "string \<Rightarrow> int \<Rightarrow> string" where
  "soa_line zone ttl =
     ''@ '' @ itoa ttl @ '' IN SOA '' @ zone @ ''. hostadmin.'' @ zone @ ''. ( 1 7200 3600 86400 300 )''"

definition WriteZoneFile :: "string \<Rightarrow> int \<Rightarrow> dns_record list \<Rightarrow> string res" where
  "WriteZoneFile zone0 ttl0 records =
     (let zone = trim_suffix (trim zone0) ''.''; ttl = (if ttl0 \<le> 0 then 300 else ttl0) in
      bindR (zone_lines zone ttl records) (\<lambda>ls.
        Inr (unlines ([''$ORIGIN '' @ zone @ ''.'', ''$TTL '' @ itoa ttl, []] @ ls
                      @ (if ls = [] then [soa_line zone ttl] else [])))))"

section \<open>Hosts files\<close>

definition hosts_entries :: "dns_record list \<Rightarrow> (string \<times> string) list" where
  "hosts_entries records =
     concat (map (\<lambda>r.
       (let recType = toUpper (trim (r_type r)); domain = NormalizeDNSRewriteDomain (r_name r) in
        if r_enabled r \<and> (recType = ''A'' \<or> recType = ''AAAA'') \<and> domain \<noteq> [] then [(trim (r_value r), domain)] else []))
       records)"

definition names_of :: "(string \<times> string) list \<Rightarrow> string \<Rightarrow> string list" where
  "names_of es ip = map snd (filter (\<lambda>e. fst e = ip) es)"

definition WriteHostsFile :: "(string list \<Rightarrow> string list) \<Rightarrow> dns_record list \<Rightarrow> string" where
  "WriteHostsFile ord records =
     (let es = hosts_entries records in
      unlines (map (\<lambda>ip. ip @ '' '' @ join '' '' (names_of es ip)) (ord (remdups (map fst es)))))"

definition WriteBlockHostsFile :: "string \<Rightarrow> string list \<Rightarrow> string" where
  "WriteBlockHostsFile blockIP0 domains =
     (let blockIP = or_default blockIP0 ''0.0.0.0'';
          ds = filter (\<lambda>d. d \<noteq> []) (map NormalizeDNSDomainRule domains) in
      unlines (map (\<lambda>d. blockIP @ '' '' @ d) (rev (remdups (rev ds)))))"

section \<open>Blocked domains\<close>

function cache_name :: "string \<Rightarrow> string" where
  "cache_name s =
     (if s = [] then []
      else if has_prefix s ''://'' then CHR ''_'' # cache_name (drop 3 s)
      else (if hd s = CHR ''/'' \<or> hd s = CHR ''?'' then CHR ''_'' else hd s) # cache_name (tl s))"
  by pat_completeness auto
termination
  by (relation "measure length") (auto simp: has_prefix_def less_Suc_eq intro: diff_less)

declare cache_name.simps [simp del]

definition blocklistCachePath :: "string \<Rightarrow> string \<Rightarrow> string" where
  "blocklistCachePath dataDir url =
     path_join (path_join (path_join dataDir ''dns'') ''blocklist-cache'') (cache_name url)"

text \<open>\<open>http u\<close> is the body of a 200 answer, cut off at 32 MiB, or the error of the request.\<close>

definition fetchBlocklist ::
  "(string \<Rightarrow> string res) \<Rightarrow> (string \<Rightarrow> bool) \<Rightarrow> (string \<Rightarrow> bool) \<Rightarrow> string \<Rightarrow> string \<Rightarrow> fs \<Rightarrow> fs \<times> string res" where
  "fetchBlocklist http fresh wfail dataDir url f =
     (let path = blocklistCachePath dataDir url; cached = (case f path of None \<Rightarrow> [] | Some c \<Rightarrow> c) in
      if cached \<noteq> [] \<and> fresh path then (f, Inr cached)
      else (case http url of
              Inl e \<Rightarrow> (f, if cached \<noteq> [] then Inr cached else Inl e)
            | Inr body \<Rightarrow> (if wfail path then f else f(path \<mapsto> body), Inr body)))"

definition hosts_line :: "string \<Rightarrow> string list" where
  "hosts_line raw =
     (let line = trim raw; fs = str_fields line in
      if line = [] \<or> has_prefix line ''#'' \<or> length fs < 2 then []
      else if fs ! 0 \<in> {''0.0.0.0'', ''127.0.0.1'', ''::'', ''::1''} then
        filter (\<lambda>h. chr_dot \<in> set h)
          (map NormalizeDNSDomainRule (filter (\<lambda>h. h \<noteq> [] \<and> h \<noteq> ''localhost'') (map trim (drop 1 fs))))
      else [])"

text \<open>The scanner stops without a word at a line of 64 KiB or more.\<close>

definition parseHostsDomains :: "string \<Rightarrow> string list" where
  "parseHostsDomains body =
     concat (map (\<lambda>l. hosts_line (drop_cr l)) (takeWhile (\<lambda>l. length l < 65536) (raw_lines body)))"

fun load_lists ::
  "(string \<Rightarrow> string res) \<Rightarrow> (string \<Rightarrow> bool) \<Rightarrow> (string \<Rightarrow> bool) \<Rightarrow> string \<Rightarrow> string list \<Rightarrow> fs \<Rightarrow> fs \<times> string list res" where
  "load_lists http fresh wfail dataDir [] f = (f, Inr [])"
| "load_lists http fresh wfail dataDir (u # us) f =
     (case fetchBlocklist http fresh wfail dataDir u f of
        (f1, Inl e) \<Rightarrow> (f1, Inl (ErrWrap ''blocklist'' e))
      | (f1, Inr body) \<Rightarrow>
          (case load_lists http fresh wfail dataDir us f1 of
             (f2, r) \<Rightarrow> (f2, bindR r (\<lambda>ds. Inr (parseHostsDomains body @ ds)))))"

definition loadBlocklistDomains ::
  "(string list \<Rightarrow> string list) \<Rightarrow> (string \<Rightarrow> string res) \<Rightarrow> (string \<Rightarrow> bool) \<Rightarrow> (string \<Rightarrow> bool)
   \<Rightarrow> string \<Rightarrow> string list \<Rightarrow> fs \<Rightarrow> fs \<times> string list res" where
  "loadBlocklistDomains ord http fresh wfail dataDir urls f =
     (case load_lists http fresh wfail dataDir urls f of
        (f', r) \<Rightarrow> (f', bindR r (\<lambda>ds. Inr (ord (remdups ds)))))"

definition rule_domains :: "string \<Rightarrow> dns_rule list \<Rightarrow> string list" where
  "rule_domains kind rules =
     filter (\<lambda>d. d \<noteq> [])
       (map (\<lambda>r. NormalizeDNSDomainRule (dr_domain r)) (filter (\<lambda>r. dr_enabled r \<and> toLower (dr_type r) = kind) rules))"

definition blocklist_urls :: "dns_settings_row \<Rightarrow> string list" where
  "blocklist_urls cfg =
     (let urls = ParseBlocklistURLs (ds_blocklist_urls cfg) in
      if urls = [] then [''https://raw.githubusercontent.com/StevenBlack/hosts/master/hosts''] else urls)"

definition CollectBlockedDomains ::
  "(string list \<Rightarrow> string list) \<Rightarrow> (string \<Rightarrow> string res) \<Rightarrow> (string \<Rightarrow> bool) \<Rightarrow> (string \<Rightarrow> bool)
   \<Rightarrow> dns_settings_row \<Rightarrow> dns_rule list \<Rightarrow> string \<Rightarrow> fs \<Rightarrow> fs \<times> string list res" where
  "CollectBlockedDomains ord http fresh wfail cfg rules dataDir f =
     (let allow = rule_domains ''allow'' rules; block = rule_domains ''block'' rules;
          (f', fetched) =
            (if ds_block_ads cfg then loadBlocklistDomains ord http fresh wfail dataDir (blocklist_urls cfg) f
             else (f, Inr [])) in
      (f', bindR fetched (\<lambda>ds. Inr (filter (\<lambda>d. d \<notin> set allow) (ord (remdups (block @ ds)))))))"


section \<open>Which domains are blocked\<close>

text \<open>
  An allowed domain is never blocked, and every other manual or listed one is: the domains
  collected are, each once and whatever the order in which Go walks its maps, those of the
  enabled block rules and of the lists fetched when ad blocking is on, less those of the
  enabled allow rules; collecting fails only when fetching a list fails.
\<close>

theorem blocked_domains:
  assumes "\<And>ks. mset (ord ks) = mset ks"
  shows "let (f', r) = CollectBlockedDomains ord http fresh wfail cfg rules dataDir f;
             (g, fetched) = (if ds_block_ads cfg then load_lists http fresh wfail dataDir (blocklist_urls cfg) f
                             else (f, Inr [])) in
         f' = g
       \<and> (case fetched of
            Inl e \<Rightarrow> r = Inl e
          | Inr ds \<Rightarrow> (\<exists>out. r = Inr out \<and> distinct out
              \<and> set out = (set (rule_domains ''block'' rules) \<union> set ds) - set (rule_domains ''allow'' rules)))"
proof -
  have s: "set (ord ks) = set ks" for ks using assms by (metis set_mset_mset)
  have d: "distinct (ord (remdups ks))" for ks
    using assms [of "remdups ks"] by (metis distinct_remdups mset_eq_imp_distinct_iff)
  show ?thesis
    by (auto simp: CollectBlockedDomains_def loadBlocklistDomains_def Let_def s d
        split: prod.splits sum.splits)
qed

section \<open>Zone files\<close>

text \<open>What makes a record renderable: a known type and a value that is valid for it.\<close>

definition value_valid :: "(nat \<Rightarrow> bool) \<Rightarrow> dns_record \<Rightarrow> bool" where
  "value_valid uni r \<longleftrightarrow>
     (case NormalizeDNSRecordType (r_type r) of Inl _ \<Rightarrow> False | Inr t \<Rightarrow> validate_value uni t (trim (r_value r)) = None)"

lemma formatZoneLine_valid: "value_valid uni r \<Longrightarrow> \<exists>l. formatZoneLine zone ttl (r\<lparr>r_name := owner\<rparr>) = Inr l"
  by (auto simp: value_valid_def formatZoneLine_def Let_def validate_value_def validateMXValue_def formatMX_def
      split: if_splits option.splits sum.splits)

lemma validated_value: "ValidateDNSRewrite uni r = None \<Longrightarrow> value_valid uni r"
  by (auto simp: ValidateDNSRewrite_def value_valid_def Let_def split: if_splits sum.splits)

lemma formatZoneLine_ok:
  "ValidateDNSRewrite uni r = None \<Longrightarrow> \<exists>l. formatZoneLine zone ttl (r\<lparr>r_name := owner\<rparr>) = Inr l"
  by (rule formatZoneLine_valid [OF validated_value])

lemma zone_lines_ok:
  "\<forall>r \<in> set rs. ValidateDNSRewrite uni r = None \<Longrightarrow>
   \<exists>ls. zone_lines zone ttl (map (\<lambda>r. r\<lparr>r_name := owner r\<rparr>) rs) = Inr ls
     \<and> length ls = length (filter r_enabled rs)"
proof (induction rs)
  case (Cons r rs)
  then obtain ls where "zone_lines zone ttl (map (\<lambda>r. r\<lparr>r_name := owner r\<rparr>) rs) = Inr ls"
    "length ls = length (filter r_enabled rs)" by auto
  moreover obtain l where "formatZoneLine zone ttl (r\<lparr>r_name := owner r\<rparr>) = Inr l"
    using formatZoneLine_ok Cons.prems by (meson list.set_intros(1))
  ultimately show ?case by simp
qed simp

text \<open>
  Validated records always render: a zone file of records each of which passed
  \<open>ValidateDNSRewrite\<close>, under whatever owner names, is written without an error, with one line
  for each enabled record.
\<close>

theorem validated_zone_renders:
  assumes "\<forall>r \<in> set rs. ValidateDNSRewrite uni r = None"
  shows "\<exists>body ls z t. WriteZoneFile zone ttl (map (\<lambda>r. r\<lparr>r_name := owner r\<rparr>) rs) = Inr body
     \<and> length ls = length (filter r_enabled rs)
     \<and> body = unlines ([''$ORIGIN '' @ z @ ''.'', ''$TTL '' @ itoa t, []] @ ls @ (if ls = [] then [soa_line z t] else []))"
proof -
  define z where "z = trim_suffix (trim zone) ''.''"
  define t where "t = (if ttl \<le> 0 then 300 else ttl)"
  obtain ls where "zone_lines z t (map (\<lambda>r. r\<lparr>r_name := owner r\<rparr>) rs) = Inr ls"
    "length ls = length (filter r_enabled rs)" using zone_lines_ok [OF assms] by blast
  moreover from this have "WriteZoneFile zone ttl (map (\<lambda>r. r\<lparr>r_name := owner r\<rparr>) rs)
    = Inr (unlines ([''$ORIGIN '' @ z @ ''.'', ''$TTL '' @ itoa t, []] @ ls @ (if ls = [] then [soa_line z t] else [])))"
    by (simp add: WriteZoneFile_def Let_def flip: z_def t_def)
  ultimately show ?thesis by blast
qed

lemma zone_lines_each:
  "zone_lines zone ttl rs = Inr ls \<Longrightarrow>
   length ls = length (filter r_enabled rs)
   \<and> (\<forall>l \<in> set ls. \<exists>r \<in> set rs. r_enabled r \<and> formatZoneLine zone ttl r = Inr l)"
  by (induction rs arbitrary: ls) (auto simp: bindR_eq_Inr split: if_splits, blast+)

text \<open>
  A zone with records gets no SOA record: as soon as one record of a zone is enabled, every
  line of its file after the two directives is the line of one of its records, whose type is
  one of the seven the program knows, SOA not among them; the SOA line is written only for a
  zone without an enabled record, and RFC 1035 wants exactly one at the top of every zone.
\<close>

theorem zone_without_soa:
  assumes "WriteZoneFile zone ttl rs = Inr body" and "r \<in> set rs" and "r_enabled r"
  shows "''SOA'' \<notin> set DNSRecordTypes \<and> (\<exists>z t ls. ls \<noteq> []
     \<and> body = unlines ([''$ORIGIN '' @ z @ ''.'', ''$TTL '' @ itoa t, []] @ ls)
     \<and> (\<forall>l \<in> set ls. \<exists>x \<in> set rs. r_enabled x \<and> formatZoneLine z t x = Inr l))"
proof -
  define z where "z = trim_suffix (trim zone) ''.''"
  define t where "t = (if ttl \<le> 0 then 300 else ttl)"
  from assms(1) obtain ls where ls: "zone_lines z t rs = Inr ls"
    and body: "body = unlines ([''$ORIGIN '' @ z @ ''.'', ''$TTL '' @ itoa t, []] @ ls @ (if ls = [] then [soa_line z t] else []))"
    by (auto simp: WriteZoneFile_def Let_def bindR_eq_Inr simp flip: z_def t_def)
  have "filter r_enabled rs \<noteq> []" using assms(2,3) by (auto simp: filter_empty_conv)
  then have "ls \<noteq> []" using zone_lines_each [OF ls] by auto
  then show ?thesis using zone_lines_each [OF ls] body by (auto simp: DNSRecordTypes_def)
qed

section \<open>Text records\<close>

text \<open>A quoted character string of a master file: a backslash makes the next character plain.\<close>

fun txt_read :: "string \<Rightarrow> (string \<times> string) option" where
  "txt_read [] = None"
| "txt_read (c # s) =
     (if c = chr_dquote then Some ([], s)
      else if c = chr_bslash then
        (case s of [] \<Rightarrow> None | x # t \<Rightarrow> map_option (\<lambda>(a, b). (x # a, b)) (txt_read t))
      else map_option (\<lambda>(a, b). (c # a, b)) (txt_read s))"

lemma replace_all_absent: "hd p \<notin> set s \<Longrightarrow> p \<noteq> [] \<Longrightarrow> replace_all p r s = s"
proof (induction s)
  case (Cons c s)
  then have "\<not> has_prefix (c # s) p" by (cases p) (auto simp: has_prefix_def)
  with Cons show ?case by (subst replace_all.simps) simp
qed (simp add: replace_all.simps)

lemma replace_all_Nil [simp]: "replace_all p r [] = []"
  by (subst replace_all.simps) simp

lemma replace_all_chr: "replace_all [x] r (c # s) = (if c = x then r else [c]) @ replace_all [x] r s"
  by (subst replace_all.simps) (simp add: has_prefix_def)

lemma replace_chr_append: "replace_all [x] r (a @ b) = replace_all [x] r a @ replace_all [x] r b"
  by (induction a) (simp_all add: replace_all_chr)

lemma txt_read_escaped:
  "chr_bslash \<notin> set v \<Longrightarrow>
   txt_read (replace_all [chr_dquote] [chr_bslash, chr_dquote] v @ t) = map_option (\<lambda>(a, b). (v @ a, b)) (txt_read t)"
proof (induction v)
  case Nil
  then show ?case by (cases "txt_read t") auto
next
  case (Cons c v)
  then show ?case by (cases "txt_read t") (auto simp: replace_all_chr)
qed

lemma txt_read_backslashes:
  "txt_read (replicate n chr_bslash @ [chr_dquote]) = (if odd n then None else Some (replicate (n div 2) chr_bslash, []))"
proof (induction n rule: nat_induct2)
  case (step n)
  have "replicate (n + 2) chr_bslash = chr_bslash # chr_bslash # replicate n chr_bslash" by (simp add: numeral_2_eq_2)
  then show ?case using step by simp
qed simp_all

lemma no_pair:
  assumes "chr_bslash \<notin> set a"
  shows "replace_all [chr_bslash, chr_dquote] r (a @ replicate n chr_bslash) = a @ replicate n chr_bslash"
proof -
  have "replace_all [chr_bslash, chr_dquote] r (replicate n chr_bslash) = replicate n chr_bslash"
  proof (induction n)
    case (Suc n)
    have "\<not> has_prefix (chr_bslash # replicate n chr_bslash) [chr_bslash, chr_dquote]" by (cases n) (simp_all add: has_prefix_def)
    then show ?case using Suc by (subst replace_all.simps) simp
  qed simp
  then show ?thesis using assms
  proof (induction a)
    case (Cons c a)
    then have "\<not> has_prefix (c # a @ replicate n chr_bslash) [chr_bslash, chr_dquote]" by (auto simp: has_prefix_def)
    then show ?case using Cons by (subst replace_all.simps) simp
  qed simp
qed

text \<open>
  C35. What quoting does to the text of a record, for a value that is not already quoted and whose only backslashes are \<open>n\<close>
  at its end: it is written as one quoted string, which a reader of master files takes back to exactly the value when
  there is no backslash, quotes inside it included; when \<open>n\<close> is even the reader gets the value with half of the backslashes;
  and when \<open>n\<close> is odd the string never ends.
\<close>

theorem formatTXT_reads_back:
  assumes "chr_bslash \<notin> set a" and "v = a @ replicate n chr_bslash"
    and "\<not> (has_prefix v [chr_dquote] \<and> has_suffix v [chr_dquote])"
  shows "\<exists>s. formatTXT v = chr_dquote # s
    \<and> txt_read s = (if odd n then None else Some (a @ replicate (n div 2) chr_bslash, []))"
proof -
  have q: "replace_all [chr_dquote] r (replicate n chr_bslash) = replicate n chr_bslash" for r
    by (rule replace_all_absent) simp_all
  have "formatTXT v = chr_dquote # replace_all [chr_dquote] [chr_bslash, chr_dquote] a @ replicate n chr_bslash @ [chr_dquote]"
    unfolding formatTXT_def if_not_P [OF assms(3)] Let_def unfolding assms(2) no_pair [OF assms(1)] replace_chr_append q by simp
  then show ?thesis by (simp add: txt_read_escaped [OF assms(1)] txt_read_backslashes)
qed

section \<open>A line break in a reverse name\<close>

definition evil_ptr :: dns_record where
  "evil_ptr = \<lparr>r_id = [], r_name = ''9.vpn'', r_type = ''PTR'',
     r_value = ''a.b.'' @ [chr_nl] @ ''@ 60 IN NS evil.example'', r_ttl = 300, r_enabled = True\<rparr>"

text \<open>
  A validated record can write records of its own: the value of a PTR record is checked for empty
  labels only, so a value with a line break passes \<open>ValidateDNSRewrite\<close>, and the zone file
  gets a second line of the value's choosing.
\<close>

theorem ptr_value_injects:
  "ValidateDNSRewrite uni evil_ptr = None
   \<and> (\<exists>l. formatZoneLine ''vpn'' 300 (evil_ptr\<lparr>r_name := ''9''\<rparr>) = Inr l
        \<and> split_on chr_nl l = [''9 300 IN PTR a.b.'', ''@ 60 IN NS evil.example.''])"
proof -
  have label: "validateDNSLabel uni ''9'' = None" "validateDNSLabel uni ''vpn'' = None"
    by (simp_all add: validateDNSLabel_def runes.simps rune1_def letter_or_digit_def)
  have name: "NormalizeDNSRewriteDomain ''9.vpn'' = ''9.vpn''"
    by (simp add: NormalizeDNSRewriteDomain_def toLower_def lower_chr_def str_eval)
  have ptr: "NormalizeDNSRecordType ''PTR'' = Inr ''PTR''"
    by (simp add: NormalizeDNSRecordType_def DNSRecordTypes_def toUpper_def upper_chr_def str_eval)
  have val: "trim (r_value evil_ptr) = r_value evil_ptr"
    by (rule trim_trimmed, rule trimmed_plain_ends) (simp_all add: evil_ptr_def plain_def ascii_space_def)
  have "ValidateDNSRewrite uni evil_ptr = None"
    unfolding ValidateDNSRewrite_def Let_def val
    by (simp add: evil_ptr_def name ptr validateRewriteDomainLabels_def label validate_value_def
        validateDNSHostname_def val [unfolded evil_ptr_def, simplified] trim_suffix_def has_suffix_def)
  moreover have "itoa 300 = ''300''" by (simp add: itoa_def nat_base.simps digit_def)
  moreover have "trim ''9'' = ''9''" by (simp add: str_eval)
  ultimately show ?thesis
    by (simp add: formatZoneLine_def evil_ptr_def ptr formatHostRdata_def rr_def
        val [unfolded evil_ptr_def, simplified] trim_suffix_def has_suffix_def)
qed

section \<open>Witnesses\<close>

definition ex_txt :: dns_record where
  "ex_txt = \<lparr>r_id = ''r1'', r_name = ''9.vpn'', r_type = ''TXT'', r_value = ''hi'', r_ttl = 0, r_enabled = True\<rparr>"

lemma ex_txt_valid: "ValidateDNSRewrite uni ex_txt = None"
proof -
  have label: "validateDNSLabel uni ''9'' = None" "validateDNSLabel uni ''vpn'' = None"
    by (simp_all add: validateDNSLabel_def runes.simps rune1_def letter_or_digit_def)
  show ?thesis
    by (simp add: ValidateDNSRewrite_def NormalizeDNSRewriteDomain_def NormalizeDNSRecordType_def DNSRecordTypes_def
        toLower_def lower_chr_def toUpper_def upper_chr_def ex_txt_def validateRewriteDomainLabels_def label
        validate_value_def str_eval)
qed

definition ex_rules :: "dns_rule list" where
  "ex_rules = [\<lparr>dr_id = ''1'', dr_domain = ''9.x'', dr_type = ''block'', dr_enabled = True\<rparr>,
       \<lparr>dr_id = ''2'', dr_domain = ''8.x'', dr_type = ''block'', dr_enabled = True\<rparr>,
       \<lparr>dr_id = ''3'', dr_domain = ''8.x'', dr_type = ''allow'', dr_enabled = True\<rparr>]"

lemma ex_domains: "NormalizeDNSRewriteDomain ''9.x'' = ''9.x''" "NormalizeDNSRewriteDomain ''8.x'' = ''8.x''"
  by (simp_all add: NormalizeDNSRewriteDomain_def trim_plain plain_def ascii_space_def toLower_def lower_chr_def
      trim_suffix_def has_suffix_def)

lemma ex_kinds: "toLower ''block'' = ''block''" "toLower ''allow'' = ''allow''"
  by (simp_all add: toLower_def lower_chr_def)

lemma ex_rule_domains:
  "rule_domains ''block'' ex_rules = [''9.x'', ''8.x'']" "rule_domains ''allow'' ex_rules = [''8.x'']"
  by (simp_all add: ex_rules_def rule_domains_def NormalizeDNSDomainRule_def ex_domains ex_kinds)

lemma blocked_domains_witness:
  "\<exists>out. CollectBlockedDomains rev (\<lambda>_. Inl ErrNoRows) (\<lambda>_. False) (\<lambda>_. False) DefaultDNSSettings
      ex_rules ''/d'' Map.empty = (Map.empty, Inr out) \<and> set out = {''9.x''}"
proof -
  let ?c = "CollectBlockedDomains rev (\<lambda>_. Inl ErrNoRows) (\<lambda>_. False) (\<lambda>_. False) DefaultDNSSettings
      ex_rules ''/d'' Map.empty"
  have ads: "ds_block_ads DefaultDNSSettings = False" by (simp add: DefaultDNSSettings_def)
  obtain f r where c: "?c = (f, r)" by (cases ?c)
  have "f = Map.empty \<and> (\<exists>out. r = Inr out \<and> set out = {''9.x'', ''8.x''} - {''8.x''})"
    using blocked_domains [of rev "\<lambda>_. Inl ErrNoRows" "\<lambda>_. False" "\<lambda>_. False" DefaultDNSSettings ex_rules "''/d''" Map.empty]
    unfolding c ads ex_rule_domains by auto
  then show ?thesis unfolding c by auto
qed

lemma validated_zone_renders_witness:
  "\<exists>body. WriteZoneFile ''vpn'' 300 (map (\<lambda>r. r\<lparr>r_name := ''9''\<rparr>) [ex_txt]) = Inr body"
  using validated_zone_renders [of "[ex_txt]" "\<lambda>_. False" "''vpn''" 300 "\<lambda>_. ''9''"] ex_txt_valid by auto

lemma zone_without_soa_witness:
  "\<exists>z t ls. ls \<noteq> [] \<and> WriteZoneFile ''vpn'' 300 [ex_txt\<lparr>r_name := ''9''\<rparr>]
     = Inr (unlines ([''$ORIGIN '' @ z @ ''.'', ''$TTL '' @ itoa t, []] @ ls))"
proof -
  let ?r = "ex_txt\<lparr>r_name := ''9''\<rparr>"
  have "\<exists>body. WriteZoneFile ''vpn'' 300 [?r] = Inr body"
    using formatZoneLine_ok [OF ex_txt_valid, of _ _ "''9''"]
    by (fastforce simp: WriteZoneFile_def Let_def bindR_eq_Inr ex_txt_def)
  then obtain body where body: "WriteZoneFile ''vpn'' 300 [?r] = Inr body" by blast
  have "r_enabled ?r" by (simp add: ex_txt_def)
  with zone_without_soa [OF body, of ?r] body show ?thesis by auto
qed

lemma formatTXT_reads_back_witness:
  "(\<exists>s. formatTXT ''say hi'' = chr_dquote # s \<and> txt_read s = Some (''say hi'', []))
    \<and> (\<exists>s. formatTXT (''a'' @ [chr_bslash]) = chr_dquote # s \<and> txt_read s = None)
    \<and> (\<exists>s. formatTXT (''a'' @ [chr_bslash, chr_bslash]) = chr_dquote # s \<and> txt_read s = Some (''a'' @ [chr_bslash], []))"
  using formatTXT_reads_back [of "''say hi''" _ 0] formatTXT_reads_back [of "''a''" _ 1] formatTXT_reads_back [of "''a''" _ 2]
  by (simp add: has_prefix_def numeral_eq_Suc)

end
