(* ===== verification/Dns_Listen.thy ===== *)
theory Dns_Listen
  imports Dns_Files
begin

text \<open>
  Which address the resolver binds and which one clients are told to use,
  \<open>internal/wireguard/dns_listen.go\<close> and \<open>internal/wireguard/dns_auto.go\<close>, with the parts of
  Go's \<open>net\<close> package they use.
\<close>

section \<open>Host and port\<close>

definition JoinHostPort :: "string \<Rightarrow> string \<Rightarrow> string" where
  "JoinHostPort host port =
     (if CHR '':'' \<in> set host then ''['' @ host @ '']:'' @ port else host @ '':'' @ port)"

text \<open>Everything before and after the last occurrence of a character.\<close>

definition cut_last :: "char \<Rightarrow> string \<Rightarrow> (string \<times> string) option" where
  "cut_last c s = map_option (\<lambda>(a, b). (rev b, rev a)) (cutAt c (rev s))"

definition SplitHostPort :: "string \<Rightarrow> (string \<times> string) option" where
  "SplitHostPort hp =
     (case cut_last (CHR '':'') hp of
        None \<Rightarrow> None
      | Some (before, port) \<Rightarrow>
          if has_prefix hp ''['' then
            (case cutAt (CHR '']'') hp of
               None \<Rightarrow> None
             | Some (pre, post) \<Rightarrow>
                 if post = CHR '':'' # port \<and> CHR ''['' \<notin> set (tl hp) \<and> CHR '']'' \<notin> set post
                 then Some (tl pre, port) else None)
          else if CHR '':'' \<in> set before then None
          else if CHR ''['' \<in> set hp \<or> CHR '']'' \<in> set hp then None
          else Some (before, port))"

section \<open>The resolver's address\<close>

definition DefaultAutoDNSHost :: string where
  "DefaultAutoDNSHost = ''169.254.20.10''"

definition DNSServerHost :: "db \<Rightarrow> string res" where
  "DNSServerHost d =
     (case sc_config (GetSystemConfig d) of
        None \<Rightarrow> Inl (ErrMsg ''WireGuard is not configured yet'')
      | Some w \<Rightarrow>
          (case parseServerIPv4 (w_server_address w) of
             None \<Rightarrow> Inl (ErrMsg ''invalid WireGuard server address'')
           | Some ip \<Rightarrow> Inr (show_v4 ip)))"

definition NormalizeDNSHost :: "string \<Rightarrow> string res" where
  "NormalizeDNSHost host0 =
     (let host = trim host0 in
      if host = [] then Inl (ErrMsg ''listen address is empty'')
      else (case parseServerIPv4 host of
              Some ip \<Rightarrow> Inr (show_v4 ip)
            | None \<Rightarrow>
                (let ipStr = (case cutAt (CHR ''/'') host of Some (a, _) \<Rightarrow> trim a | None \<Rightarrow> host) in
                 (case parseIP ipStr of
                    Some ip \<Rightarrow> Inr (show_ip ip)
                  | None \<Rightarrow> Inl (ErrMsg ''invalid listen address'')))))"

definition hostFromStoredListenAddr :: "string \<Rightarrow> string" where
  "hostFromStoredListenAddr listen0 =
     (let listen = trim listen0 in
      if listen = [] then []
      else if CHR '':'' \<in> set listen then
        (case SplitHostPort listen of Some (host, _) \<Rightarrow> trim host | None \<Rightarrow> listen)
      else listen)"

definition first_set :: "string list \<Rightarrow> string" where
  "first_set hs = (case dropWhile (\<lambda>h. h = []) hs of [] \<Rightarrow> [] | h # _ \<Rightarrow> h)"

definition resolveListenHost :: "db \<Rightarrow> dns_settings_row \<Rightarrow> string res" where
  "resolveListenHost d s =
     (let host = first_set [trim (ds_listen_host s), trim (ds_client_dns_host s),
                            hostFromStoredListenAddr (ds_listen_addr s)] in
      if host = [] then DNSServerHost d else NormalizeDNSHost host)"

definition DNSResolverHost :: "db \<Rightarrow> dns_settings_row \<Rightarrow> string res" where
  "DNSResolverHost d s =
     (let host = first_set [trim (ds_client_dns_host s), trim (ds_listen_host s),
                            hostFromStoredListenAddr (ds_listen_addr s)] in
      if host = [] then DNSServerHost d else NormalizeDNSHost host)"

definition ResolveDNSListenAddress :: "db \<Rightarrow> dns_settings_row \<Rightarrow> string res" where
  "ResolveDNSListenAddress d s =
     (let port = (if ds_listen_port s \<le> 0 then 53 else ds_listen_port s) in
      if port > 65535 then Inl (ErrMsg ''invalid DNS listen port'')
      else bindR (resolveListenHost d s) (\<lambda>host. Inr (JoinHostPort host (itoa port))))"

definition ClientDNS :: "db \<Rightarrow> string res" where
  "ClientDNS d =
     (let cfg = GetDNSSettings d;
          plain_dns = (case sc_config (GetSystemConfig d) of None \<Rightarrow> [] | Some w \<Rightarrow> trim (w_dns w)) in
      if ds_enabled cfg then
        bindR (DNSResolverHost d cfg) (\<lambda>host. Inr (if host \<noteq> [] then host else plain_dns))
      else Inr plain_dns)"

definition IsLinkLocalDNSHost :: "string \<Rightarrow> bool" where
  "IsLinkLocalDNSHost ip =
     (case parseIP4 (trim ip) of
        None \<Rightarrow> False
      | Some a \<Rightarrow> net_contains4 (Net4 (v4_of_octets 169 254 0 0) 16) a)"

definition TryDNSServerHost :: "db \<Rightarrow> string option" where
  "TryDNSServerHost d = (case DNSServerHost d of Inl _ \<Rightarrow> None | Inr h \<Rightarrow> if h = [] then None else Some h)"

definition allocateAutoDNSHost :: "db \<Rightarrow> string" where
  "allocateAutoDNSHost d = (case TryDNSServerHost d of Some h \<Rightarrow> h | None \<Rightarrow> DefaultAutoDNSHost)"

definition EnsureAutoDNSHost :: "db \<Rightarrow> dns_settings_row \<Rightarrow> dns_settings_row \<times> bool" where
  "EnsureAutoDNSHost d s =
     (let clientHost = trim (ds_client_dns_host s); listenHost = trim (ds_listen_host s);
          stored = hostFromStoredListenAddr (ds_listen_addr s);
          legacy = (clientHost = DefaultAutoDNSHost \<and> listenHost = [] \<and> stored = []) in
      if (clientHost \<noteq> [] \<or> listenHost \<noteq> [] \<or> stored \<noteq> []) \<and> \<not> legacy then (s, False)
      else
        (let autoHost = allocateAutoDNSHost d in
         if clientHost = autoHost then (s, False) else (s\<lparr>ds_client_dns_host := autoHost\<rparr>, True)))"

definition SuggestDedicatedDNSHost :: "string \<Rightarrow> string" where
  "SuggestDedicatedDNSHost serverHost = (if trim serverHost \<noteq> [] then trim serverHost else DefaultAutoDNSHost)"

section \<open>The listen address of the manager\<close>

definition splitListenAddr :: "string \<Rightarrow> (string \<times> string) res" where
  "splitListenAddr addr0 =
     (let addr = trim addr0 in
      if addr = [] then Inl (ErrMsg ''listen address is empty'')
      else if has_prefix addr '':'' then Inr (''0.0.0.0'', trim_prefix addr '':'')
      else (case SplitHostPort addr of
              None \<Rightarrow> Inl (ErrMsg ''invalid listen address'')
            | Some (host, port) \<Rightarrow> Inr (if host = [] then ''0.0.0.0'' else host, port)))"

section \<open>Facts\<close>

lemma digits_no: "\<not> is_digit c \<Longrightarrow> c \<noteq> CHR ''-'' \<Longrightarrow> c \<notin> set (itoa i)"
  using itoa_chars by blast

lemma show_v4_addr_chars: "c \<in> set (show_v4 a) \<Longrightarrow> c \<noteq> CHR '':'' \<and> c \<noteq> CHR ''['' \<and> c \<noteq> CHR '']'' \<and> c \<noteq> CHR ''/''"
  using show_v4_chars [of c a] by (auto simp: is_digit_def)

text \<open>The characters of an address, which need no quoting anywhere.\<close>

definition addr_char :: "char \<Rightarrow> bool" where
  "addr_char c \<longleftrightarrow> is_hex c \<or> c = CHR '':'' \<or> c = CHR ''.''"

lemma addr_char_simps:
  "addr_char c \<Longrightarrow> plain c" "addr_char c \<Longrightarrow> c \<noteq> CHR ''[''" "addr_char c \<Longrightarrow> c \<noteq> CHR '']''" "addr_char c \<Longrightarrow> c \<noteq> CHR ''/''"
  "addr_char c \<Longrightarrow> c \<noteq> CHR '',''"
  by (auto simp: addr_char_def is_hex_def plain_def ascii_space_def Let_def)

lemma digit_is_hex: "k < 16 \<Longrightarrow> is_hex (digit k)"
proof -
  assume k: "k < 16"
  have "list_all is_hex ''0123456789abcdef''" by (simp add: is_hex_def Let_def)
  moreover have "length ''0123456789abcdef'' = 16" by simp
  ultimately show ?thesis unfolding digit_def using k by (metis list_all_length)
qed

lemma nat_base_16_hex: "list_all is_hex (nat_base 16 n)"
proof (induction "16 :: nat" n rule: nat_base.induct)
  case (1 n)
  then show ?case by (subst nat_base.simps) (simp add: digit_is_hex)
qed

lemma join_chars: "c \<in> set (join sep ws) \<Longrightarrow> c \<in> set sep \<or> (\<exists>w \<in> set ws. c \<in> set w)"
  using set_join [of sep ws] by auto

lemma show_v6_chars: "c \<in> set (show_v6 a) \<Longrightarrow> addr_char c"
proof -
  assume c: "c \<in> set (show_v6 a)"
  define hex where "hex = map (nat_base 16) (v6_groups a)"
  have hex: "addr_char x" if "w \<in> set hex" "x \<in> set w" for x w
    using that nat_base_16_hex by (auto simp: hex_def addr_char_def list_all_iff)
  have colon: "addr_char (CHR '':'')" by (simp add: addr_char_def)
  have "addr_char x" if "x \<in> set (join '':'' ws)" "set ws \<subseteq> set hex" for x ws
    using join_chars [OF that(1)] hex colon that(2) by auto
  moreover have "set (take i hex) \<subseteq> set hex" "set (drop i hex) \<subseteq> set hex" for i
    by (rule set_take_subset, rule set_drop_subset)
  ultimately show ?thesis
    using c colon unfolding show_v6_def Let_def hex_def [symmetric] by (auto split: if_splits)
qed

lemma show_ip_chars: "c \<in> set (show_ip a) \<Longrightarrow> addr_char c"
  using show_v4_chars show_v6_chars
  by (fastforce simp: show_ip_def addr_char_def is_digit_def is_hex_def Let_def split: option.splits)

lemma show_v6_neq_Nil: "show_v6 a \<noteq> []"
proof -
  have "join '':'' (map (nat_base 16) (v6_groups a)) \<noteq> []" by (simp add: v6_groups_def upt_rec)
  then show ?thesis by (simp add: show_v6_def Let_def)
qed

lemma show_ip_neq_Nil: "show_ip a \<noteq> []"
  by (simp add: show_ip_def show_v6_neq_Nil split: option.splits)

lemma split_join_host:
  assumes "\<forall>c \<in> set h. addr_char c" and "CHR '':'' \<notin> set p" "CHR ''['' \<notin> set p" "CHR '']'' \<notin> set p"
  shows "SplitHostPort (JoinHostPort h p) = Some (h, p)"
proof -
  have b: "CHR ''['' \<notin> set h" "CHR '']'' \<notin> set h" using assms(1) addr_char_simps(2,3) by blast+
  show ?thesis
  proof (cases "CHR '':'' \<in> set h")
    case True
    let ?hp = "CHR ''['' # h @ CHR '']'' # CHR '':'' # p"
    have "cut_last (CHR '':'') ?hp = Some (CHR ''['' # h @ '']'', p)"
      using assms(2) cutAt_append [of "CHR '':''" "rev p" "CHR '']'' # rev h @ ''[''"] by (simp add: cut_last_def)
    moreover have "cutAt (CHR '']'') ?hp = Some (CHR ''['' # h, CHR '':'' # p)"
      using b cutAt_append [of "CHR '']''" "CHR ''['' # h" "CHR '':'' # p"] by simp
    ultimately show ?thesis
      using True b assms(3,4) by (simp add: SplitHostPort_def JoinHostPort_def has_prefix_def)
  next
    case False
    have "cut_last (CHR '':'') (h @ CHR '':'' # p) = Some (h, p)"
      using assms(2) cutAt_append [of "CHR '':''" "rev p" "rev h"] by (simp add: cut_last_def)
    moreover have "\<not> has_prefix (h @ CHR '':'' # p) ''[''" using b by (cases h) (auto simp: has_prefix_def)
    ultimately show ?thesis using False b assms(3,4) by (simp add: SplitHostPort_def JoinHostPort_def)
  qed
qed

definition addr_text :: "string \<Rightarrow> bool" where
  "addr_text h \<longleftrightarrow> h \<noteq> [] \<and> (\<forall>c \<in> set h. addr_char c)"

lemma addr_text_show: "addr_text (show_v4 a)" "addr_text (show_ip b)"
proof -
  show "addr_text (show_ip b)" using show_ip_chars show_ip_neq_Nil by (simp add: addr_text_def)
  have "show_ip (v4_mapped a) = show_v4 a" by (simp add: show_ip_def)
  then show "addr_text (show_v4 a)" using show_ip_chars [of _ "v4_mapped a"] by (simp add: addr_text_def)
qed

lemma DNSServerHost_text: "DNSServerHost d = Inr h \<Longrightarrow> addr_text h"
  by (auto simp: DNSServerHost_def addr_text_show split: option.splits)

lemma NormalizeDNSHost_text: "NormalizeDNSHost s = Inr h \<Longrightarrow> addr_text h"
  by (auto simp: NormalizeDNSHost_def Let_def addr_text_show split: option.splits if_splits)

lemma resolveListenHost_text: "resolveListenHost d s = Inr h \<Longrightarrow> addr_text h"
  using DNSServerHost_text NormalizeDNSHost_text by (auto simp: resolveListenHost_def Let_def split: if_splits)

lemma split_listen:
  assumes "addr_text h" and "0 \<le> i"
  shows "splitListenAddr (JoinHostPort h (itoa i)) = Inr (h, itoa i)"
proof -
  let ?p = "itoa i"
  have p: "CHR '':'' \<notin> set ?p" "CHR ''['' \<notin> set ?p" "CHR '']'' \<notin> set ?p"
    by (rule digits_no; simp add: is_digit_def)+
  obtain x t where h: "h = x # t" "addr_char x" using assms(1) by (cases h) (auto simp: addr_text_def)
  have "plain (CHR '':'')" "plain (CHR ''['')" "plain (CHR '']'')" by (auto simp: plain_def ascii_space_def)
  then have "\<forall>c \<in> set (JoinHostPort h ?p). plain c"
    using assms(1) itoa_plain addr_char_simps(1) by (auto simp: JoinHostPort_def addr_text_def)
  then have t: "trim (JoinHostPort h ?p) = JoinHostPort h ?p" by (rule trim_plain)
  have np: "\<not> has_prefix (JoinHostPort h ?p) '':''" and ne: "JoinHostPort h ?p \<noteq> []"
    by (auto simp: JoinHostPort_def h has_prefix_def)
  have "SplitHostPort (JoinHostPort h ?p) = Some (h, ?p)"
    using split_join_host [OF _ p] assms(1) by (simp add: addr_text_def)
  then show ?thesis using np ne t h by (simp add: splitListenAddr_def Let_def)
qed

text \<open>
  The address the resolver is told to listen on reads back: whatever the settings and the
  configuration hold, when \<open>ResolveDNSListenAddress\<close> gives an address, the manager's
  \<open>splitListenAddr\<close> gets back exactly the host that was resolved, IPv4 or bracketed IPv6, and
  a port between 1 and 65535, the configured one or 53.
\<close>

theorem listen_address_splits:
  assumes "ResolveDNSListenAddress d s = Inr addr"
  shows "\<exists>host port. resolveListenHost d s = Inr host \<and> splitListenAddr addr = Inr (host, itoa port)
    \<and> 1 \<le> port \<and> port \<le> 65535 \<and> port = (if ds_listen_port s \<le> 0 then 53 else ds_listen_port s)"
proof -
  define port where "port = (if ds_listen_port s \<le> 0 then 53 else ds_listen_port s)"
  from assms obtain host where host: "resolveListenHost d s = Inr host" "addr = JoinHostPort host (itoa port)"
    and "port \<le> 65535"
    by (auto simp: ResolveDNSListenAddress_def Let_def bindR_eq_Inr port_def split: if_splits)
  moreover have "1 \<le> port" by (simp add: port_def)
  ultimately show ?thesis
    using split_listen [OF resolveListenHost_text [OF host(1)], of port] by (auto simp: port_def)
qed

section \<open>The automatic address\<close>

lemma addr_text_trim: "addr_text h \<Longrightarrow> trim h = h"
  using addr_char_simps(1) by (simp add: addr_text_def)

lemma allocate_text: "addr_text (allocateAutoDNSHost d)"
proof (cases "DNSServerHost d")
  case (Inl e)
  then show ?thesis
    by (simp add: allocateAutoDNSHost_def TryDNSServerHost_def DefaultAutoDNSHost_def addr_text_def addr_char_def is_hex_def)
next
  case (Inr h)
  then show ?thesis using DNSServerHost_text [OF Inr]
    by (simp add: allocateAutoDNSHost_def TryDNSServerHost_def addr_text_def)
qed

lemma parseServerIPv4_show: "parseServerIPv4 (show_v4 a) = Some a"
  by (simp add: parseServerIPv4_def show_v4_no is_digit_def show_v4_plain)

lemma DefaultAutoDNSHost_v4: "DefaultAutoDNSHost = show_v4 (v4_of_octets 169 254 20 10)"
  by (simp add: DefaultAutoDNSHost_def net_eval v4_of_octets_def nat_base.simps digit_def)

lemma NormalizeDNSHost_v4: "NormalizeDNSHost (show_v4 a) = Inr (show_v4 a)"
  using addr_text_trim [OF addr_text_show(1)] by (simp add: NormalizeDNSHost_def parseServerIPv4_show)

lemma NormalizeDNSHost_allocated: "NormalizeDNSHost (allocateAutoDNSHost d) = Inr (allocateAutoDNSHost d)"
proof -
  have "\<exists>a. allocateAutoDNSHost d = show_v4 a"
  proof (cases "DNSServerHost d")
    case (Inl e)
    then show ?thesis using DefaultAutoDNSHost_v4 by (auto simp: allocateAutoDNSHost_def TryDNSServerHost_def)
  next
    case (Inr h)
    then show ?thesis by (auto simp: allocateAutoDNSHost_def TryDNSServerHost_def DNSServerHost_def split: option.splits)
  qed
  then show ?thesis using NormalizeDNSHost_v4 by metis
qed

text \<open>
  The automatic address settles at once and is one the server answers on: when
  \<open>EnsureAutoDNSHost\<close> changes the settings, listener and clients then get the same address, the
  server's own or the link-local fallback, and a second call changes nothing.
\<close>

theorem auto_host_settles:
  "case EnsureAutoDNSHost d s of (s', changed) \<Rightarrow>
     EnsureAutoDNSHost d s' = (s', False)
   \<and> (if changed then resolveListenHost d s' = Inr (allocateAutoDNSHost d)
        \<and> DNSResolverHost d s' = Inr (allocateAutoDNSHost d) else s' = s)"
proof -
  have t: "trim (allocateAutoDNSHost d) = allocateAutoDNSHost d" "allocateAutoDNSHost d \<noteq> []"
    using addr_text_trim [OF allocate_text] allocate_text [of d] by (simp_all add: addr_text_def)
  have "trim DefaultAutoDNSHost = DefaultAutoDNSHost" "DefaultAutoDNSHost \<noteq> []"
      "NormalizeDNSHost DefaultAutoDNSHost = Inr DefaultAutoDNSHost"
    using addr_text_trim [OF addr_text_show(1)] NormalizeDNSHost_v4 by (simp_all add: DefaultAutoDNSHost_v4)
  then show ?thesis
    by (auto simp: EnsureAutoDNSHost_def Let_def t resolveListenHost_def DNSResolverHost_def first_set_def
        NormalizeDNSHost_allocated)
qed


section \<open>Witness\<close>

lemma listen_address_splits_witness:
  "splitListenAddr (JoinHostPort DefaultAutoDNSHost ''5353'') = Inr (DefaultAutoDNSHost, ''5353'')"
proof -
  let ?s = "DefaultDNSSettings\<lparr>ds_listen_host := DefaultAutoDNSHost, ds_listen_port := 5353\<rparr>"
  have "trim DefaultAutoDNSHost = DefaultAutoDNSHost" "DefaultAutoDNSHost \<noteq> []"
    "NormalizeDNSHost DefaultAutoDNSHost = Inr DefaultAutoDNSHost"
    using addr_text_trim [OF addr_text_show(1)] NormalizeDNSHost_v4 by (simp_all add: DefaultAutoDNSHost_v4)
  then have r: "resolveListenHost db_empty ?s = Inr DefaultAutoDNSHost"
    by (simp add: resolveListenHost_def first_set_def)
  have p: "itoa 5353 = ''5353''" by (simp add: itoa_def nat_base.simps digit_def)
  have "ResolveDNSListenAddress db_empty ?s = Inr (JoinHostPort DefaultAutoDNSHost ''5353'')"
    by (simp add: ResolveDNSListenAddress_def r p)
  from listen_address_splits [OF this] show ?thesis by (auto simp: r p)
qed

end
