(* ===== verification/Wg_Apply.thy ===== *)
theory Wg_Apply
  imports Wg_Config
begin

text \<open>
  Bringing the written configuration to the running interface, \<open>internal/wireguard/apply.go\<close>. The world is a file system and the rest
  of the machine; the programs \<open>wg\<close> and \<open>wg-quick\<close> are a parameter, a function of argument
  vector and world.
\<close>

section \<open>Running programs\<close>

record 'm world =
  wd_fs :: fs
  wd_machine :: 'm

record outcome =
  o_ok :: bool
  o_stdout :: string
  o_stderr :: string
  o_err :: string
  o_timeout :: bool

type_synonym 'm run = "string list \<Rightarrow> 'm world \<Rightarrow> 'm world \<times> outcome"

definition execStdoutTimeout :: "'m run \<Rightarrow> string list \<Rightarrow> 'm world \<Rightarrow> 'm world \<times> string res" where
  "execStdoutTimeout run argv wd =
     (let (wd', out) = run argv wd in
      if o_ok out then (wd', Inr (o_stdout out))
      else
        (let msg = trim (o_stderr out);
             msg = (if msg = [] then trim (o_stdout out) else msg);
             msg = (if msg = [] then (if o_timeout out then ''command timed out'' else o_err out) else msg) in
         (wd', Inl (ErrMsg msg))))"

definition errText :: "goerr \<Rightarrow> string" where
  "errText e = (case e of ErrMsg m \<Rightarrow> m | ErrIO m \<Rightarrow> m | ErrConstraint m \<Rightarrow> m | ErrNullScan m \<Rightarrow> m
     | ErrWrap m _ \<Rightarrow> m | _ \<Rightarrow> [])"

definition isInterfaceDown :: "goerr option \<Rightarrow> bool" where
  "isInterfaceDown err =
     (case err of
        None \<Rightarrow> False
      | Some e \<Rightarrow>
          (let msg = toLower (errText e) in
           contains_str msg ''is not a wireguard interface'' \<or> contains_str msg ''does not exist''
           \<or> contains_str msg ''not found'' \<or> contains_str msg ''no such device''))"

section \<open>Choosing the interface\<close>

definition path_base :: "string \<Rightarrow> string" where
  "path_base p =
     (if p = [] then ''.''
      else (let q = trimRight ''/'' p in if q = [] then ''/'' else last (split_on (CHR ''/'') q)))"

definition path_ext :: "string \<Rightarrow> string" where
  "path_ext p =
     (let r = rev p; pre = takeWhile (\<lambda>c. c \<noteq> CHR ''.'' \<and> c \<noteq> CHR ''/'') r; rest = drop (length pre) r in
      if rest \<noteq> [] \<and> hd rest = CHR ''.'' then CHR ''.'' # rev pre else [])"

definition interfaceFromConf :: "string \<Rightarrow> string" where
  "interfaceFromConf confPath =
     (let base = path_base confPath; ext = path_ext base in
      if ext = [] then base else trim_suffix base ext)"

definition pickInterface :: "string \<Rightarrow> string \<Rightarrow> string \<Rightarrow> string" where
  "pickInterface raw preferred confIface =
     (let parts = str_fields (trim raw) in
      if parts = [] then []
      else if trim preferred \<noteq> [] \<and> trim preferred \<in> set parts then trim preferred
      else if trim confIface \<noteq> [] \<and> trim confIface \<in> set parts then trim confIface
      else hd parts)"

definition activeInterface :: "'m run \<Rightarrow> string \<Rightarrow> string \<Rightarrow> 'm world \<Rightarrow> 'm world \<times> string" where
  "activeInterface run confPath configuredInterface wd =
     (let (wd', out) = execStdoutTimeout run [''wg'', ''show'', ''interfaces''] wd;
          ifaces = (case out of Inr s \<Rightarrow> s | Inl _ \<Rightarrow> []) in
      (wd', pickInterface ifaces configuredInterface (interfaceFromConf confPath)))"

section \<open>Reload and restart\<close>

definition keep_line :: "string \<Rightarrow> bool" where
  "keep_line line \<longleftrightarrow> trim line \<noteq> [] \<and> \<not> has_prefix (toLower (trim line)) ''warning:''"

definition cleanWGQuickStripOutput :: "string \<Rightarrow> string" where
  "cleanWGQuickStripOutput raw = unlines (filter keep_line (split_on chr_nl raw))"

definition syncconf :: "'m run \<Rightarrow> bool \<Rightarrow> string \<Rightarrow> string \<Rightarrow> 'm world \<Rightarrow> 'm world \<times> goerr option" where
  "syncconf run tmp_fails iface confPath wd =
     (case execStdoutTimeout run [''wg-quick'', ''strip'', confPath] wd of
        (wd1, Inl e) \<Rightarrow> (wd1, Some e)
      | (wd1, Inr raw) \<Rightarrow>
          (let out = cleanWGQuickStripOutput raw; tmp = confPath @ ''.peers.tmp'' in
           if trim out = [] then (wd1, Some (ErrMsg ''wg-quick strip produced empty peer configuration''))
           else if tmp_fails then (wd1, Some (ErrIO ''write''))
           else
             (case execStdoutTimeout run [''wg'', ''syncconf'', iface, tmp]
                     (wd1\<lparr>wd_fs := (wd_fs wd1)(tmp \<mapsto> out)\<rparr>) of
                (wd2, r) \<Rightarrow>
                  (wd2\<lparr>wd_fs := (wd_fs wd2)(tmp := None)\<rparr>,
                   (case r of Inl e \<Rightarrow> Some e | Inr _ \<Rightarrow> None)))))"

definition errOf :: "'m world \<times> string res \<Rightarrow> 'm world \<times> goerr option" where
  "errOf r = (fst r, (case snd r of Inl e \<Rightarrow> Some e | Inr _ \<Rightarrow> None))"

definition ApplyConfig :: "'m run \<Rightarrow> bool \<Rightarrow> string \<Rightarrow> string \<Rightarrow> 'm world \<Rightarrow> 'm world \<times> goerr option" where
  "ApplyConfig run tmp_fails dataDir configuredInterface wd =
     (let confPath = wg_conf_path dataDir in
      if wd_fs wd confPath = None then (wd, Some (ErrIO ''stat''))
      else
        (let (wd1, iface) = activeInterface run confPath configuredInterface wd in
         if iface = [] then errOf (execStdoutTimeout run [''wg-quick'', ''up'', confPath] wd1)
         else syncconf run tmp_fails iface confPath wd1))"

definition RestartConfig :: "'m run \<Rightarrow> string \<Rightarrow> string \<Rightarrow> 'm world \<Rightarrow> 'm world \<times> goerr option" where
  "RestartConfig run dataDir configuredInterface wd =
     (let confPath = wg_conf_path dataDir in
      if wd_fs wd confPath = None then (wd, Some (ErrIO ''stat''))
      else
        (let (wd1, iface) = activeInterface run confPath configuredInterface wd;
             (wd2, down) =
               (if iface \<noteq> [] then errOf (execStdoutTimeout run [''wg-quick'', ''down'', confPath] wd1)
                else (wd1, None)) in
         if down \<noteq> None \<and> \<not> isInterfaceDown down then (wd2, down)
         else errOf (execStdoutTimeout run [''wg-quick'', ''up'', confPath] wd2)))"

definition SyncFromDB ::
  "'m run \<Rightarrow> write_io \<Rightarrow> bool \<Rightarrow> string \<Rightarrow> db \<Rightarrow> string \<Rightarrow> string \<Rightarrow> 'm world \<Rightarrow> 'm world \<times> goerr option" where
  "SyncFromDB run io tmp_fails stamp d dataDir configuredInterface wd =
     (let (fs', e) = WriteWireGuardConfig io stamp d dataDir (wd_fs wd); wd' = wd\<lparr>wd_fs := fs'\<rparr> in
      (case e of Some _ \<Rightarrow> (wd', e) | None \<Rightarrow> ApplyConfig run tmp_fails dataDir configuredInterface wd'))"

section \<open>Facts\<close>

lemma fields_go_nonempty: "[] \<notin> set (fields_go k cur s)"
  by (induction k cur s rule: fields_go.induct) auto

lemma str_fields_nonempty: "[] \<notin> set (str_fields s)"
  by (simp add: str_fields_def fields_go_nonempty)

text \<open>
  The interface the program works on is one of the running ones: \<open>pickInterface\<close> gives no
  name exactly when the list is empty, otherwise a name of the list; the configured name wins
  when it is running, and after it the name of the configuration file.
\<close>

theorem pickInterface_choice:
  "let parts = str_fields (trim raw); r = pickInterface raw preferred confIface in
   (if parts = [] then r = [] else r \<in> set parts \<and> r \<noteq> [])
   \<and> (if trim preferred \<in> set parts then r = trim preferred
      else if trim confIface \<in> set parts then r = trim confIface else True)"
  using str_fields_nonempty [of "trim raw"]
  by (auto simp: pickInterface_def Let_def dest: list.set_sel(1))

lemma keep_line_no_nl: "l \<in> set (split_on chr_nl raw) \<Longrightarrow> chr_nl \<notin> set l"
  by (rule split_on_no_sep)

lemma split_cleaned:
  "split_on chr_nl (cleanWGQuickStripOutput raw) = filter keep_line (split_on chr_nl raw) @ [[]]"
  unfolding cleanWGQuickStripOutput_def by (rule split_unlines) (auto dest: keep_line_no_nl)

text \<open>
  Cleaning the output of \<open>wg-quick strip\<close> keeps, in order, exactly the lines that are
  neither blank nor a warning, each ended by a newline, and cleaning twice is cleaning once.
\<close>

theorem clean_strip_lines:
  "split_on chr_nl (cleanWGQuickStripOutput raw) = filter keep_line (split_on chr_nl raw) @ [[]]
   \<and> cleanWGQuickStripOutput (cleanWGQuickStripOutput raw) = cleanWGQuickStripOutput raw"
proof -
  have "\<not> keep_line []" by (simp add: keep_line_def)
  then have "filter keep_line (split_on chr_nl (cleanWGQuickStripOutput raw))
      = filter keep_line (split_on chr_nl raw)"
    by (simp add: split_cleaned)
  then have "cleanWGQuickStripOutput (cleanWGQuickStripOutput raw) = cleanWGQuickStripOutput raw"
    unfolding cleanWGQuickStripOutput_def [of "cleanWGQuickStripOutput raw"]
    by (simp add: cleanWGQuickStripOutput_def)
  then show ?thesis using split_cleaned by blast
qed

section \<open>The file name names the interface wg0\<close>

lemma clean_parts_last:
  assumes "c \<noteq> []" and "c \<noteq> ''.''" and "c \<noteq> ''..''"
  shows "\<exists>xs. clean_parts r st (cs @ [c]) = xs @ [c]"
  using assms by (induction r st cs rule: clean_parts.induct) auto

lemma last_split_on: "c \<notin> set v \<Longrightarrow> last (split_on c (w @ c # v)) = v"
proof (induction w)
  case Nil
  then show ?case by (simp add: split_on_id)
next
  case (Cons x w)
  obtain y ys where y: "split_on c (w @ c # v) = y # ys" by (cases "split_on c (w @ c # v)") auto
  have "ys \<noteq> []"
    using y join_split_on [of c "w @ c # v"] split_on_no_sep [of y c "w @ c # v"]
    by (cases ys) auto
  with y Cons show ?case by simp
qed

lemma join_snoc: "xs \<noteq> [] \<Longrightarrow> join sep (xs @ [c]) = join sep xs @ sep @ c"
  by (induction xs rule: induct_list012) (auto simp: join_Cons)

lemma trimRight_id: "s \<noteq> [] \<Longrightarrow> last s \<notin> set cs \<Longrightarrow> trimRight cs s = s"
  by (cases s rule: rev_cases) (simp_all add: trimRight_def)

lemma path_base_snoc:
  assumes "CHR ''/'' \<notin> set c" and "c \<noteq> []" and "q = [] \<or> q = q' @ ''/''"
  shows "path_base (q @ c) = c"
proof -
  have "last (q @ c) \<noteq> CHR ''/''" using assms(1,2) by (metis last_appendR last_in_set)
  then have "path_base (q @ c) = last (split_on (CHR ''/'') (q @ c))"
    using assms(2) by (simp add: path_base_def trimRight_id)
  then show ?thesis
    using assms last_split_on [of "CHR ''/''" c q'] by (auto simp: split_on_id)
qed

lemma wg_conf_base: "path_base (wg_conf_path dir) = ''wg0.conf''"
proof (cases "dir = []")
  case True
  then show ?thesis
    by (simp add: wg_conf_path_def path_join_def path_clean_def has_prefix_def path_base_def trimRight_def)
next
  case False
  let ?r = "has_prefix (dir @ ''/wg0.conf'') ''/''"
  have "split_on (CHR ''/'') (dir @ ''/wg0.conf'') = split_on (CHR ''/'') dir @ [''wg0.conf'']"
  proof (induction dir)
    case Nil
    then show ?case by simp
  next
    case (Cons x d)
    then show ?case by (cases "split_on (CHR ''/'') d") (auto)
  qed
  then obtain xs where xs: "clean_parts ?r [] (split_on (CHR ''/'') (dir @ ''/wg0.conf'')) = xs @ [''wg0.conf'']"
    using clean_parts_last [of "''wg0.conf''" ?r "[]" "split_on (CHR ''/'') dir"] by auto
  have ne: "join ''/'' (xs @ [''wg0.conf'']) \<noteq> []" by (cases "xs = []") (simp_all add: join_snoc)
  let ?p = "if ?r then ''/'' else []"
  have "wg_conf_path dir = ?p @ join ''/'' (xs @ [''wg0.conf''])"
    using False ne xs by (cases ?r) (simp_all add: wg_conf_path_def path_join_def path_clean_def Let_def)
  also have "\<dots> = (if xs = [] then ?p else (?p @ join ''/'' xs) @ ''/'') @ ''wg0.conf''"
    by (simp add: join_snoc)
  finally have eq: "wg_conf_path dir = (if xs = [] then ?p else (?p @ join ''/'' xs) @ ''/'') @ ''wg0.conf''" .
  show ?thesis
    unfolding eq
    by (rule path_base_snoc [where q' = "if xs = [] then [] else ?p @ join ''/'' xs"]) auto
qed

lemma interfaceFromConf_wg0: "interfaceFromConf (wg_conf_path dir) = ''wg0''"
  by (simp add: interfaceFromConf_def wg_conf_base path_ext_def trim_suffix_def has_suffix_def)

section \<open>Which interface is changed\<close>

lemma execStdoutTimeout_ok:
  "run argv wd = (wd', out) \<Longrightarrow> o_ok out \<Longrightarrow> execStdoutTimeout run argv wd = (wd', Inr (o_stdout out))"
  by (simp add: execStdoutTimeout_def)

text \<open>
  The reload falls back to a foreign interface: when the configuration file exists and WireGuard
  interfaces run on the machine, but neither the configured one nor \<open>wg0\<close> is among them,
  \<open>ApplyConfig\<close> does not bring \<open>wg0\<close> up; it synchronises the first interface of the list,
  whoever owns it, with this server's peers.
\<close>

theorem ApplyConfig_foreign_interface:
  assumes "wd_fs wd (wg_conf_path dataDir) \<noteq> None"
    and "execStdoutTimeout run [''wg'', ''show'', ''interfaces''] wd = (wd1, Inr raw)"
    and "str_fields (trim raw) = other # rest"
    and "trim configured \<notin> set (other # rest)" and "''wg0'' \<notin> set (other # rest)"
  shows "ApplyConfig run tmp_fails dataDir configured wd
    = syncconf run tmp_fails other (wg_conf_path dataDir) wd1"
proof -
  have "trim ''wg0'' = ''wg0''" by (simp add: str_eval)
  then have "pickInterface raw configured ''wg0'' = other"
    using assms(3-5) by (simp add: pickInterface_def)
  moreover have "other \<noteq> []" using str_fields_nonempty [of "trim raw"] assms(3) by auto
  ultimately show ?thesis
    using assms(1,2) by (auto simp: ApplyConfig_def activeInterface_def interfaceFromConf_wg0 Let_def)
qed

text \<open>
  Synchronising writes first and applies second: when the configuration file cannot be rendered or
  written, \<open>SyncFromDB\<close> reports that error and runs no program; otherwise it is \<open>ApplyConfig\<close>
  on the machine whose \<open>wg0.conf\<close> is the text of the current database.
\<close>

theorem SyncFromDB_order:
  "case WriteWireGuardConfig io stamp d dataDir (wd_fs wd) of
     (fs', Some e) \<Rightarrow> SyncFromDB run io tmp_fails stamp d dataDir cfg wd = (wd\<lparr>wd_fs := fs'\<rparr>, Some e)
   | (fs', None) \<Rightarrow>
       map_option Inr (fs' (wg_conf_path dataDir)) = Some (render_config d stamp)
     \<and> SyncFromDB run io tmp_fails stamp d dataDir cfg wd
         = ApplyConfig run tmp_fails dataDir cfg (wd\<lparr>wd_fs := fs'\<rparr>)"
  by (auto simp: SyncFromDB_def WriteWireGuardConfig_def Let_def split: sum.splits option.splits)

section \<open>Witness\<close>

definition ex_run :: "string list run" where
  "ex_run argv wd =
     (wd\<lparr>wd_machine := wd_machine wd @ [join '' '' argv]\<rparr>,
      \<lparr>o_ok = True, o_stdout = (if argv = [''wg'', ''show'', ''interfaces''] then ''office'' @ [chr_nl] else ''[Interface]''),
       o_stderr = [], o_err = [], o_timeout = False\<rparr>)"

definition ex_world :: "string list world" where
  "ex_world = \<lparr>wd_fs = Map.empty(wg_conf_path ''/data'' \<mapsto> ''conf''), wd_machine = []\<rparr>"

lemma ApplyConfig_foreign_interface_witness:
  "wd_machine (fst (ApplyConfig ex_run False ''/data'' [] ex_world))
     = [''wg show interfaces'', ''wg-quick strip /data/wg0.conf'',
        ''wg syncconf office /data/wg0.conf.peers.tmp'']"
proof -
  have path: "wg_conf_path ''/data'' = ''/data/wg0.conf''"
    by (simp add: wg_conf_path_def path_join_def path_clean_def has_prefix_def)
  have "ApplyConfig ex_run False ''/data'' [] ex_world
      = syncconf ex_run False ''office'' (wg_conf_path ''/data'')
          (ex_world\<lparr>wd_machine := [''wg show interfaces'']\<rparr>)"
    by (rule ApplyConfig_foreign_interface [where raw = "''office'' @ [chr_nl]" and rest = "[]"])
       (simp_all add: ex_world_def ex_run_def execStdoutTimeout_def str_eval)
  moreover have "cleanWGQuickStripOutput ''[Interface]'' = ''[Interface]'' @ [chr_nl]"
    by (simp add: cleanWGQuickStripOutput_def keep_line_def str_eval)
  moreover have "trim (''[Interface]'' @ [chr_nl]) \<noteq> []" by (simp add: str_eval)
  ultimately show ?thesis
    by (simp add: syncconf_def execStdoutTimeout_def ex_run_def ex_world_def path)
qed

end
