(* ===== verification/Go_Time.thy ===== *)
theory Go_Time
  imports Go_Strings
begin

text \<open>
  The part of Go's \<open>time\<close> package the program uses: civil dates, the formats
  \<open>time.RFC3339\<close> (in UTC) and SQLite's \<open>datetime\<close>, and \<open>time.Parse(time.RFC3339, s)\<close>. An
  instant is a number of nanoseconds since 1970-01-01T00:00:00Z; the formats take seconds.
\<close>

section \<open>Civil dates\<close>

text \<open>Days are counted from the first day of year 0; day 719528 is 1970-01-01.\<close>

definition is_leap :: "nat \<Rightarrow> bool" where
  "is_leap y \<longleftrightarrow> y mod 4 = 0 \<and> (y mod 100 \<noteq> 0 \<or> y mod 400 = 0)"

definition year_start :: "nat \<Rightarrow> nat" where
  "year_start y = 365 * y + ((y + 3) div 4 + (y + 399) div 400 - (y + 99) div 100)"

definition month_days :: "nat \<Rightarrow> nat list" where
  "month_days y = [31, if is_leap y then 29 else 28, 31, 30, 31, 30, 31, 31, 30, 31, 30, 31]"

lemma year_start_Suc: "year_start (Suc y) = year_start y + (if is_leap y then 366 else 365)"
proof -
  have step: "(Suc y + k) div Suc k = (y + k) div Suc k + (if y mod Suc k = 0 then 1 else 0)" for k
  proof -
    have "Suc (y + k) mod Suc k = y mod Suc k" by (metis add_Suc_right mod_add_self2)
    then show ?thesis using div_Suc [of "y + k" "Suc k"] by simp
  qed
  have 4: "(Suc y + 3) div 4 = (y + 3) div 4 + (if y mod 4 = 0 then 1 else 0)"
    using step [of 3] by simp
  have 100: "(Suc y + 99) div 100 = (y + 99) div 100 + (if y mod 100 = 0 then 1 else 0)"
    using step [of 99] by simp
  have 400: "(Suc y + 399) div 400 = (y + 399) div 400 + (if y mod 400 = 0 then 1 else 0)"
    using step [of 399] by simp
  define q where "q = (y + 99) div 100"
  have "100 * q \<le> y + 99" by (simp add: q_def)
  then have "q * 4 \<le> y + 3" by (cases q) auto
  then have le: "(y + 99) div 100 \<le> (y + 3) div 4"
    unfolding q_def [symmetric] by (simp add: less_eq_div_iff_mult_less_eq)
  have "y mod 100 = 0 \<Longrightarrow> y mod 4 = 0" using dvd_trans [of 4 100 y] by (simp add: mod_eq_0_iff_dvd)
  moreover have "y mod 400 = 0 \<Longrightarrow> y mod 100 = 0" using dvd_trans [of 100 400 y] by (simp add: mod_eq_0_iff_dvd)
  ultimately have i: "(if y mod 100 = 0 then 1 else 0) \<le> (if y mod 4 = 0 then 1 else 0) + (if y mod 400 = 0 then 1 else (0::nat))"
    and leap: "365 + (if y mod 4 = 0 then 1 else 0) + (if y mod 400 = 0 then 1 else 0) - (if y mod 100 = 0 then 1 else 0)
        = (if is_leap y then 366 else (365::nat))"
    by (auto simp: is_leap_def)
  have "365 * Suc y + ((a + i) + (b + j) - (c + k)) = 365 * y + (a + b - c) + (365 + i + j - k)"
    if "c \<le> a" "k \<le> i + j" for a b c i j k :: nat using that by simp
  from this [OF le i] show ?thesis
    unfolding year_start_def 4 100 400 leap .
qed

lemma sum_month_days: "sum_list (month_days y) = (if is_leap y then 366 else 365)"
  by (simp add: month_days_def)

lemma year_start_0 [simp]: "year_start 0 = 0"
  by (simp add: year_start_def)

lemma year_start_bounds: "365 * y \<le> year_start y \<and> year_start y \<le> 366 * y"
  by (induction y) (auto simp: year_start_Suc)

function find_year :: "nat \<Rightarrow> nat \<Rightarrow> nat" where
  "find_year d y = (if year_start (Suc y) \<le> d then find_year d (Suc y) else y)"
  by pat_completeness auto
termination
proof (relation "measure (\<lambda>(d, y). d - y)")
  fix d y
  assume "year_start (Suc y) \<le> d"
  then show "((d, Suc y), (d, y)) \<in> measure (\<lambda>(d, y). d - y)"
    using year_start_bounds [of "Suc y"] by auto
qed simp

declare find_year.simps [simp del]

fun month_at :: "nat list \<Rightarrow> nat \<Rightarrow> nat \<Rightarrow> nat \<times> nat" where
  "month_at [] m d = (m, Suc d)"
| "month_at (l # ls) m d = (if d < l then (m, Suc d) else month_at ls (Suc m) (d - l))"

definition civil_of_days :: "nat \<Rightarrow> nat \<times> nat \<times> nat" where
  "civil_of_days d =
     (let y = find_year d (d div 366); (m, dd) = month_at (month_days y) 1 (d - year_start y) in (y, m, dd))"

definition days_of_civil :: "nat \<Rightarrow> nat \<Rightarrow> nat \<Rightarrow> nat" where
  "days_of_civil y m d = year_start y + sum_list (take (m - 1) (month_days y)) + (d - 1)"

lemma find_year_spec:
  "year_start y \<le> d \<Longrightarrow> year_start (find_year d y) \<le> d \<and> d < year_start (Suc (find_year d y))"
  by (induction d y rule: find_year.induct) (subst (1 2) find_year.simps, auto)

lemma month_at_spec:
  "month_at ms m0 d = (m, dd) \<Longrightarrow> d < sum_list ms \<Longrightarrow>
   m0 \<le> m \<and> m < m0 + length ms \<and> 1 \<le> dd \<and> dd \<le> ms ! (m - m0) \<and> sum_list (take (m - m0) ms) + (dd - 1) = d"
proof (induction ms m0 d rule: month_at.induct)
  case (1 m d)
  then show ?case by simp
next
  case (2 l ls m0 d)
  show ?case
  proof (cases "d < l")
    case True
    with 2 show ?thesis by auto
  next
    case False
    have ls: "d - l < sum_list ls" and at: "month_at ls (Suc m0) (d - l) = (m, dd)"
      using False 2(2,3) by auto
    note ih = 2(1) [OF False at ls]
    from ih have k: "m - m0 = Suc (m - Suc m0)" by auto
    from ih False have "l + sum_list (take (m - Suc m0) ls) + (dd - 1) = d" by arith
    with ih show ?thesis by (simp add: k)
  qed
qed

lemma civil_of_days_spec:
  assumes "civil_of_days d = (y, m, dd)"
  shows "1 \<le> m" "m \<le> 12" "1 \<le> dd" "dd \<le> month_days y ! (m - 1)" "days_of_civil y m dd = d"
    "365 * y \<le> d"
proof -
  have "year_start (d div 366) \<le> d" using year_start_bounds [of "d div 366"] by (auto intro: le_trans)
  note y = find_year_spec [OF this]
  have y': "y = find_year d (d div 366)" and ma: "month_at (month_days y) 1 (d - year_start y) = (m, dd)"
    using assms by (auto simp: civil_of_days_def split_beta Let_def prod_eq_iff)
  have "d - year_start y < sum_list (month_days y)"
    using y unfolding y' year_start_Suc sum_month_days by auto
  note m = month_at_spec [OF ma this]
  show "1 \<le> m" "m \<le> 12" "1 \<le> dd" "dd \<le> month_days y ! (m - 1)" using m by (auto simp: month_days_def)
  have "d - year_start y + year_start y = d" using y by (simp add: y')
  then show "days_of_civil y m dd = d" using m unfolding days_of_civil_def by linarith
  show "365 * y \<le> d" using y year_start_bounds [of y] by (simp add: y')
qed

section \<open>Formatting\<close>

definition pad2 :: "nat \<Rightarrow> string" where
  "pad2 n = [digit (n div 10), digit (n mod 10)]"

definition pad4 :: "nat \<Rightarrow> string" where
  "pad4 n = (if n < 10000 then pad2 (n div 100) @ pad2 (n mod 100) else nat_str n)"

text \<open>Year, month, day and second of the day of a number of seconds since 1970.\<close>

definition civil_of_unix :: "int \<Rightarrow> nat \<times> nat \<times> nat \<times> nat" where
  "civil_of_unix t =
     (let (y, m, d) = civil_of_days (nat (t div 86400 + 719528)) in (y, m, d, nat (t mod 86400)))"

definition clock_text :: "nat \<Rightarrow> string" where
  "clock_text s = pad2 (s div 3600) @ '':'' @ pad2 (s div 60 mod 60) @ '':'' @ pad2 (s mod 60)"

definition format_rfc3339 :: "int \<Rightarrow> string" where
  "format_rfc3339 t =
     (let (y, m, d, s) = civil_of_unix t in
      pad4 y @ ''-'' @ pad2 m @ ''-'' @ pad2 d @ ''T'' @ clock_text s @ ''Z'')"

definition format_sql :: "int \<Rightarrow> string" where
  "format_sql t =
     (let (y, m, d, s) = civil_of_unix t in
      pad4 y @ ''-'' @ pad2 m @ ''-'' @ pad2 d @ '' '' @ clock_text s)"

section \<open>Parsing\<close>

fun get_num :: "bool \<Rightarrow> string \<Rightarrow> (nat \<times> string) option" where
  "get_num fixed [] = None"
| "get_num fixed [a] = (if is_digit a \<and> \<not> fixed then Some (digit_val a, []) else None)"
| "get_num fixed (a # b # s) =
     (if \<not> is_digit a then None
      else if is_digit b then Some (10 * digit_val a + digit_val b, s)
      else if fixed then None else Some (digit_val a, b # s))"

definition get_year :: "string \<Rightarrow> (nat \<times> string) option" where
  "get_year s =
     (if length s \<ge> 4 \<and> list_all is_digit (take 4 s) then Some (dec_val (take 4 s), drop 4 s) else None)"

definition expect :: "char \<Rightarrow> string \<Rightarrow> string option" where
  "expect c s = (case s of x # t \<Rightarrow> if x = c then Some t else None | [] \<Rightarrow> None)"

text \<open>An optional fraction of a second, in nanoseconds, cut off after nine digits.\<close>

definition get_fraction :: "string \<Rightarrow> nat \<times> string" where
  "get_fraction s =
     (case s of
        c # d # t \<Rightarrow>
          if (c = CHR ''.'' \<or> c = CHR '','') \<and> is_digit d then
            (let ds = takeWhile is_digit (d # t) in
             (dec_val (take 9 ds) * 10 ^ (9 - length (take 9 ds)), drop (length ds) (d # t)))
          else (0, s)
      | _ \<Rightarrow> (0, s))"

definition get_zone :: "string \<Rightarrow> int option" where
  "get_zone s =
     (if s = ''Z'' then Some 0
      else if length s = 6 \<and> s ! 3 = CHR '':'' then
        (case (get_num True (take 2 (drop 1 s)), get_num True (take 2 (drop 4 s))) of
           (Some (h, _), Some (m, _)) \<Rightarrow>
             if h > 24 \<or> m > 60 then None
             else if hd s = CHR ''+'' then Some (int (h * 3600 + m * 60))
             else if hd s = CHR ''-'' then Some (- int (h * 3600 + m * 60))
             else None
         | _ \<Rightarrow> None)
      else None)"

definition parse_date :: "string \<Rightarrow> ((nat \<times> nat \<times> nat) \<times> string) option" where
  "parse_date s =
     Option.bind (get_year s) (\<lambda>(y, s).
     Option.bind (expect (CHR ''-'') s) (\<lambda>s.
     Option.bind (get_num True s) (\<lambda>(m, s).
     Option.bind (expect (CHR ''-'') s) (\<lambda>s.
     Option.bind (get_num True s) (\<lambda>(d, s).
       if 1 \<le> m \<and> m \<le> 12 \<and> 1 \<le> d \<and> d \<le> month_days y ! (m - 1) then Some ((y, m, d), s) else None)))))"

definition parse_clock :: "string \<Rightarrow> (nat \<times> string) option" where
  "parse_clock s =
     Option.bind (get_num False s) (\<lambda>(h, s).
     Option.bind (expect (CHR '':'') s) (\<lambda>s.
     Option.bind (get_num True s) (\<lambda>(mi, s).
     Option.bind (expect (CHR '':'') s) (\<lambda>s.
     Option.bind (get_num True s) (\<lambda>(sec, s).
       if h < 24 \<and> mi < 60 \<and> sec < 60 then Some (h * 3600 + mi * 60 + sec, s) else None)))))"

definition parse_rfc3339 :: "string \<Rightarrow> int option" where
  "parse_rfc3339 s =
     Option.bind (parse_date s) (\<lambda>((y, m, d), s).
     Option.bind (expect (CHR ''T'') s) (\<lambda>s.
     Option.bind (parse_clock s) (\<lambda>(sec, s).
       (let (ns, s) = get_fraction s in
        Option.bind (get_zone s) (\<lambda>off.
          Some (((int (days_of_civil y m d) - 719528) * 86400 + int sec - off) * 1000000000 + int ns))))))"

section \<open>Formatted times parse back\<close>

lemma get_num_pad2: "n < 100 \<Longrightarrow> get_num f (pad2 n @ s) = Some (n, s)"
  by (simp add: pad2_def)

lemma get_year_pad4: "n < 10000 \<Longrightarrow> get_year (pad4 n @ s) = Some (n, s)"
proof -
  assume n: "n < 10000"
  define a b where "a = n div 100" and "b = n mod 100"
  have ab: "a < 100" "b < 100" "n = 100 * a + b" using n by (auto simp: a_def b_def)
  have "pad4 n = pad2 a @ pad2 b" using n by (simp add: pad4_def a_def b_def)
  then show ?thesis using ab by (simp add: get_year_def pad2_def dec_val_def)
qed

lemma expect_Cons [simp]: "expect c (c # s) = Some s"
  by (simp add: expect_def)

lemma parse_clock_text:
  assumes "s < 86400"
  shows "parse_clock (clock_text s @ r) = Some (s, r)"
proof -
  have "s div 3600 = s div 60 div 60" by (simp flip: div_mult2_eq)
  then have "s div 3600 * 60 + s div 60 mod 60 = s div 60" by simp
  then have "(s div 3600 * 60 + s div 60 mod 60) * 60 + s mod 60 = s" by simp
  then have "s div 3600 * 3600 + s div 60 mod 60 * 60 + s mod 60 = s" by simp
  moreover have "s div 3600 < 24" "s div 3600 < 100" "s div 60 mod 60 < 100" "s mod 60 < 100"
    using assms by auto
  ultimately show ?thesis
    by (simp add: parse_clock_def clock_text_def get_num_pad2)
qed

lemma month_days_le: "1 \<le> m \<Longrightarrow> m \<le> 12 \<Longrightarrow> month_days y ! (m - 1) \<le> 31"
proof -
  assume "1 \<le> m" "m \<le> 12"
  then have "m - 1 < 12" by auto
  then have "month_days y ! (m - 1) \<in> set (month_days y)"
    by (intro nth_mem) (simp add: month_days_def)
  then show ?thesis by (auto simp: month_days_def split: if_splits)
qed

text \<open>The seconds whose year has four digits.\<close>

definition four_digit_year :: "int \<Rightarrow> bool" where
  "four_digit_year t \<longleftrightarrow> - 62167219200 \<le> t \<and> t < 253402300800"

lemma civil_of_unix_spec:
  assumes "four_digit_year t" and "civil_of_unix t = (y, m, d, s)"
  shows "y < 10000" "1 \<le> m" "m \<le> 12" "1 \<le> d" "d \<le> month_days y ! (m - 1)" "s < 86400"
    "(int (days_of_civil y m d) - 719528) * 86400 + int s = t"
proof -
  let ?n = "nat (t div 86400 + 719528)"
  have c: "civil_of_days ?n = (y, m, d)" and s: "s = nat (t mod 86400)"
    using assms(2) by (auto simp: civil_of_unix_def split_beta Let_def prod_eq_iff)
  note spec = civil_of_days_spec [OF c]
  have n: "0 \<le> t div 86400 + 719528" "t div 86400 + 719528 < 3652425"
    using assms(1) by (auto simp: four_digit_year_def)
  show "1 \<le> m" "m \<le> 12" "1 \<le> d" "d \<le> month_days y ! (m - 1)" using spec by auto
  show "s < 86400" by (simp add: s)
  have "(int (days_of_civil y m d) - 719528) = t div 86400" using spec(5) n(1) by simp
  then show "(int (days_of_civil y m d) - 719528) * 86400 + int s = t" by (simp add: s)
  have mono: "year_start 10000 \<le> year_start (10000 + k)" for k
  proof (induction k)
    case (Suc k)
    then show ?case using year_start_Suc [of "10000 + k"] by (simp split: if_splits)
  qed simp
  have "year_start y \<le> ?n" using spec(5) by (simp add: days_of_civil_def)
  moreover have "year_start 10000 = 3652425" by (simp add: year_start_def)
  ultimately have "\<not> 10000 \<le> y" using mono [of "y - 10000"] n by auto
  then show "y < 10000" by simp
qed

lemma parse_format_rfc3339:
  assumes "four_digit_year t"
  shows "parse_rfc3339 (format_rfc3339 t) = Some (t * 1000000000)"
proof -
  obtain y m d s where c: "civil_of_unix t = (y, m, d, s)" by (metis prod_cases4)
  note spec = civil_of_unix_spec [OF assms c]
  have "m < 100" "d < 100" using spec month_days_le [of m y] by auto
  then have "parse_rfc3339 (format_rfc3339 t)
      = Some (((int (days_of_civil y m d) - 719528) * 86400 + int s - 0) * 1000000000 + 0)"
    using spec(1-6)
    by (simp add: parse_rfc3339_def format_rfc3339_def c parse_date_def get_year_pad4 get_num_pad2
        parse_clock_text get_fraction_def get_zone_def)
  then show ?thesis using spec(7) by simp
qed

lemma format_rfc3339_inj:
  "four_digit_year t \<Longrightarrow> four_digit_year t' \<Longrightarrow> format_rfc3339 t = format_rfc3339 t' \<Longrightarrow> t = t'"
  by (metis parse_format_rfc3339 option.inject mult_right_cancel zero_neq_numeral)

end
