(* ===== verification/Syncer.thy ===== *)
theory Syncer
  imports Go_Time Store
begin

text \<open>
  The periodic synchronisation of \<open>internal/wireguard/syncer.go\<close>: \<open>wg show <iface> dump\<close> is
  read, and inside one transaction every WireGuard user gets its counters, rates, quota,
  remaining days and enabled flag from the peer with its key. The program \<open>wg\<close> is a
  parameter; so are the clock readings and, as the record \<open>sync_faults\<close>, the statements of
  the transaction that fail.
\<close>

section \<open>Reading the dump\<close>

datatype exec_result = NotFound | Failed string | Output string

type_synonym 'm exec = "string list \<Rightarrow> 'm \<Rightarrow> 'm \<times> exec_result"

definition execWG :: "'m exec \<Rightarrow> string list \<Rightarrow> 'm \<Rightarrow> 'm \<times> string res" where
  "execWG run argv m =
     (case run argv m of
        (m', NotFound) \<Rightarrow> (m', Inl ErrNoWG)
      | (m', Failed out) \<Rightarrow> (m', Inl (ErrMsg (trim out)))
      | (m', Output out) \<Rightarrow> (m', Inr out))"

definition actualInterface :: "'m exec \<Rightarrow> string \<Rightarrow> 'm \<Rightarrow> 'm \<times> string res" where
  "actualInterface run configured m =
     (case execWG run [''wg'', ''show'', ''interfaces''] m of
        (m', Inl e) \<Rightarrow> (m', Inl e)
      | (m', Inr out) \<Rightarrow>
          (let parts = str_fields (trim out) in
           (m', Inr (if parts = [] then [] else if configured \<in> set parts then configured else hd parts))))"

record peer =
  p_public_key :: string
  p_endpoint :: string
  p_allowed_ips :: string
  p_handshake :: int
  p_rx :: int
  p_tx :: int
  p_keepalive :: int

definition normalizeNone :: "string \<Rightarrow> string" where
  "normalizeNone v = (if v = ''(none)'' then [] else v)"

definition parseI64 :: "string \<Rightarrow> int" where
  "parseI64 s = parse_int_value (trim s)"

definition parse_peer :: "string \<Rightarrow> peer res" where
  "parse_peer line =
     (let f = split_on chr_tab line in
      if length f < 8 then Inl (ErrMsg ''unexpected peer line format'')
      else Inr \<lparr>p_public_key = f ! 0, p_endpoint = normalizeNone (f ! 2), p_allowed_ips = f ! 3,
        p_handshake = parseI64 (f ! 4), p_rx = parseI64 (f ! 5), p_tx = parseI64 (f ! 6),
        p_keepalive = parseI64 (f ! 7)\<rparr>)"

fun parse_peers :: "string list \<Rightarrow> peer list res" where
  "parse_peers [] = Inr []"
| "parse_peers (l # ls) =
     (if trim l = [] then parse_peers ls
      else bindR (parse_peer l) (\<lambda>p. bindR (parse_peers ls) (\<lambda>ps. Inr (p # ps))))"

definition parseDump :: "string \<Rightarrow> peer list res" where
  "parseDump output =
     (let ls = split_on chr_nl (trim output) in
      if trim (hd ls) = [] then Inl (ErrMsg ''empty dump'') else parse_peers (tl ls))"

definition peer_by_key :: "peer list \<Rightarrow> string \<Rightarrow> peer option" where
  "peer_by_key ps = foldl (\<lambda>m p. m(p_public_key p \<mapsto> p)) Map.empty ps"

section \<open>One user\<close>

definition nullIfEmpty :: "string \<Rightarrow> string option" where
  "nullIfEmpty s = (if trim s = [] then None else Some s)"

definition max64 :: "int \<Rightarrow> int \<Rightarrow> int" where
  "max64 a b = (if a > b then a else b)"

definition coalesce :: "'a option \<Rightarrow> 'a option \<Rightarrow> 'a option" where
  "coalesce x old = (case x of None \<Rightarrow> old | Some v \<Rightarrow> Some v)"

definition now_text :: "int \<Rightarrow> string" where
  "now_text now = format_rfc3339 (now div 1000000000)"

text \<open>
  Whole days from \<open>t\<close> to \<open>now\<close>: \<open>int64(now.Sub(t).Hours() / 24)\<close>. A \<open>Duration\<close> is clamped to
  64 bits of nanoseconds; the quotient is exact here, where the code rounds it to a
  \<open>float64\<close> first.
\<close>

definition days_since :: "int \<Rightarrow> int \<Rightarrow> int" where
  "days_since now t = go_div (max (- (2 ^ 63)) (min (2 ^ 63 - 1) (now - t))) 86400000000000"

definition counter_reset :: "peer \<Rightarrow> vpn_user \<Rightarrow> bool" where
  "counter_reset p u \<longleftrightarrow> p_rx p < u_bytes_received u \<or> p_tx p < u_bytes_sent u"

definition new_total_rx :: "peer \<Rightarrow> vpn_user \<Rightarrow> int" where
  "new_total_rx p u = (if counter_reset p u then i64 (u_total_bytes_received u + u_bytes_received u)
     else u_total_bytes_received u)"

definition new_total_tx :: "peer \<Rightarrow> vpn_user \<Rightarrow> int" where
  "new_total_tx p u = (if counter_reset p u then i64 (u_total_bytes_sent u + u_bytes_sent u)
     else u_total_bytes_sent u)"

definition rates :: "int \<Rightarrow> peer \<Rightarrow> vpn_user \<Rightarrow> int \<times> int" where
  "rates interval p u =
     (let rx = i64 (p_rx p - u_prev_bytes_received u); tx = i64 (p_tx p - u_prev_bytes_sent u) in
      if rx \<ge> 0 \<and> tx \<ge> 0 then (go_div rx interval, go_div tx interval) else (0, 0))"

definition new_days :: "int \<Rightarrow> vpn_user \<Rightarrow> int option \<times> string option" where
  "new_days now u =
     (case u_remaining_days u of
        None \<Rightarrow> (None, None)
      | Some rd \<Rightarrow>
          if rd > 0 then
            (case u_last_day_check u of
               None \<Rightarrow> (Some rd, Some (now_text now))
             | Some lc \<Rightarrow>
                 (case parse_rfc3339 lc of
                    None \<Rightarrow> (Some rd, Some (now_text now))
                  | Some t \<Rightarrow>
                      (let days = days_since now t in
                       if days \<ge> 1 then (Some (max64 0 (i64 (rd - days))), Some (now_text now))
                       else (Some rd, Some lc))))
          else (Some rd, Some (case u_last_day_check u of None \<Rightarrow> [] | Some lc \<Rightarrow> lc)))"

definition usage_inc :: "peer \<Rightarrow> vpn_user \<Rightarrow> int" where
  "usage_inc p u =
     (let prev = i64 (u_total_bytes_received u + u_total_bytes_sent u + u_bytes_received u + u_bytes_sent u);
          cur = i64 (new_total_rx p u + new_total_tx p u + p_rx p + p_tx p) in
      i64 (cur - prev))"

definition traffic_left :: "peer \<Rightarrow> vpn_user \<Rightarrow> int option" where
  "traffic_left p u = map_option (\<lambda>r. i64 (r - usage_inc p u)) (u_remaining_traffic u)"

definition must_disable :: "int \<Rightarrow> peer \<Rightarrow> vpn_user \<Rightarrow> bool" where
  "must_disable now p u \<longleftrightarrow>
     (case traffic_left p u of None \<Rightarrow> False | Some rem \<Rightarrow> rem \<le> 0)
   \<or> (case fst (new_days now u) of None \<Rightarrow> False | Some v \<Rightarrow> v \<le> 0)"

definition new_enabled :: "int \<Rightarrow> peer \<Rightarrow> vpn_user \<Rightarrow> bool" where
  "new_enabled now p u =
     (let disable = must_disable now p u;
          hasTraffic = (case traffic_left p u of None \<Rightarrow> True | Some rem \<Rightarrow> max64 0 rem > 0);
          hasDays = (case fst (new_days now u) of None \<Rightarrow> True | Some v \<Rightarrow> v > 0);
          enable = (\<not> u_is_enabled u \<and> \<not> disable \<and> hasTraffic \<and> hasDays) in
      if disable \<and> u_is_enabled u then False else if enable then True else u_is_enabled u)"

definition is_live :: "int \<Rightarrow> peer \<Rightarrow> bool" where
  "is_live unix p \<longleftrightarrow> p_handshake p > 0 \<and> i64 (unix - p_handshake p) < 120"

definition update_row :: "int \<Rightarrow> int \<Rightarrow> int \<Rightarrow> peer \<Rightarrow> vpn_user \<Rightarrow> vpn_user" where
  "update_row now unix interval p u =
     (let connected = is_live unix p in
      u\<lparr>u_is_connected := connected,
        u_connected_at := coalesce (if connected \<and> \<not> u_is_connected u then Some (now_text now) else None)
                            (u_connected_at u),
        u_endpoint := nullIfEmpty (p_endpoint p),
        u_last_handshake := (if p_handshake p > 0 then Some (format_rfc3339 (p_handshake p)) else None),
        u_bytes_received := p_rx p,
        u_bytes_sent := p_tx p,
        u_prev_bytes_received := p_rx p,
        u_prev_bytes_sent := p_tx p,
        u_bytes_received_rate := fst (rates interval p u),
        u_bytes_sent_rate := snd (rates interval p u),
        u_total_bytes_received := new_total_rx p u,
        u_total_bytes_sent := new_total_tx p u,
        u_remaining_days := coalesce (fst (new_days now u)) (u_remaining_days u),
        u_remaining_traffic := coalesce (map_option (max64 0) (traffic_left p u)) (u_remaining_traffic u),
        u_last_day_check := coalesce (snd (new_days now u)) (u_last_day_check u),
        u_is_enabled := new_enabled now p u\<rparr>)"

definition drop_connection :: "vpn_user \<Rightarrow> vpn_user" where
  "drop_connection u =
     (if u_is_connected u then u\<lparr>u_is_connected := False, u_endpoint := None, u_last_handshake := None\<rparr> else u)"

section \<open>One synchronisation\<close>

record sync_faults =
  f_begin :: bool
  f_query :: bool
  f_row :: "string \<Rightarrow> bool"
  f_rows_err :: bool
  f_snapshot :: bool
  f_cleanup :: bool
  f_commit :: bool

text \<open>
  The result for one selected row: the row after its \<open>UPDATE\<close> and what it adds to the download
  and the upload rate of the snapshot. \<open>unix\<close> is the clock read when the row is handled.
\<close>

definition sync_row ::
  "(string \<Rightarrow> peer option) \<Rightarrow> int \<Rightarrow> (string \<Rightarrow> int) \<Rightarrow> int \<Rightarrow> vpn_user \<Rightarrow> vpn_user \<times> int \<times> int" where
  "sync_row look now unix interval u =
     (case u_public_key u of
        None \<Rightarrow> (u, 0, 0)
      | Some k \<Rightarrow>
          if k = [] then (u, 0, 0)
          else (case look k of
             None \<Rightarrow> (drop_connection u, 0, 0)
           | Some p \<Rightarrow>
               (update_row now (unix (u_id u)) interval p u,
                (if is_live (unix (u_id u)) p \<and> new_enabled now p u
                 then (snd (rates interval p u), fst (rates interval p u)) else (0, 0)))))"

text \<open>Whether an \<open>UPDATE\<close> is run for the row, the statement that may fail.\<close>

definition writes_row :: "(string \<Rightarrow> peer option) \<Rightarrow> vpn_user \<Rightarrow> bool" where
  "writes_row look u \<longleftrightarrow>
     (case u_public_key u of
        None \<Rightarrow> False
      | Some k \<Rightarrow> k \<noteq> [] \<and> (look k \<noteq> None \<or> u_is_connected u))"

fun sync_rows ::
  "sync_faults \<Rightarrow> string set \<Rightarrow> (string \<Rightarrow> peer option) \<Rightarrow> int \<Rightarrow> (string \<Rightarrow> int) \<Rightarrow> int
   \<Rightarrow> vpn_user list \<Rightarrow> (vpn_user list \<times> int \<times> int) res" where
  "sync_rows flt wg look now unix interval [] = Inr ([], 0, 0)"
| "sync_rows flt wg look now unix interval (u # us) =
     (if u_server_id u \<in> wg then
        (if writes_row look u \<and> f_row flt (u_id u) then Inl (ErrIO ''UPDATE vpn_users'')
         else bindR (sync_rows flt wg look now unix interval us) (\<lambda>(us', d, up).
           (let (u', du, uu) = sync_row look now unix interval u in Inr (u' # us', i64 (d + du), i64 (up + uu)))))
      else bindR (sync_rows flt wg look now unix interval us) (\<lambda>(us', d, up). Inr (u # us', d, up)))"

definition wg_servers :: "db \<Rightarrow> string set" where
  "wg_servers d = set (map s_id (filter (\<lambda>s. s_protocol s = ''wireguard'') (servers d)))"

text \<open>
  The transaction. The snapshot and the cleanup ignore their errors; \<open>sql_now\<close> is SQLite's
  clock in seconds, \<open>uuid\<close> the fresh key.
\<close>

definition snapshot_cleanup :: "sync_faults \<Rightarrow> string \<Rightarrow> int \<Rightarrow> int \<Rightarrow> int \<Rightarrow> bw_snapshot list \<Rightarrow> bw_snapshot list" where
  "snapshot_cleanup flt uuid sql_now down up ss =
     (let ss1 = (if f_snapshot flt \<or> uuid \<in> bs_id ` set ss then ss
                 else ss @ [\<lparr>bs_id = uuid, bs_timestamp = format_sql sql_now, bs_download = down, bs_upload = up\<rparr>]) in
      if f_cleanup flt then ss1
      else filter (\<lambda>s. \<not> bs_timestamp s < format_sql (sql_now - 35 * 86400)) ss1)"

definition sync_tx ::
  "sync_faults \<Rightarrow> string \<Rightarrow> int \<Rightarrow> peer list \<Rightarrow> int \<Rightarrow> (string \<Rightarrow> int) \<Rightarrow> int \<Rightarrow> db \<Rightarrow> db res" where
  "sync_tx flt uuid sql_now ps now unix interval d =
     (if f_begin flt then Inl (ErrIO ''begin'')
      else if f_query flt then Inl (ErrIO ''select'')
      else bindR (sync_rows flt (wg_servers d) (peer_by_key ps) now unix interval (users d)) (\<lambda>(us, down, up).
        if f_rows_err flt then Inl (ErrIO ''rows'')
        else if f_commit flt then Inl (ErrIO ''commit'')
        else Inr (d\<lparr>users := us, snapshots := snapshot_cleanup flt uuid sql_now down up (snapshots d)\<rparr>)))"

definition syncOnce ::
  "'m exec \<Rightarrow> sync_faults \<Rightarrow> string \<Rightarrow> int \<Rightarrow> string \<Rightarrow> int \<Rightarrow> int \<Rightarrow> (string \<Rightarrow> int) \<Rightarrow> 'm \<times> db
   \<Rightarrow> ('m \<times> db) \<times> goerr option" where
  "syncOnce run flt wgInterface intervalSec uuid sql_now now unix st =
     (let (m, d) = st in
      case actualInterface run wgInterface m of
        (m1, Inl e) \<Rightarrow> ((m1, d), Some e)
      | (m1, Inr iface) \<Rightarrow>
          if iface = [] then ((m1, d), None)
          else (case execWG run [''wg'', ''show'', iface, ''dump''] m1 of
             (m2, Inl e) \<Rightarrow> ((m2, d), Some e)
           | (m2, Inr out) \<Rightarrow>
               (case parseDump out of
                  Inl e \<Rightarrow> ((m2, d), Some e)
                | Inr ps \<Rightarrow>
                    (case sync_tx flt uuid sql_now ps now unix (max 1 intervalSec) d of
                       Inl e \<Rightarrow> ((m2, d), Some e)
                     | Inr d' \<Rightarrow> ((m2, d'), None)))))"


section \<open>The traffic quota\<close>

text \<open>
  What a quota is for: from samples of two counters that restart at zero when the interface
  does, the bytes that went through. A counter that went down restarted, and then all it
  shows is new.
\<close>

fun metered :: "int \<times> int \<Rightarrow> (int \<times> int) list \<Rightarrow> int" where
  "metered prev [] = 0"
| "metered (rx, tx) ((a, b) # xs) =
     (if a < rx \<or> b < tx then a + b else (a - rx) + (b - tx)) + metered (a, b) xs"

definition usage :: "vpn_user \<Rightarrow> int" where
  "usage u = u_total_bytes_received u + u_total_bytes_sent u + u_bytes_received u + u_bytes_sent u"

definition counters_ok :: "vpn_user \<Rightarrow> bool" where
  "counters_ok u \<longleftrightarrow> 0 \<le> u_bytes_received u \<and> 0 \<le> u_bytes_sent u
     \<and> 0 \<le> u_total_bytes_received u \<and> 0 \<le> u_total_bytes_sent u"

definition sample :: "peer \<Rightarrow> int \<times> int" where
  "sample p = (p_rx p, p_tx p)"

definition sample_ok :: "int \<Rightarrow> peer \<Rightarrow> bool" where
  "sample_ok B p \<longleftrightarrow> 0 \<le> p_rx p \<and> p_rx p \<le> B \<and> 0 \<le> p_tx p \<and> p_tx p \<le> B"

record tick =
  t_now :: int
  t_unix :: int
  t_peer :: peer

definition run_ticks :: "int \<Rightarrow> tick list \<Rightarrow> vpn_user \<Rightarrow> vpn_user" where
  "run_ticks interval ts u = foldl (\<lambda>u t. update_row (t_now t) (t_unix t) interval (t_peer t) u) u ts"

lemmas row_defs = update_row_def Let_def coalesce_def

lemma totals_exact:
  assumes "counters_ok u" and "usage u < 2 ^ 63"
  shows "new_total_rx p u = u_total_bytes_received u + (if counter_reset p u then u_bytes_received u else 0)"
    and "new_total_tx p u = u_total_bytes_sent u + (if counter_reset p u then u_bytes_sent u else 0)"
  using assms by (auto simp: new_total_rx_def new_total_tx_def counters_ok_def usage_def int64_ok_def)

lemma metered_sample:
  "metered (u_bytes_received u, u_bytes_sent u) (sample p # xs) =
     (if counter_reset p u then p_rx p + p_tx p
      else (p_rx p - u_bytes_received u) + (p_tx p - u_bytes_sent u)) + metered (sample p) xs"
  by (simp add: sample_def counter_reset_def)

lemma update_row_usage:
  assumes "counters_ok u" and "sample_ok B p" and "usage u + 2 * B < 2 ^ 63"
  shows "usage_inc p u = metered (u_bytes_received u, u_bytes_sent u) [sample p]"
    and "0 \<le> usage_inc p u" and "usage_inc p u \<le> 2 * B"
    and "usage (update_row now unix interval p u) = usage u + usage_inc p u"
    and "counters_ok (update_row now unix interval p u)"
proof -
  have B: "0 \<le> B" using assms(2) by (auto simp: sample_ok_def)
  have lt: "usage u < 2 ^ 63" using assms(3) B by simp
  note tot = totals_exact [OF assms(1) lt, of p]
  let ?cur = "new_total_rx p u + new_total_tx p u + p_rx p + p_tx p"
  have cur: "usage u \<le> ?cur" "?cur \<le> usage u + 2 * B" "0 \<le> usage u"
    using assms(1,2) unfolding tot by (auto simp: counters_ok_def usage_def sample_ok_def counter_reset_def)
  have fits: "int64_ok (usage u)" "int64_ok ?cur" "int64_ok (?cur - usage u)"
    using cur assms(3) by (auto simp: int64_ok_def)
  have inc: "usage_inc p u = ?cur - usage u"
    unfolding usage_inc_def Let_def using fits by (simp add: usage_def)
  show "usage_inc p u = metered (u_bytes_received u, u_bytes_sent u) [sample p]"
    unfolding inc metered_sample tot by (simp add: usage_def)
  show "0 \<le> usage_inc p u" "usage_inc p u \<le> 2 * B" using cur inc by auto
  show "usage (update_row now unix interval p u) = usage u + usage_inc p u"
    unfolding inc by (simp add: usage_def row_defs)
  show "counters_ok (update_row now unix interval p u)"
    using assms(1,2) tot by (auto simp: counters_ok_def sample_ok_def row_defs)
qed

lemma update_row_samples:
  "u_bytes_received (update_row now unix interval p u) = p_rx p"
  "u_bytes_sent (update_row now unix interval p u) = p_tx p"
  by (simp_all add: row_defs)

lemma update_row_traffic:
  "u_remaining_traffic (update_row now unix interval p u)
     = map_option (\<lambda>r. max64 0 (i64 (r - usage_inc p u))) (u_remaining_traffic u)"
  by (simp add: row_defs traffic_left_def split: option.splits)

text \<open>
  C2. The quota meters the traffic: over any sequence of synchronisations whose samples do not
  overflow 64 bits, a user's remaining traffic is what it was less the bytes metered from the
  sampled counters, across any number of counter restarts, and never below zero; the total
  usage kept in the row grows by exactly those bytes.
\<close>

theorem quota_meters_traffic:
  assumes "counters_ok u" and "\<forall>t \<in> set ts. sample_ok B (t_peer t)"
    and "usage u + 2 * B * int (length ts) < 2 ^ 63"
    and "u_remaining_traffic u = Some r" and "0 \<le> r" and "r < 2 ^ 63"
  shows "u_remaining_traffic (run_ticks interval ts u)
      = Some (max 0 (r - metered (u_bytes_received u, u_bytes_sent u) (map (sample \<circ> t_peer) ts)))
    \<and> usage (run_ticks interval ts u)
      = usage u + metered (u_bytes_received u, u_bytes_sent u) (map (sample \<circ> t_peer) ts)
    \<and> 0 \<le> metered (u_bytes_received u, u_bytes_sent u) (map (sample \<circ> t_peer) ts)"
  using assms
proof (induction ts arbitrary: u r)
  case Nil
  then show ?case by (simp add: run_ticks_def)
next
  case (Cons t ts)
  let ?p = "t_peer t"
  define u' where "u' = update_row (t_now t) (t_unix t) interval ?p u"
  have ok: "sample_ok B ?p" and B: "0 \<le> B" using Cons.prems(2) by (auto simp: sample_ok_def)
  have "0 \<le> B * int (length ts)" using B by simp
  then have fit: "usage u + 2 * B < 2 ^ 63" "usage u + 2 * B + 2 * B * int (length ts) < 2 ^ 63"
    using Cons.prems(3) by (auto simp: algebra_simps)
  note step = update_row_usage [OF Cons.prems(1) ok fit(1)]
  have inc: "0 \<le> usage_inc ?p u" "usage_inc ?p u < 2 ^ 63"
    using step(2,3) fit(1) Cons.prems(1) by (auto simp: usage_def counters_ok_def)
  have "int64_ok (r - usage_inc ?p u)" using inc Cons.prems(5,6) by (auto simp: int64_ok_def)
  then have r': "u_remaining_traffic u' = Some (max 0 (r - usage_inc ?p u))"
    using Cons.prems(4) by (simp add: u'_def update_row_traffic max64_def max_def)
  have us: "usage u' = usage u + usage_inc ?p u" by (simp add: u'_def step(4))
  let ?m = "metered (sample ?p) (map (sample \<circ> t_peer) ts)"
  have "usage u' + 2 * B * int (length ts) < 2 ^ 63" using us step(3) fit(2) by simp
  moreover have "counters_ok u'" by (simp add: u'_def step(5))
  moreover have "(u_bytes_received u', u_bytes_sent u') = sample ?p"
    by (simp add: u'_def update_row_samples sample_def)
  moreover have "\<forall>t \<in> set ts. sample_ok B (t_peer t)" using Cons.prems(2) by simp
  moreover have "max 0 (r - usage_inc ?p u) < 2 ^ 63" using Cons.prems(6) inc by simp
  ultimately have ih: "u_remaining_traffic (run_ticks interval ts u') = Some (max 0 (max 0 (r - usage_inc ?p u) - ?m))"
      "usage (run_ticks interval ts u') = usage u' + ?m" "0 \<le> ?m"
    using Cons.IH [of u' "max 0 (r - usage_inc ?p u)"] r' by (auto simp: comp_def)
  have run: "run_ticks interval (t # ts) u = run_ticks interval ts u'" by (simp add: run_ticks_def u'_def)
  have m: "metered (u_bytes_received u, u_bytes_sent u) (map (sample \<circ> t_peer) (t # ts)) = usage_inc ?p u + ?m"
    using step(1) by (simp add: metered_sample)
  show ?case unfolding run m using ih us inc by (auto simp: comp_def)
qed

section \<open>Enabled users\<close>

text \<open>
  C27. After a synchronisation a user found in the dump is enabled exactly when the row it now has
  leaves traffic and days, whatever its flag was before: running out of either disables it, and
  a user an administrator disabled while its peer is still in the dump is enabled again.
\<close>

theorem sync_enabled_iff:
  "u_is_enabled (update_row now unix interval p u) \<longleftrightarrow>
     (case u_remaining_traffic (update_row now unix interval p u) of None \<Rightarrow> True | Some r \<Rightarrow> r > 0)
   \<and> (case u_remaining_days (update_row now unix interval p u) of None \<Rightarrow> True | Some v \<Rightarrow> v > 0)"
proof -
  have "fst (new_days now u) = None \<longleftrightarrow> u_remaining_days u = None"
    by (auto simp: new_days_def Let_def split: option.splits)
  moreover have "traffic_left p u = None \<longleftrightarrow> u_remaining_traffic u = None"
    by (simp add: traffic_left_def)
  ultimately show ?thesis
    by (auto simp: row_defs new_enabled_def must_disable_def max64_def split: option.splits if_splits)
qed

section \<open>Remaining days\<close>

lemma days_since_bound: "days_since now t \<le> 106751"
proof -
  define x where "x = max (- (2 ^ 63)) (min (2 ^ 63 - 1) (now - t))"
  have x: "- (2 ^ 63) \<le> x" "x \<le> 2 ^ 63 - 1" by (auto simp: x_def)
  show ?thesis
  proof (cases "0 \<le> x")
    case True
    have "x div 86400000000000 \<le> (2 ^ 63 - 1) div 86400000000000" using x(2) by (rule zdiv_mono1) simp
    then show ?thesis unfolding days_since_def x_def [symmetric] using True by (simp add: go_div_nonneg)
  next
    case False
    then have "0 \<le> - x div 86400000000000" by (simp add: pos_imp_zdiv_nonneg_iff)
    with False show ?thesis unfolding days_since_def x_def [symmetric] by (simp add: go_div_def sgn_if)
  qed
qed

lemma days_since_exact:
  assumes "0 \<le> now - t" and "now - t < 2 ^ 63"
  shows "days_since now t = (now - t) div 86400000000000"
  using assms by (simp add: days_since_def go_div_nonneg)

text \<open>
  C28. Days are counted from the last check: with \<open>rd\<close> days left and the last check stored as
  RFC 3339 second \<open>t0\<close>, a synchronisation takes off the whole days that passed since, stops at
  zero, and moves the last check to the current second exactly when it took a day off.
\<close>

theorem days_counted:
  assumes "four_digit_year t0" and "0 \<le> now - t0 * 1000000000" and "now - t0 * 1000000000 < 2 ^ 63"
    and "u_remaining_days u = Some rd" and "0 < rd" and "int64_ok rd"
    and "u_last_day_check u = Some (format_rfc3339 t0)"
  shows "let days = (now - t0 * 1000000000) div 86400000000000;
             u' = update_row now unix interval p u in
         u_remaining_days u' = Some (max 0 (rd - days))
       \<and> u_last_day_check u' = Some (if days = 0 then format_rfc3339 t0 else now_text now)"
proof -
  let ?d = "(now - t0 * 1000000000) div 86400000000000"
  have d: "days_since now (t0 * 1000000000) = ?d" using assms(2,3) by (rule days_since_exact)
  have pos: "0 \<le> ?d" using assms(2) by (simp add: pos_imp_zdiv_nonneg_iff)
  have "int64_ok (rd - ?d)"
    using days_since_bound [of now "t0 * 1000000000"] assms(5,6) pos unfolding d by (auto simp: int64_ok_def)
  then have "new_days now u = (Some (max 0 (rd - ?d)), Some (if ?d = 0 then format_rfc3339 t0 else now_text now))"
    using pos assms(4,5,7) by (auto simp: new_days_def parse_format_rfc3339 [OF assms(1)] d Let_def max64_def)
  then show ?thesis by (simp add: row_defs)
qed

section \<open>The transaction\<close>

lemma update_row_keys [simp]:
  "u_id (update_row now unix interval p u) = u_id u"
  "u_username (update_row now unix interval p u) = u_username u"
  "u_server_id (update_row now unix interval p u) = u_server_id u"
  "u_public_key (update_row now unix interval p u) = u_public_key u"
  by (simp_all add: row_defs)

lemma sync_row_keys:
  "u_id (fst (sync_row look now unix interval u)) = u_id u
   \<and> u_username (fst (sync_row look now unix interval u)) = u_username u
   \<and> u_server_id (fst (sync_row look now unix interval u)) = u_server_id u"
  by (simp add: sync_row_def drop_connection_def split: option.splits)

definition synced :: "string set \<Rightarrow> (string \<Rightarrow> peer option) \<Rightarrow> int \<Rightarrow> (string \<Rightarrow> int) \<Rightarrow> int \<Rightarrow> vpn_user \<Rightarrow> vpn_user" where
  "synced wg look now unix interval u =
     (if u_server_id u \<in> wg then fst (sync_row look now unix interval u) else u)"

lemma sync_rows_map:
  "sync_rows flt wg look now unix interval us = Inr (us', down, up) \<Longrightarrow>
   us' = map (synced wg look now unix interval) us"
  by (induction us arbitrary: us' down up)
     (auto simp: synced_def bindR_eq_Inr split_beta Let_def split: if_splits)

lemma map_synced:
  "map u_id (map (synced wg look now unix interval) us) = map u_id us"
  "map u_username (map (synced wg look now unix interval) us) = map u_username us"
  "map u_server_id (map (synced wg look now unix interval) us) = map u_server_id us"
  by (simp_all add: synced_def sync_row_keys)

lemma filter_synced:
  "filter (\<lambda>u. u_server_id u \<notin> wg) (map (synced wg look now unix interval) us) = filter (\<lambda>u. u_server_id u \<notin> wg) us"
  by (induction us) (simp_all add: synced_def sync_row_keys)

lemma db_ok_map_users:
  assumes "db_ok d"
    and "map u_id us = map u_id (users d)" "map u_username us = map u_username (users d)"
      "map u_server_id us = map u_server_id (users d)"
  shows "db_ok (d\<lparr>users := us, snapshots := ss\<rparr>)"
proof -
  have ids: "u_id ` set us = u_id ` set (users d)" and srv: "u_server_id ` set us = u_server_id ` set (users d)"
    using assms(2,4) by (metis list.set_map)+
  have "\<forall>u \<in> set us. u_server_id u \<in> s_id ` set (servers d)"
  proof
    fix u
    assume "u \<in> set us"
    then have "u_server_id u \<in> u_server_id ` set (users d)" using srv by blast
    then show "u_server_id u \<in> s_id ` set (servers d)" using assms(1) by (auto simp: db_defs)
  qed
  then show ?thesis using assms by (simp add: db_defs distinct_on_def ids)
qed

lemma sync_tx_users:
  assumes "sync_tx flt uuid sql_now ps now unix interval d = Inr d'"
  shows "\<exists>ss. d' = d\<lparr>users := map (synced (wg_servers d) (peer_by_key ps) now unix interval) (users d), snapshots := ss\<rparr>"
proof -
  from assms obtain us down up where
    r: "sync_rows flt (wg_servers d) (peer_by_key ps) now unix interval (users d) = Inr (us, down, up)"
    and d': "d' = d\<lparr>users := us, snapshots := snapshot_cleanup flt uuid sql_now down up (snapshots d)\<rparr>"
    by (auto simp: sync_tx_def bindR_eq_Inr split: if_splits)
  show ?thesis unfolding d' sync_rows_map [OF r] by blast
qed

lemma syncOnce_outcome:
  assumes "syncOnce run flt wgi intervalSec uuid sql_now now unix (m, d) = ((m', d'), r)" and "db_ok d"
  shows "(r \<noteq> None \<longrightarrow> d' = d) \<and> db_ok d'
    \<and> (\<exists>us ss. d' = d\<lparr>users := us, snapshots := ss\<rparr> \<and> map u_id us = map u_id (users d)
         \<and> map u_username us = map u_username (users d)
         \<and> filter (\<lambda>u. u_server_id u \<notin> wg_servers d) us = filter (\<lambda>u. u_server_id u \<notin> wg_servers d) (users d))"
proof (cases "r = None \<and> d' \<noteq> d")
  case False
  have "d' = d \<or> r = None"
    using assms(1) by (auto simp: syncOnce_def Let_def split: prod.splits sum.splits if_splits)
  with False have "d' = d" by blast
  moreover have "d = d\<lparr>users := users d, snapshots := snapshots d\<rparr>" by simp
  ultimately show ?thesis using assms(2) by blast
next
  case True
  then obtain ps where tx: "sync_tx flt uuid sql_now ps now unix (max 1 intervalSec) d = Inr d'"
    using assms(1) by (auto simp: syncOnce_def Let_def split: prod.splits sum.splits if_splits)
  define us where "us = map (synced (wg_servers d) (peer_by_key ps) now unix (max 1 intervalSec)) (users d)"
  obtain ss where d': "d' = d\<lparr>users := us, snapshots := ss\<rparr>" using sync_tx_users [OF tx] unfolding us_def by blast
  have keys: "map u_id us = map u_id (users d)" "map u_username us = map u_username (users d)"
      "map u_server_id us = map u_server_id (users d)"
    unfolding us_def by (rule map_synced)+
  have "filter (\<lambda>u. u_server_id u \<notin> wg_servers d) us = filter (\<lambda>u. u_server_id u \<notin> wg_servers d) (users d)"
    unfolding us_def by (rule filter_synced)
  then show ?thesis using True d' keys db_ok_map_users [OF assms(2) keys] by blast
qed

text \<open>
  C24. A synchronisation is all or nothing and keeps the database whole: whatever statement fails, and
  whatever \<open>wg\<close> answers, an error leaves every table as it was; a success changes users and
  snapshots only, keeps every constraint of the schema, the keys, names and servers of all users,
  and leaves the users of servers that are not WireGuard untouched.
\<close>

theorem syncOnce_atomic:
  assumes "syncOnce run flt wgi intervalSec uuid sql_now now unix (m, d) = ((m', d'), r)" and "db_ok d"
  shows "(r \<noteq> None \<longrightarrow> d' = d) \<and> db_ok d'
    \<and> (\<exists>us ss. d' = d\<lparr>users := us, snapshots := ss\<rparr> \<and> map u_id us = map u_id (users d)
         \<and> map u_username us = map u_username (users d)
         \<and> filter (\<lambda>u. u_server_id u \<notin> wg_servers d) us = filter (\<lambda>u. u_server_id u \<notin> wg_servers d) (users d))"
  using assms by (rule syncOnce_outcome)

section \<open>The dump reads back\<close>

text \<open>
  A peer as the kernel has it and the line that \<open>wg show IFACE dump\<close> prints for it: the public key, the preshared key,
  the endpoint, the allowed addresses with commas between, the handshake, the two counters and the keepalive. \<open>(none)\<close> stands
  for a key, an endpoint or addresses that are not set, \<open>off\<close> for a keepalive of zero.
\<close>

record wg_peer =
  wp_public_key :: string
  wp_preshared_key :: "string option"
  wp_endpoint :: "string option"
  wp_allowed_ips :: "string list"
  wp_handshake :: int
  wp_rx :: int
  wp_tx :: int
  wp_keepalive :: int

definition or_none :: "string option \<Rightarrow> string" where
  "or_none v = (case v of None \<Rightarrow> ''(none)'' | Some x \<Rightarrow> x)"

definition dump_allowed :: "wg_peer \<Rightarrow> string" where
  "dump_allowed w = (if wp_allowed_ips w = [] then ''(none)'' else join '','' (wp_allowed_ips w))"

definition dump_fields :: "wg_peer \<Rightarrow> string list" where
  "dump_fields w =
     [wp_public_key w, or_none (wp_preshared_key w), or_none (wp_endpoint w), dump_allowed w,
      itoa (wp_handshake w), itoa (wp_rx w), itoa (wp_tx w), if wp_keepalive w = 0 then ''off'' else itoa (wp_keepalive w)]"

definition dump_line :: "wg_peer \<Rightarrow> string" where
  "dump_line w = join [chr_tab] (dump_fields w)"

text \<open>What the synchronisation makes of it.\<close>

definition seen_peer :: "wg_peer \<Rightarrow> peer" where
  "seen_peer w =
     \<lparr>p_public_key = wp_public_key w, p_endpoint = (case wp_endpoint w of None \<Rightarrow> [] | Some x \<Rightarrow> x),
      p_allowed_ips = dump_allowed w, p_handshake = wp_handshake w, p_rx = wp_rx w, p_tx = wp_tx w,
      p_keepalive = wp_keepalive w\<rparr>"

text \<open>No blanks or line breaks in a key, an endpoint or an address, no empty key, numbers that an \<open>int64\<close> holds.\<close>

definition peer_ok :: "wg_peer \<Rightarrow> bool" where
  "peer_ok w \<longleftrightarrow> wp_public_key w \<noteq> [] \<and> (\<forall>c \<in> set (wp_public_key w). plain c)
     \<and> (\<forall>k. wp_preshared_key w = Some k \<longrightarrow> (\<forall>c \<in> set k. plain c))
     \<and> (\<forall>k. wp_endpoint w = Some k \<longrightarrow> k \<noteq> ''(none)'' \<and> (\<forall>c \<in> set k. plain c))
     \<and> (\<forall>a \<in> set (wp_allowed_ips w). \<forall>c \<in> set a. plain c)
     \<and> int64_ok (wp_handshake w) \<and> int64_ok (wp_rx w) \<and> int64_ok (wp_tx w) \<and> int64_ok (wp_keepalive w)"

lemma parseI64_itoa: "int64_ok i \<Longrightarrow> parseI64 (itoa i) = i"
  using parse_sint_itoa [of i] by (simp add: parseI64_def parse_int_value_def itoa_plain int64_ok_def)

lemma plain_join: "\<forall>a \<in> set xs. \<forall>c \<in> set a. plain c \<Longrightarrow> c \<in> set (join '','' xs) \<Longrightarrow> plain c"
proof (induction xs rule: induct_list012)
  case (3 x y zs)
  have "plain (CHR '','')" by (simp add: plain_def ascii_space_def)
  moreover have "c \<in> set x \<or> c = CHR '','' \<or> c \<in> set (join '','' (y # zs))" using 3(4) by auto
  moreover have "c \<in> set (join '','' (y # zs)) \<Longrightarrow> plain c" using 3(2,3) by simp
  ultimately show ?case using 3(3) by auto
qed simp_all

lemma dump_plain:
  assumes "peer_ok w" and "x \<in> set (dump_fields w)" and "c \<in> set x"
  shows "plain c"
proof -
  have n: "\<forall>c \<in> set ''(none)''. plain c" "\<forall>c \<in> set ''off''. plain c" by (simp_all add: plain_def ascii_space_def)
  have "\<forall>c \<in> set (dump_allowed w). plain c"
    using assms(1) n(1) plain_join [of "wp_allowed_ips w"] by (simp add: dump_allowed_def peer_ok_def)
  then have "\<forall>x \<in> set (dump_fields w). \<forall>c \<in> set x. plain c"
    using assms(1) n itoa_plain by (auto simp: dump_fields_def peer_ok_def or_none_def split: option.split)
  then show ?thesis using assms(2,3) by blast
qed

lemma dump_columns:
  assumes "peer_ok w"
  shows "split_on chr_tab (dump_line w) = dump_fields w"
proof -
  have "chr_tab \<notin> set x" if "x \<in> set (dump_fields w)" for x using dump_plain [OF assms that] plain_blanks by blast
  then show ?thesis unfolding dump_line_def by (intro split_on_join) (auto simp: dump_fields_def)
qed

lemma parse_dump_line:
  assumes "peer_ok w"
  shows "parse_peer (dump_line w) = Inr (seen_peer w)"
proof -
  have "trim ''off'' = ''off''" by (rule trim_plain) (simp add: plain_def ascii_space_def)
  then have "parseI64 ''off'' = 0" by (simp add: parseI64_def parse_int_value_def parse_sint_def parse_nat_def is_digit_def)
  moreover have "normalizeNone (or_none (wp_endpoint w)) = (case wp_endpoint w of None \<Rightarrow> [] | Some x \<Rightarrow> x)"
    using assms by (auto simp: normalizeNone_def or_none_def peer_ok_def split: option.split)
  ultimately show ?thesis using assms parseI64_itoa
    unfolding parse_peer_def dump_columns [OF assms] Let_def
    by (simp add: dump_fields_def seen_peer_def peer_ok_def numeral_eq_Suc)
qed

lemma dump_line_shape:
  assumes "peer_ok p"
  shows "chr_nl \<notin> set (dump_line p)" and "dump_line p \<noteq> []" and "trimmed (dump_line p)"
proof -
  have "c \<in> set (join [chr_tab] xs) \<Longrightarrow> c = chr_tab \<or> (\<exists>x \<in> set xs. c \<in> set x)" for c xs
    by (induction xs rule: induct_list012) auto
  then show "chr_nl \<notin> set (dump_line p)"
    using dump_plain [OF assms, of _ chr_nl] plain_blanks unfolding dump_line_def by fastforce
  obtain c k where k: "wp_public_key p = c # k" "plain c" using assms by (cases "wp_public_key p") (auto simp: peer_ok_def)
  then show ne: "dump_line p \<noteq> []" by (simp add: dump_line_def dump_fields_def)
  have "hd (dump_line p) = c" using k by (simp add: dump_line_def dump_fields_def)
  moreover have "plain (last (dump_line p))"
  proof -
    let ?x = "if wp_keepalive p = 0 then ''off'' else itoa (wp_keepalive p)"
    have "?x \<noteq> []" by simp
    then have "last (dump_line p) = last ?x" by (simp add: dump_line_def dump_fields_def)
    moreover have "plain (last ?x)" using \<open>?x \<noteq> []\<close> by (intro dump_plain [OF assms, of ?x]) (simp_all add: dump_fields_def)
    ultimately show ?thesis by simp
  qed
  ultimately show "trimmed (dump_line p)" using k(2) ne by (intro trimmed_plain_ends) simp_all
qed

lemma parse_peers_lines:
  "\<forall>p \<in> set ps. peer_ok p \<Longrightarrow> parse_peers (map dump_line ps) = Inr (map seen_peer ps)"
  by (induction ps) (simp_all add: parse_dump_line trim_trimmed dump_line_shape)

text \<open>
  C34. The dump of an interface reads back: the interface line followed by one line per peer in the format of
  \<open>wg show IFACE dump\<close> parses to those peers, in order, with and without a preshared key. An endpoint \<open>(none)\<close> is read as no
  endpoint and a keepalive \<open>off\<close> as zero; addresses \<open>(none)\<close> are kept as this text. The numbers are ones an \<open>int64\<close> holds.
\<close>

theorem parseDump_reads_back:
  assumes "\<forall>p \<in> set ps. peer_ok p" and "head \<noteq> []" and "trimmed head" and "chr_nl \<notin> set head"
  shows "parseDump (unlines (head # map dump_line ps)) = Inr (map seen_peer ps)"
proof -
  let ?ls = "head # map dump_line ps"
  have nl: "\<forall>l \<in> set ?ls. chr_nl \<notin> set l" using assms by (auto dest: dump_line_shape(1))
  have "trim (unlines ?ls) = join [chr_nl] ?ls"
    by (rule trim_unlines) (use assms(1-3) dump_line_shape in auto)
  moreover have "split_on chr_nl (join [chr_nl] ?ls) = ?ls" using nl by (intro split_on_join) auto
  ultimately show ?thesis
    using assms by (simp add: parseDump_def trim_trimmed parse_peers_lines)
qed

section \<open>Starting and stopping\<close>

text \<open>
  \<open>Start\<close> and \<open>Stop\<close> as steps on what they share: the cancel function (the number of the loop it
  cancels), the loops that run (the wait group counts them), those of them that have not reached the \<open>select\<close> yet, and
  the contexts cancelled. The critical section of the mutex is one step; \<open>Stop\<close> returns when the wait group is empty.
  A loop synchronises once before its first \<open>select\<close>, cancelled or not, and only the \<open>select\<close> lets it leave; there it chooses
  freely among the channels that are ready, so that a cancelled loop may tick again.
\<close>

record syncer =
  sy_cancel :: "nat option"
  sy_next :: nat
  sy_live :: "nat set"
  sy_fresh :: "nat set"
  sy_dead :: "nat set"

datatype sy_event = StartCall | StopCall | StopReturn | SyncTick nat | LoopExit nat

definition sy_init :: syncer where
  "sy_init = \<lparr>sy_cancel = None, sy_next = 0, sy_live = {}, sy_fresh = {}, sy_dead = {}\<rparr>"

inductive sy_step :: "syncer \<Rightarrow> sy_event \<Rightarrow> syncer \<Rightarrow> bool" where
  start_new: "sy_cancel s = None \<Longrightarrow>
    sy_step s StartCall (s\<lparr>sy_cancel := Some (sy_next s), sy_next := Suc (sy_next s), sy_live := insert (sy_next s) (sy_live s),
      sy_fresh := insert (sy_next s) (sy_fresh s)\<rparr>)"
| start_again: "sy_cancel s \<noteq> None \<Longrightarrow> sy_step s StartCall s"
| stop: "sy_step s StopCall (s\<lparr>sy_cancel := None, sy_dead := sy_dead s \<union> set_option (sy_cancel s)\<rparr>)"
| stop_return: "sy_live s = {} \<Longrightarrow> sy_step s StopReturn s"
| tick: "g \<in> sy_live s \<Longrightarrow> sy_step s (SyncTick g) (s\<lparr>sy_fresh := sy_fresh s - {g}\<rparr>)"
| exit: "g \<in> sy_live s \<Longrightarrow> g \<notin> sy_fresh s \<Longrightarrow> g \<in> sy_dead s \<Longrightarrow> sy_step s (LoopExit g) (s\<lparr>sy_live := sy_live s - {g}\<rparr>)"

inductive sy_run :: "syncer \<Rightarrow> sy_event list \<Rightarrow> syncer \<Rightarrow> bool" where
  run_nil: "sy_run s [] s"
| run_snoc: "sy_run s es t \<Longrightarrow> sy_step t e t' \<Longrightarrow> sy_run s (es @ [e]) t'"

inductive_cases sy_step_return: "sy_step s StopReturn t"
inductive_cases sy_step_tick: "sy_step s (SyncTick g) t"

definition sy_inv :: "syncer \<Rightarrow> bool" where
  "sy_inv s \<longleftrightarrow> sy_live s - sy_dead s = set_option (sy_cancel s) \<and> sy_fresh s \<subseteq> sy_live s
     \<and> (\<forall>g \<in> sy_live s \<union> sy_dead s. g < sy_next s)"

lemma sy_inv_step: "sy_step s e t \<Longrightarrow> sy_inv s \<Longrightarrow> sy_inv t"
  by (induction rule: sy_step.induct) (auto simp: sy_inv_def less_Suc_eq)

lemma sy_inv_run: "sy_run s es t \<Longrightarrow> sy_inv s \<Longrightarrow> sy_inv t"
  by (induction rule: sy_run.induct) (auto intro: sy_inv_step)

lemma sy_quiet:
  "sy_run s es t \<Longrightarrow> sy_live s = {} \<Longrightarrow> StartCall \<notin> set es \<Longrightarrow> sy_live t = {} \<and> (\<forall>g. SyncTick g \<notin> set es)"
proof (induction rule: sy_run.induct)
  case (run_snoc s es t e t')
  then have "sy_live t = {}" by simp
  with run_snoc(2,5) have "sy_live t' = {} \<and> (\<forall>g. e \<noteq> SyncTick g)" by (cases rule: sy_step.cases) auto
  with run_snoc show ?case by auto
qed simp

text \<open>
  C32. One loop, and none after \<open>Stop\<close>: however \<open>Start\<close>, \<open>Stop\<close> and the loops interleave from the fresh
  syncer, at most one loop is not cancelled, and it is the one whose cancel function is kept;
  and once a \<open>Stop\<close> has returned, no synchronisation runs until \<open>Start\<close> is called again.
\<close>

theorem syncer_single_loop:
  assumes "sy_run sy_init es s"
  shows "sy_live s - sy_dead s = set_option (sy_cancel s)
    \<and> (\<forall>t es' u. sy_step s StopReturn t \<and> sy_run t es' u \<and> StartCall \<notin> set es' \<longrightarrow> (\<forall>g. SyncTick g \<notin> set es'))"
proof -
  have "sy_inv s" using sy_inv_run [OF assms] by (simp add: sy_inv_def sy_init_def)
  then show ?thesis using sy_quiet by (auto simp: sy_inv_def elim!: sy_step_return)
qed

lemma sy_inv_finite: "sy_inv s \<Longrightarrow> finite (sy_live s)"
  by (rule finite_subset [of _ "{..< sy_next s}"]) (auto simp: sy_inv_def)

lemma run_append: "sy_run t fs u \<Longrightarrow> sy_run s es t \<Longrightarrow> sy_run s (es @ fs) u"
proof (induction rule: sy_run.induct)
  case (run_snoc t fs u f u')
  then show ?case using sy_run.run_snoc [of s "es @ fs" u f u'] by simp
qed simp

text \<open>A loop that has not synchronised yet does so before it leaves.\<close>

lemma fresh_first:
  "sy_run s es t \<Longrightarrow> g \<in> sy_fresh s \<Longrightarrow> SyncTick g \<in> set es \<or> g \<in> sy_fresh t \<and> LoopExit g \<notin> set es"
proof (induction rule: sy_run.induct)
  case (run_snoc s es t e t')
  show ?case
  proof (cases "SyncTick g \<in> set es")
    case False
    then have g: "g \<in> sy_fresh t" "LoopExit g \<notin> set es" using run_snoc by auto
    have "e = SyncTick g \<or> g \<in> sy_fresh t' \<and> e \<noteq> LoopExit g" using run_snoc(2) g by cases auto
    then show ?thesis using g by auto
  qed simp
qed simp

text \<open>Without a call of \<open>Start\<close> a stopped syncer stays stopped and gets no new loop.\<close>

lemma stopped_step:
  assumes "sy_step s e t" and "e \<noteq> StartCall" and "sy_cancel s = None"
  shows "sy_cancel t = None \<and> sy_live t \<subseteq> sy_live s \<and> sy_fresh t \<subseteq> sy_fresh s"
  using assms(1) assms(2-) by cases auto

lemma stopped_run:
  "sy_run t es u \<Longrightarrow> StartCall \<notin> set es \<Longrightarrow> sy_cancel t = None \<Longrightarrow>
   sy_cancel u = None \<and> sy_live u \<subseteq> sy_live t \<and> sy_fresh u \<subseteq> sy_fresh t"
proof (induction rule: sy_run.induct)
  case (run_snoc s es t e t')
  then show ?case using stopped_step [OF run_snoc(2)] by auto
qed simp

text \<open>The loops that are left finish one after the other, each after its first synchronisation.\<close>

definition leave :: "nat set \<Rightarrow> nat \<Rightarrow> sy_event list" where
  "leave fresh g = (if g \<in> fresh then [SyncTick g] else []) @ [LoopExit g]"

lemma leave_run:
  assumes "g \<in> sy_live u" and "g \<in> sy_dead u"
  shows "sy_run u (leave (sy_fresh u) g) (u\<lparr>sy_fresh := sy_fresh u - {g}, sy_live := sy_live u - {g}\<rparr>)"
proof -
  let ?v = "u\<lparr>sy_fresh := sy_fresh u - {g}\<rparr>"
  have x: "sy_step ?v (LoopExit g) (?v\<lparr>sy_live := sy_live ?v - {g}\<rparr>)" using exit [of g ?v] assms by simp
  show ?thesis
  proof (cases "g \<in> sy_fresh u")
    case True
    have "sy_run u ([] @ [SyncTick g]) ?v" using tick [OF assms(1)] by (rule run_snoc [OF run_nil])
    from run_snoc [OF this x] show ?thesis using True by (simp add: leave_def)
  next
    case False
    then have "?v = u" by simp
    then show ?thesis using run_snoc [OF run_nil x] False by (simp add: leave_def)
  qed
qed

lemma all_leave:
  "distinct gs \<Longrightarrow> sy_live u = set gs \<Longrightarrow> set gs \<subseteq> sy_dead u \<Longrightarrow> \<exists>v. sy_run u (concat (map (leave (sy_fresh u)) gs)) v \<and> sy_live v = {}"
proof (induction gs arbitrary: u)
  case Nil
  then show ?case using run_nil [of u] by auto
next
  case (Cons g gs)
  let ?v = "u\<lparr>sy_fresh := sy_fresh u - {g}, sy_live := sy_live u - {g}\<rparr>"
  have "sy_run u (leave (sy_fresh u) g) ?v" using Cons.prems by (intro leave_run) auto
  moreover obtain w where w: "sy_run ?v (concat (map (leave (sy_fresh ?v)) gs)) w" "sy_live w = {}"
    using Cons.IH [of ?v] Cons.prems by auto
  moreover have "map (leave (sy_fresh ?v)) gs = map (leave (sy_fresh u)) gs" using Cons.prems(1) by (auto simp: leave_def)
  ultimately show ?case using run_append by (metis concat.simps(2) list.simps(9))
qed

lemma leave_length:
  "length (concat (map (leave F) gs)) = length gs + length (filter (\<lambda>g. g \<in> F) gs)"
  "StartCall \<notin> set (concat (map (leave F) gs))"
  by (induction gs) (auto simp: leave_def)

text \<open>
  C33. \<open>Stop\<close> can always end: whatever happened after the call, as long as nobody called \<open>Start\<close>, the call returns
  after one step for each loop that still runs and one for each of them that has not synchronised yet; no loop was added
  since the call; and a loop that had not synchronised by then does so before it leaves, so that a \<open>Stop\<close> that follows a
  \<open>Start\<close> at once still waits for a synchronisation.
\<close>

theorem stop_terminates:
  assumes "sy_run sy_init es s" and "sy_step s StopCall t" and "sy_run t es' u" and "StartCall \<notin> set es'"
  shows "(\<exists>fs v. sy_run u (fs @ [StopReturn]) v \<and> StartCall \<notin> set fs \<and> length fs = card (sy_live u) + card (sy_fresh u))
    \<and> sy_live u \<subseteq> sy_live t
    \<and> (\<forall>g \<in> sy_fresh t. LoopExit g \<in> set es' \<longrightarrow> SyncTick g \<in> set es')"
proof -
  have "sy_inv s" using sy_inv_run [OF assms(1)] by (simp add: sy_inv_def sy_init_def)
  then have "sy_inv t" using sy_inv_step [OF assms(2)] by simp
  then have inv: "sy_inv u" by (rule sy_inv_run [OF assms(3)])
  have "sy_cancel t = None" using assms(2) by cases simp
  note u = stopped_run [OF assms(3,4) this]
  have dead: "sy_live u \<subseteq> sy_dead u" and fin: "finite (sy_live u)" and sub: "sy_fresh u \<subseteq> sy_live u"
    using inv u sy_inv_finite by (auto simp: sy_inv_def)
  obtain gs where gs: "set gs = sy_live u" "distinct gs" using finite_distinct_list [OF fin] by blast
  let ?fs = "concat (map (leave (sy_fresh u)) gs)"
  obtain v where v: "sy_run u ?fs v" "sy_live v = {}" using all_leave [OF gs(2), of u] gs(1) dead by auto
  have "{g \<in> set gs. g \<in> sy_fresh u} = sy_fresh u" using gs(1) sub by auto
  then have "length (filter (\<lambda>g. g \<in> sy_fresh u) gs) = card (sy_fresh u)"
    using distinct_card [of "filter (\<lambda>g. g \<in> sy_fresh u) gs"] gs(2) by simp
  moreover have "length gs = card (sy_live u)" using distinct_card [OF gs(2)] gs(1) by simp
  moreover have "sy_run u (?fs @ [StopReturn]) v" using run_snoc [OF v(1) stop_return [OF v(2)]] .
  ultimately have "\<exists>fs v. sy_run u (fs @ [StopReturn]) v \<and> StartCall \<notin> set fs \<and> length fs = card (sy_live u) + card (sy_fresh u)"
    using leave_length [of "sy_fresh u" gs] by metis
  then show ?thesis using u fresh_first [OF assms(3)] by blast
qed

section \<open>Witnesses\<close>

definition ex_sync_user :: vpn_user where
  "ex_sync_user = (user_row ''u1'' ''alice'' ''s1'')
     \<lparr>u_public_key := Some ''K'', u_bytes_received := 100, u_bytes_sent := 50, u_prev_bytes_received := 100,
      u_prev_bytes_sent := 50, u_total_bytes_received := 10, u_total_bytes_sent := 20, u_remaining_traffic := Some 1000,
      u_remaining_days := Some 3, u_last_day_check := Some ''2026-01-01T00:00:00Z''\<rparr>"

definition ex_peer :: "int \<Rightarrow> int \<Rightarrow> peer" where
  "ex_peer rx tx = \<lparr>p_public_key = ''K'', p_endpoint = ''1.2.3.4:5'', p_allowed_ips = ''10.0.0.2/32'',
     p_handshake = 1767300000, p_rx = rx, p_tx = tx, p_keepalive = 25\<rparr>"

definition ex_wg_peer :: "int \<Rightarrow> int \<Rightarrow> wg_peer" where
  "ex_wg_peer rx tx = \<lparr>wp_public_key = ''K'', wp_preshared_key = Some ''S'', wp_endpoint = Some ''1.2.3.4:5'',
     wp_allowed_ips = [''10.0.0.2/32''], wp_handshake = 1767300000, wp_rx = rx, wp_tx = tx, wp_keepalive = 25\<rparr>"

definition ex_ticks :: "tick list" where
  "ex_ticks = map (\<lambda>(rx, tx). \<lparr>t_now = 1767312000000000000, t_unix = 1767312000, t_peer = ex_peer rx tx\<rparr>)
     [(160, 90), (30, 5), (400, 600)]"

lemma quota_meters_traffic_witness:
  "u_remaining_traffic (run_ticks 5 ex_ticks ex_sync_user) = Some 0
   \<and> usage (run_ticks 5 (take 2 ex_ticks) ex_sync_user) = 315
   \<and> u_remaining_traffic (run_ticks 5 (take 2 ex_ticks) ex_sync_user) = Some 865"
  using quota_meters_traffic [of ex_sync_user ex_ticks 600 1000 5]
    quota_meters_traffic [of ex_sync_user "take 2 ex_ticks" 600 1000 5]
  by (simp add: ex_sync_user_def user_row_def ex_ticks_def ex_peer_def counters_ok_def usage_def sample_ok_def
      sample_def)

lemma format_1767225600: "format_rfc3339 1767225600 = ''2026-01-01T00:00:00Z''"
  by (simp add: format_rfc3339_def civil_of_unix_def civil_of_days_def find_year.simps year_start_def
      month_days_def is_leap_def pad4_def pad2_def clock_text_def digit_def)

lemma days_counted_witness:
  "u_remaining_days (update_row 1767312000000000000 1767312000 5 (ex_peer 160 90) ex_sync_user) = Some 2"
  using days_counted [of 1767225600 1767312000000000000 ex_sync_user 3 1767312000 5 "ex_peer 160 90"]
  by (simp add: format_1767225600 ex_sync_user_def user_row_def four_digit_year_def int64_ok_def Let_def)

lemma parseDump_reads_back_witness:
  "parseDump (unlines [''priv'', dump_line (ex_wg_peer 160 90),
      dump_line \<lparr>wp_public_key = ''L'', wp_preshared_key = None, wp_endpoint = None, wp_allowed_ips = [], wp_handshake = 0,
        wp_rx = 0, wp_tx = 0, wp_keepalive = 0\<rparr>])
   = Inr [ex_peer 160 90, \<lparr>p_public_key = ''L'', p_endpoint = [], p_allowed_ips = ''(none)'', p_handshake = 0, p_rx = 0, p_tx = 0,
       p_keepalive = 0\<rparr>]"
proof -
  have "trimmed ''priv''" by (simp add: trimmed_def str_eval)
  then show ?thesis
    using parseDump_reads_back [of "[ex_wg_peer 160 90, \<lparr>wp_public_key = ''L'', wp_preshared_key = None, wp_endpoint = None,
        wp_allowed_ips = [], wp_handshake = 0, wp_rx = 0, wp_tx = 0, wp_keepalive = 0\<rparr>]" "''priv''"]
    by (simp add: peer_ok_def ex_wg_peer_def ex_peer_def seen_peer_def dump_allowed_def plain_def ascii_space_def int64_ok_def)
qed

lemma syncer_single_loop_witness:
  "\<not> (\<exists>u. sy_step \<lparr>sy_cancel = None, sy_next = 1, sy_live = {}, sy_fresh = {}, sy_dead = {0}\<rparr> (SyncTick 0) u)"
proof -
  let ?a = "\<lparr>sy_cancel = Some 0, sy_next = 1, sy_live = {0}, sy_fresh = {0}, sy_dead = {}\<rparr>"
  let ?b = "\<lparr>sy_cancel = None, sy_next = 1, sy_live = {0}, sy_fresh = {0}, sy_dead = {0}\<rparr>"
  let ?c = "\<lparr>sy_cancel = None, sy_next = 1, sy_live = {0}, sy_fresh = {}, sy_dead = {0}\<rparr>"
  let ?s = "\<lparr>sy_cancel = None, sy_next = 1, sy_live = {}, sy_fresh = {}, sy_dead = {0}\<rparr>"
  have "sy_step sy_init StartCall ?a" using start_new [of sy_init] by (simp add: sy_init_def)
  moreover have "sy_step ?a StopCall ?b" using stop [of ?a] by simp
  moreover have "sy_step ?b (SyncTick 0) ?c" using tick [of 0 ?b] by simp
  moreover have "sy_step ?c (LoopExit 0) ?s" using exit [of 0 ?c] by simp
  ultimately have run: "sy_run sy_init (((([] @ [StartCall]) @ [StopCall]) @ [SyncTick 0]) @ [LoopExit 0]) ?s"
    using run_nil [of sy_init] by (metis run_snoc)
  have ret: "sy_step ?s StopReturn ?s" by (rule stop_return) simp
  show ?thesis
  proof
    assume "\<exists>u. sy_step ?s (SyncTick 0) u"
    then obtain u where "sy_step ?s (SyncTick 0) u" by blast
    from run_snoc [OF run_nil this] have "sy_run ?s [SyncTick 0] u" by simp
    with syncer_single_loop [OF run] ret show False by fastforce
  qed
qed

definition ex_sync_db :: db where
  "ex_sync_db = db_empty\<lparr>servers := [\<lparr>s_id = ''s1'', s_name = ''wg'', s_protocol = ''wireguard'', s_host = [], s_port = None,
     s_config_path = None, s_is_active = True, s_private_key = None, s_public_key = None\<rparr>], users := [ex_sync_user]\<rparr>"

definition ex_sync_run :: "unit exec" where
  "ex_sync_run argv m = (m, Output (if argv = [''wg'', ''show'', ''interfaces''] then ''wg0''
     else unlines [''priv'', dump_line (ex_wg_peer 160 90)]))"

definition no_faults :: sync_faults where
  "no_faults = \<lparr>f_begin = False, f_query = False, f_row = (\<lambda>_. False), f_rows_err = False, f_snapshot = False,
     f_cleanup = False, f_commit = False\<rparr>"

lemma ex_sync_db_ok: "db_ok ex_sync_db"
  by (simp add: ex_sync_db_def ex_sync_user_def user_row_def db_empty_def db_defs distinct_on_def)

lemma syncOnce_atomic_witness:
  "db_ok (snd (fst (syncOnce ex_sync_run (no_faults\<lparr>f_row := (\<lambda>i. i = ''u1'')\<rparr>) ''wg0'' 5 ''n1'' 0 0 (\<lambda>_. 0) ((), ex_sync_db))))"
proof -
  obtain m' d' r where s: "syncOnce ex_sync_run (no_faults\<lparr>f_row := (\<lambda>i. i = ''u1'')\<rparr>) ''wg0'' 5 ''n1'' 0 0 (\<lambda>_. 0) ((), ex_sync_db)
      = ((m', d'), r)"
    by (metis prod.exhaust)
  show ?thesis using syncOnce_atomic [OF s ex_sync_db_ok] by (simp add: s)
qed

lemma stop_terminates_witness:
  "(let s = \<lparr>sy_cancel = Some 0, sy_next = 1, sy_live = {0}, sy_fresh = {0}, sy_dead = {}\<rparr>;
        t = s\<lparr>sy_cancel := None, sy_dead := {0}\<rparr> in
    sy_step s StopCall t \<and> (\<exists>fs v. sy_run t (fs @ [StopReturn]) v \<and> length fs = 2))"
proof -
  let ?s = "\<lparr>sy_cancel = Some 0, sy_next = 1, sy_live = {0}, sy_fresh = {0}, sy_dead = {}\<rparr>"
  let ?t = "?s\<lparr>sy_cancel := None, sy_dead := {0}\<rparr>"
  have "sy_step sy_init StartCall ?s" using start_new [of sy_init] by (simp add: sy_init_def)
  then have run: "sy_run sy_init ([] @ [StartCall]) ?s" by (rule run_snoc [OF run_nil])
  have stop: "sy_step ?s StopCall ?t" using stop [of ?s] by simp
  from stop_terminates [OF run this run_nil] have "\<exists>fs v. sy_run ?t (fs @ [StopReturn]) v \<and> length fs = 2" by fastforce
  then show ?thesis using stop by simp
qed

end
