(* ===== verification/Wg_State.thy ===== *)
theory Wg_State
  imports Dns_Listen Wg_Apply Syncer
begin

text \<open>
  The server's settings and what is made of them: set-up (\<open>internal/wireguard/setup.go\<close>), live
  status (\<open>live.go\<close>), loading and saving (\<open>state.go\<close>), and the configuration a client gets
  (\<open>clientconf.go\<close>). \<open>derive\<close> is the third-party derivation of a public key.
\<close>

section \<open>Set-up\<close>

record setup_config =
  su_host :: string
  su_port :: int
  su_address :: string
  su_client_range :: string
  su_dns :: string
  su_mtu :: int
  su_keepalive :: int
  su_allowed_ips :: string
  su_pre_up :: string
  su_pre_down :: string
  su_post_up :: string
  su_post_down :: string
  su_private_key :: string
  su_public_key :: string

definition ValidateSetupConfig :: "setup_config \<Rightarrow> goerr option" where
  "ValidateSetupConfig c =
     (if trim (su_host c) = [] then Some (ErrMsg ''server host is required'')
      else if su_port c < 1 \<or> su_port c > 65535 then Some (ErrMsg ''server port must be between 1 and 65535'')
      else if trim (su_address c) = [] then Some (ErrMsg ''server address is required'')
      else if trim (su_client_range c) = [] then Some (ErrMsg ''client address range is required'')
      else if trim (su_dns c) = [] then Some (ErrMsg ''DNS is required'')
      else if trim (su_allowed_ips c) = [] then Some (ErrMsg ''allowed IPs is required'')
      else if su_mtu c < 576 \<or> su_mtu c > 65535 then Some (ErrMsg ''MTU must be between 576 and 65535'')
      else if su_keepalive c < 0 \<or> su_keepalive c > 65535
        then Some (ErrMsg ''persistent keepalive must be between 0 and 65535'')
      else if trim (su_private_key c) = [] \<or> trim (su_public_key c) = [] then Some (ErrMsg ''server keypair is required'')
      else None)"

definition server_row :: "string \<Rightarrow> setup_config \<Rightarrow> vpn_server" where
  "server_row dataDir c =
     \<lparr>s_id = ''wireguard'', s_name = ''WireGuard Server'', s_protocol = ''wireguard'', s_host = su_host c,
      s_port = Some (su_port c), s_config_path = Some (path_join dataDir ''wg0.conf''), s_is_active = True,
      s_private_key = Some (su_private_key c), s_public_key = Some (su_public_key c)\<rparr>"

definition UpsertWireGuardServer :: "string \<Rightarrow> setup_config \<Rightarrow> db \<Rightarrow> db" where
  "UpsertWireGuardServer dataDir c d =
     (if ''wireguard'' \<in> s_id ` set (servers d)
      then d\<lparr>servers := upd_where (\<lambda>s. s_id s = ''wireguard'') (\<lambda>_. server_row dataDir c) (servers d)\<rparr>
      else d\<lparr>servers := servers d @ [server_row dataDir c]\<rparr>)"

section \<open>Live status\<close>

record live_status =
  lv_up :: bool
  lv_interface :: "string option"
  lv_port :: "int option"

definition GetLiveStatus :: "'m exec \<Rightarrow> string \<Rightarrow> 'm \<Rightarrow> 'm \<times> live_status" where
  "GetLiveStatus run configured m =
     (let down = \<lparr>lv_up = False, lv_interface = None, lv_port = None\<rparr> in
      (case execWG run [''wg'', ''show'', ''interfaces''] m of
         (m1, Inl _) \<Rightarrow> (m1, down)
       | (m1, Inr raw) \<Rightarrow>
           (let actual = pickInterface raw configured configured in
            if trim raw = [] \<or> actual = [] then (m1, down)
            else
              (case execWG run [''wg'', ''show'', actual, ''dump''] m1 of
                 (m2, Inl _) \<Rightarrow> (m2, \<lparr>lv_up = True, lv_interface = Some actual, lv_port = None\<rparr>)
               | (m2, Inr dump) \<Rightarrow>
                   (let first = split_on chr_tab (hd (split_on chr_nl (trim dump))) in
                    (m2, \<lparr>lv_up = True, lv_interface = Some actual,
                       lv_port = (if length first \<ge> 3 then atoi (first ! 2) else None)\<rparr>))))))"

section \<open>Loading and saving\<close>

record wg_server =
  ws_id :: string
  ws_name :: string
  ws_protocol :: string
  ws_host :: string
  ws_port :: int
  ws_config_path :: string
  ws_is_active :: bool
  ws_private_key :: "string option"
  ws_public_key :: "string option"

definition non_empty :: "string option \<Rightarrow> string option" where
  "non_empty s = (case s of None \<Rightarrow> None | Some x \<Rightarrow> if x = [] then None else Some x)"

text \<open>The path is scanned into a plain string, so NULL is an error.\<close>

definition loadServer :: "db \<Rightarrow> wg_server res" where
  "loadServer d =
     (case find_server ''wireguard'' d of
        None \<Rightarrow> Inl ErrNoRows
      | Some s \<Rightarrow>
          (case s_config_path s of
             None \<Rightarrow> Inl (ErrNullScan ''config_path'')
           | Some path \<Rightarrow>
               Inr \<lparr>ws_id = s_id s, ws_name = s_name s, ws_protocol = s_protocol s, ws_host = s_host s,
                    ws_port = (case s_port s of None \<Rightarrow> 0 | Some p \<Rightarrow> p), ws_config_path = path,
                    ws_is_active = s_is_active s, ws_private_key = non_empty (s_private_key s),
                    ws_public_key = non_empty (s_public_key s)\<rparr>))"

definition LoadWireGuardState ::
  "'m exec \<Rightarrow> db \<Rightarrow> string \<Rightarrow> 'm \<Rightarrow> 'm \<times> (wgconf \<times> wg_server option \<times> live_status) res" where
  "LoadWireGuardState run d configured m =
     (let sys = GetSystemConfig d in
      if \<not> sc_complete sys then (m, Inl (ErrMsg ''WireGuard is not configured yet. Finish setup first.''))
      else case sc_config sys of
        None \<Rightarrow> (m, Inl (ErrMsg ''WireGuard configuration is missing from the server.''))
      | Some cfg \<Rightarrow>
          if \<not> w_enabled cfg then (m, Inl (ErrMsg ''WireGuard is disabled.''))
          else
            (let server = (case loadServer d of Inl _ \<Rightarrow> None | Inr s \<Rightarrow> Some s);
                 (m1, live) = GetLiveStatus run configured m in
             (m1, Inr (cfg, server, live))))"

definition simple_space :: "char \<Rightarrow> bool" where
  "simple_space c \<longleftrightarrow> c = CHR '' '' \<or> c = chr_nl \<or> c = chr_tab \<or> c = CHR 0x0D"

definition stringsTrim :: "string \<Rightarrow> string" where
  "stringsTrim s = rev (dropWhile simple_space (rev (dropWhile simple_space s)))"

definition upsertServerFromConfig :: "(string \<Rightarrow> string option) \<Rightarrow> wgconf \<Rightarrow> string \<Rightarrow> db \<Rightarrow> db res" where
  "upsertServerFromConfig derive cfg key d =
     (if stringsTrim key = [] then
        Inr (d\<lparr>servers := upd_where (\<lambda>s. s_id s = ''wireguard'')
          (\<lambda>s. s\<lparr>s_host := w_server_host cfg, s_port := Some (w_server_port cfg)\<rparr>) (servers d)\<rparr>)
      else case derive key of
        None \<Rightarrow> Inl (ErrMsg ''invalid server private key'')
      | Some pub \<Rightarrow>
          Inr (d\<lparr>servers := upd_where (\<lambda>s. s_id s = ''wireguard'')
            (\<lambda>s. s\<lparr>s_host := w_server_host cfg, s_port := Some (w_server_port cfg), s_private_key := Some key, s_public_key := Some pub\<rparr>)
            (servers d)\<rparr>))"

record save_result =
  sr_type :: string
  sr_text :: string
  sr_wrote :: bool
  sr_applied :: bool

definition SaveWireGuardState ::
  "'m run \<Rightarrow> write_io \<Rightarrow> bool \<Rightarrow> string \<Rightarrow> (string \<Rightarrow> string option) \<Rightarrow> string \<Rightarrow> string \<Rightarrow> wgconf \<Rightarrow> string
   \<Rightarrow> db \<times> 'm world \<Rightarrow> (db \<times> 'm world) \<times> save_result res" where
  "SaveWireGuardState run io tmp_fails stamp derive dataDir iface cfg0 key st =
     (let (d, wd) = st; cfg = cfg0\<lparr>w_enabled := True\<rparr>; d1 = UpsertSystemConfig True cfg d in
      case upsertServerFromConfig derive cfg key d1 of
        Inl e \<Rightarrow> ((d1, wd), Inl e)
      | Inr d2 \<Rightarrow>
          (let (fs', writeErr) = WriteWireGuardConfig io stamp d2 dataDir (wd_fs wd);
               (wd', appliedErr) = ApplyConfig run tmp_fails dataDir iface (wd\<lparr>wd_fs := fs'\<rparr>);
               ok = (writeErr = None \<and> appliedErr = None) in
           ((d2, wd'), Inr
             \<lparr>sr_type = (if ok then ''success'' else ''error''),
              sr_text = (case writeErr of
                  Some e \<Rightarrow> ''Saved, but failed to write wg0.conf: '' @ errText e
                | None \<Rightarrow> (case appliedErr of
                    Some e \<Rightarrow> ''Saved, but failed to reload WireGuard: '' @ errText e
                  | None \<Rightarrow> ''Configuration saved successfully!'')),
              sr_wrote = (writeErr = None), sr_applied = (appliedErr = None)\<rparr>)))"

definition write_then ::
  "write_io \<Rightarrow> string \<Rightarrow> string \<Rightarrow> ('m world \<Rightarrow> 'm world \<times> goerr option) \<Rightarrow> string \<Rightarrow> db \<Rightarrow> 'm world \<Rightarrow> 'm world \<times> save_result res" where
  "write_then io stamp dataDir apply_it msg d wd =
     (case WriteWireGuardConfig io stamp d dataDir (wd_fs wd) of
        (fs', Some e) \<Rightarrow> (wd\<lparr>wd_fs := fs'\<rparr>, Inl e)
      | (fs', None) \<Rightarrow>
          (case apply_it (wd\<lparr>wd_fs := fs'\<rparr>) of
             (wd', Some e) \<Rightarrow> (wd', Inl e)
           | (wd', None) \<Rightarrow> (wd', Inr \<lparr>sr_type = ''success'', sr_text = msg, sr_wrote = True, sr_applied = True\<rparr>)))"

definition ReloadWireGuard ::
  "'m run \<Rightarrow> write_io \<Rightarrow> bool \<Rightarrow> string \<Rightarrow> string \<Rightarrow> string \<Rightarrow> db \<Rightarrow> 'm world \<Rightarrow> 'm world \<times> save_result res" where
  "ReloadWireGuard run io tmp_fails stamp dataDir iface =
     write_then io stamp dataDir (ApplyConfig run tmp_fails dataDir iface)
       ''WireGuard reloaded. Peer and key changes are now active.''"

definition RestartWireGuard ::
  "'m run \<Rightarrow> write_io \<Rightarrow> string \<Rightarrow> string \<Rightarrow> string \<Rightarrow> db \<Rightarrow> 'm world \<Rightarrow> 'm world \<times> save_result res" where
  "RestartWireGuard run io stamp dataDir iface =
     write_then io stamp dataDir (RestartConfig run dataDir iface)
       ''WireGuard restarted. All settings are now active.''"

section \<open>Client configurations\<close>

definition ensureAllowedContains :: "string \<Rightarrow> string \<Rightarrow> string" where
  "ensureAllowedContains allowed prefix0 =
     (let prefix = trim prefix0 in
      if prefix = [] then allowed
      else if prefix \<in> set (map trim (split_on (CHR '','') allowed)) then allowed
      else if trim allowed = [] then prefix
      else trim allowed @ '', '' @ prefix)"

definition resolverHostRoutePrefix :: "string \<Rightarrow> string \<Rightarrow> string" where
  "resolverHostRoutePrefix resolverHost serverHost =
     (case parseIP (trim resolverHost) of
        None \<Rightarrow> []
      | Some ip \<Rightarrow>
          (let prefix = (if to4 ip = None then ''/128'' else ''/32'') in
           if IsLinkLocalDNSHost resolverHost then show_ip ip @ prefix
           else if parseIP (trim serverHost) = Some ip then show_ip ip @ prefix
           else []))"

definition zero_conf :: wgconf where
  "zero_conf = \<lparr>w_enabled = False, w_server_host = [], w_server_port = 0, w_server_address = [], w_client_range = [],
     w_dns = [], w_mtu = 0, w_keepalive = 0, w_allowed_ips = [], w_pre_up = [], w_pre_down = [], w_post_up = [], w_post_down = []\<rparr>"

definition client_address :: "vpn_user \<Rightarrow> string res" where
  "client_address u =
     (case u_allowed_ips u of
        None \<Rightarrow> Inl (ErrMsg ''user has no address'')
      | Some a \<Rightarrow>
          (let addr = (case cutAt (CHR '','') (trim a) of Some (x, _) \<Rightarrow> trim x | None \<Rightarrow> trim a) in
           if trim a = [] \<or> addr = [] then Inl (ErrMsg ''user has no address'') else Inr addr))"

definition client_allowed :: "wgconf \<Rightarrow> string \<Rightarrow> string \<Rightarrow> string" where
  "client_allowed w dns serverDNSHost =
     (let allowed = (if trim (w_allowed_ips w) = [] then ''0.0.0.0/0, ::/0'' else trim (w_allowed_ips w));
          prefix = resolverHostRoutePrefix dns serverDNSHost in
      if prefix \<noteq> [] then ensureAllowedContains allowed prefix else allowed)"

definition client_text :: "string \<Rightarrow> string \<Rightarrow> string \<Rightarrow> wgconf \<Rightarrow> string \<Rightarrow> string option \<Rightarrow> string \<Rightarrow> int \<Rightarrow> string \<Rightarrow> string" where
  "client_text priv addr dns w serverPub psk serverHost serverPort allowed =
     unlines ([''[Interface]'', ''PrivateKey = '' @ priv, ''Address = '' @ addr]
       @ (if dns \<noteq> [] then [''DNS = '' @ dns] else [])
       @ (if w_mtu w > 0 then [''MTU = '' @ itoa (w_mtu w)] else [])
       @ [[], ''[Peer]'', ''PublicKey = '' @ serverPub]
       @ (case psk of None \<Rightarrow> [] | Some k \<Rightarrow> [''PresharedKey = '' @ k])
       @ [''Endpoint = '' @ serverHost @ '':'' @ itoa serverPort, ''AllowedIPs = '' @ allowed]
       @ (if w_keepalive w > 0 then [''PersistentKeepalive = '' @ itoa (w_keepalive w)] else [])
       @ [[]])"

definition RenderClientConfig :: "string \<Rightarrow> db \<Rightarrow> (string \<times> string) res" where
  "RenderClientConfig userID d =
     (case find_user userID d of
        None \<Rightarrow> Inl ErrNoRows
      | Some u \<Rightarrow>
          (case u_private_key u of
             None \<Rightarrow> Inl ErrNoClientPrivateKey
           | Some priv \<Rightarrow>
               if trim priv = [] then Inl ErrNoClientPrivateKey
               else bindR (client_address u) (\<lambda>addr.
                 (case find_server ''wireguard'' d of
                    None \<Rightarrow> Inl ErrNoRows
                  | Some s \<Rightarrow>
                      (case s_public_key s of
                         None \<Rightarrow> Inl (ErrNullScan ''public_key'')
                       | Some pub \<Rightarrow>
                           bindR (ClientDNS d) (\<lambda>dns.
                             (let w = (case sc_config (GetSystemConfig d) of None \<Rightarrow> zero_conf | Some w \<Rightarrow> w);
                                  serverHost = (case DNSServerHost d of Inl _ \<Rightarrow> [] | Inr h \<Rightarrow> h);
                                  psk = (case u_preshared_key u of None \<Rightarrow> None | Some k \<Rightarrow> if trim k = [] then None else Some (trim k)) in
                              Inr (client_text (trim priv) addr dns w (trim pub) psk (trim (s_host s))
                                     (case s_port s of None \<Rightarrow> 0 | Some p \<Rightarrow> p) (client_allowed w dns serverHost),
                                   u_username u @ ''.conf''))))))))"

section \<open>Routes to the resolver\<close>

definition allowed_parts :: "string \<Rightarrow> string list" where
  "allowed_parts a = map trim (split_on (CHR '','') a)"

lemma split_on_snoc: "c \<notin> set q \<Longrightarrow> split_on c (p @ c # q) = split_on c p @ [q]"
proof (induction p)
  case (Cons x p)
  then show ?case by (cases "split_on c p") auto
qed (simp add: split_on_id)

lemma resolver_prefix_text:
  assumes "resolverHostRoutePrefix r s = p" and "p \<noteq> []"
  shows "trim p = p" and "CHR '','' \<notin> set p"
proof -
  from assms obtain ip where p: "p = show_ip ip @ ''/128'' \<or> p = show_ip ip @ ''/32''"
    by (auto simp: resolverHostRoutePrefix_def Let_def split: option.splits if_splits)
  have "\<forall>c \<in> set p. plain c \<and> c \<noteq> CHR '',''"
    using p addr_char_simps(1,5) show_ip_chars by (auto simp: plain_def ascii_space_def) blast+
  then show "trim p = p" "CHR '','' \<notin> set p" by auto
qed

lemma trim_space_Cons [simp]: "trim (CHR '' '' # s) = trim s"
  by (rule trim_blank_Cons) (simp add: ascii_space_def)

lemma ensure_contains:
  assumes "trim p = p" and "CHR '','' \<notin> set p" and "p \<noteq> []" and "trim a = a" and "a \<noteq> []"
  shows "allowed_parts (ensureAllowedContains a p)
           = allowed_parts a @ (if p \<in> set (allowed_parts a) then [] else [p])"
  using assms by (auto simp: ensureAllowedContains_def Let_def allowed_parts_def split_on_snoc)

lemma ensure_present: "p \<in> set (allowed_parts a) \<Longrightarrow> trim p = p \<Longrightarrow> ensureAllowedContains a p = a"
  by (simp add: ensureAllowedContains_def Let_def allowed_parts_def)

definition base_allowed :: "wgconf \<Rightarrow> string" where
  "base_allowed w = (if trim (w_allowed_ips w) = [] then ''0.0.0.0/0, ::/0'' else trim (w_allowed_ips w))"

lemma any_trimmed: "trim ''0.0.0.0/0, ::/0'' = ''0.0.0.0/0, ::/0''"
proof -
  have "trimmed (CHR ''0'' # ''.0.0.0/0, ::/'' @ [CHR ''0''])"
    by (rule trimmed_plain_plain) (simp_all add: plain_def ascii_space_def)
  then show ?thesis by (simp add: trim_trimmed)
qed

lemma base_allowed_trimmed: "trim (base_allowed w) = base_allowed w" "base_allowed w \<noteq> []"
  by (simp_all add: base_allowed_def any_trimmed)

lemma client_allowed_base:
  "client_allowed w dns host =
     (let p = resolverHostRoutePrefix dns host in if p \<noteq> [] then ensureAllowedContains (base_allowed w) p else base_allowed w)"
  by (simp add: client_allowed_def base_allowed_def Let_def)

text \<open>The allowed addresses of a client configuration are the configured ones in their
  order, followed by the route to the resolver when the resolver is an address of the server or
  a link-local one and the route is not there already. The route is added once: adding it again
  changes nothing.\<close>

theorem client_routes_resolver:
  "(let p = resolverHostRoutePrefix dns host; a = client_allowed w dns host in
      allowed_parts a = allowed_parts (base_allowed w)
        @ (if p = [] \<or> p \<in> set (allowed_parts (base_allowed w)) then [] else [p])
    \<and> ensureAllowedContains a p = a)"
proof (cases "resolverHostRoutePrefix dns host = []")
  case True
  then show ?thesis by (simp add: client_allowed_base Let_def ensureAllowedContains_def)
next
  case False
  note p = resolver_prefix_text [OF refl False]
  from False have "allowed_parts (client_allowed w dns host) = allowed_parts (base_allowed w)
      @ (if resolverHostRoutePrefix dns host \<in> set (allowed_parts (base_allowed w)) then []
         else [resolverHostRoutePrefix dns host])"
    by (simp add: client_allowed_base Let_def ensure_contains [OF p False base_allowed_trimmed])
  then show ?thesis using False p(1) ensure_present by (auto simp: Let_def)
qed

section \<open>What saving leaves\<close>

lemma find_upd_server:
  "(\<And>s. s_id (f s) = s_id s) \<Longrightarrow>
   find (\<lambda>s. s_id s = i) (upd_where (\<lambda>s. s_id s = i) f rs) = map_option f (find (\<lambda>s. s_id s = i) rs)"
  by (induction rs) auto

lemma non_empty_simps [simp]: "non_empty None = None" "s \<noteq> [] \<Longrightarrow> non_empty (Some s) = Some s"
  by (simp_all add: non_empty_def)

lemma upsertServer_cases:
  assumes "upsertServerFromConfig derive cfg key d = Inr d'"
  shows "\<exists>f. d' = d\<lparr>servers := upd_where (\<lambda>s. s_id s = ''wireguard'') f (servers d)\<rparr>
    \<and> (\<forall>s. s_id (f s) = s_id s \<and> s_config_path (f s) = s_config_path s \<and> s_host (f s) = w_server_host cfg
         \<and> s_port (f s) = Some (w_server_port cfg)
         \<and> (if stringsTrim key = [] then s_private_key (f s) = s_private_key s \<and> s_public_key (f s) = s_public_key s
            else s_private_key (f s) = Some key \<and> s_public_key (f s) = derive key \<and> derive key \<noteq> None))"
  using assms
  by (cases "stringsTrim key = []"; cases "derive key") (auto simp: upsertServerFromConfig_def intro!: exI)

lemma SaveWireGuardState_db:
  assumes "SaveWireGuardState run io tf stamp derive dataDir iface cfg0 key (d, wd) = ((d', wd'), Inr x)"
  shows "upsertServerFromConfig derive (cfg0\<lparr>w_enabled := True\<rparr>) key (UpsertSystemConfig True (cfg0\<lparr>w_enabled := True\<rparr>) d) = Inr d'"
    and "sr_type x = ''success'' \<longleftrightarrow> sr_wrote x \<and> sr_applied x"
  using assms by (auto simp: SaveWireGuardState_def Let_def split: sum.splits prod.splits option.splits)

lemma SaveWireGuardState_failed:
  assumes "SaveWireGuardState run io tf stamp derive dataDir iface cfg0 key (d, wd) = ((d', wd'), Inl e)"
  shows "d' = UpsertSystemConfig True (cfg0\<lparr>w_enabled := True\<rparr>) d \<and> wd' = wd \<and> stringsTrim key \<noteq> [] \<and> derive key = None"
  using assms by (auto simp: SaveWireGuardState_def upsertServerFromConfig_def Let_def
    split: sum.splits prod.splits option.splits if_splits)

lemma loadServer_find:
  "find_server ''wireguard'' d = Some s \<Longrightarrow> s_config_path s = Some path \<Longrightarrow> \<exists>srv. loadServer d = Inr srv
     \<and> ws_host srv = s_host s \<and> ws_port srv = (case s_port s of None \<Rightarrow> 0 | Some p \<Rightarrow> p)
     \<and> ws_private_key srv = non_empty (s_private_key s) \<and> ws_public_key srv = non_empty (s_public_key s)"
  by (simp add: loadServer_def)

lemma LoadWireGuardState_ok:
  "sysconf d = Some \<lparr>sc_complete = True, sc_config = Some cfg\<rparr> \<Longrightarrow> w_enabled cfg \<Longrightarrow> loadServer d = Inr srv \<Longrightarrow>
   \<exists>live. snd (LoadWireGuardState run d conf m) = Inr (cfg, Some srv, live)"
  by (auto simp: LoadWireGuardState_def GetSystemConfig_def split: prod.split)

lemma upsert_keeps:
  assumes "d' = d\<lparr>servers := upd_where P f (servers d)\<rparr>" and "\<And>s. s_id (f s) = s_id s"
  shows "db_ok d' = db_ok d"
proof -
  have m: "map s_id (servers d') = map s_id (servers d)" using assms by (simp add: map_upd_where)
  then have "distinct_on s_id (servers d') = distinct_on s_id (servers d)" by (simp add: distinct_on_def)
  moreover have "s_id ` set (servers d') = s_id ` set (servers d)" by (metis m list.set_map)
  moreover have "users d' = users d" "groups d' = groups d" "members d' = members d" "pcqs d' = pcqs d"
    "admins d' = admins d" "dns_records d' = dns_records d" "dns_rules d' = dns_rules d"
    using assms(1) by simp_all
  ultimately show ?thesis by (simp only: db_defs)
qed

text \<open>C30. Settings that were saved are the settings that are loaded: after a save the stored
  configuration is the given one, enabled, the server has its host and port, and its keys are
  the given one with the derived public key, or the old ones when none was given; no user
  changes and no constraint breaks, and the result says success exactly when the file was written and
  applied. A save that fails on its key has stored the configuration all the same, while the server
  keeps its host, port and keys.\<close>

theorem save_then_load:
  assumes s: "find_server ''wireguard'' d = Some s" "s_config_path s = Some path"
    and save: "SaveWireGuardState run io tf stamp derive dataDir iface cfg0 key (d, wd) = ((d', wd'), r)"
  shows "\<exists>srv live. snd (LoadWireGuardState run2 d' conf m) = Inr (cfg0\<lparr>w_enabled := True\<rparr>, Some srv, live)
    \<and> users d' = users d \<and> db_ok d' = db_ok d
    \<and> (case r of
         Inl _ \<Rightarrow> stringsTrim key \<noteq> [] \<and> derive key = None \<and> wd' = wd \<and> loadServer d = Inr srv
       | Inr x \<Rightarrow> ws_host srv = w_server_host cfg0 \<and> ws_port srv = w_server_port cfg0
           \<and> (ws_private_key srv, ws_public_key srv)
               = (if stringsTrim key = [] then (non_empty (s_private_key s), non_empty (s_public_key s))
                  else (Some key, non_empty (derive key)))
           \<and> (sr_type x = ''success'' \<longleftrightarrow> sr_wrote x \<and> sr_applied x))"
proof (cases r)
  case (Inl e)
  note f = SaveWireGuardState_failed [OF save [unfolded Inl]]
  obtain srv where srv: "loadServer d = Inr srv" using loadServer_find [OF s] by blast
  with f have "loadServer d' = Inr srv" by (simp add: loadServer_def find_server_def UpsertSystemConfig_def)
  moreover have "sysconf d' = Some \<lparr>sc_complete = True, sc_config = Some (cfg0\<lparr>w_enabled := True\<rparr>)\<rparr>"
    using f by (simp add: UpsertSystemConfig_def)
  ultimately obtain live where "snd (LoadWireGuardState run2 d' conf m) = Inr (cfg0\<lparr>w_enabled := True\<rparr>, Some srv, live)"
    using LoadWireGuardState_ok [of d' "cfg0\<lparr>w_enabled := True\<rparr>" srv run2 conf m] by auto
  moreover have "users d' = users d \<and> db_ok d' = db_ok d" using f by (simp add: UpsertSystemConfig_def db_defs)
  ultimately show ?thesis using Inl f srv by auto
next
  case (Inr x)
  let ?c = "cfg0\<lparr>w_enabled := True\<rparr>" let ?d1 = "UpsertSystemConfig True (cfg0\<lparr>w_enabled := True\<rparr>) d"
  note f = SaveWireGuardState_db [OF save [unfolded Inr]]
  obtain f where d': "d' = ?d1\<lparr>servers := upd_where (\<lambda>s. s_id s = ''wireguard'') f (servers ?d1)\<rparr>"
    and fs: "\<And>s. s_id (f s) = s_id s \<and> s_config_path (f s) = s_config_path s \<and> s_host (f s) = w_server_host ?c
         \<and> s_port (f s) = Some (w_server_port ?c)
         \<and> (if stringsTrim key = [] then s_private_key (f s) = s_private_key s \<and> s_public_key (f s) = s_public_key s
            else s_private_key (f s) = Some key \<and> s_public_key (f s) = derive key \<and> derive key \<noteq> None)"
    using upsertServer_cases [OF f(1)] by blast
  have "find_server ''wireguard'' d' = Some (f s)"
    using s fs by (simp add: d' find_server_def find_upd_server UpsertSystemConfig_def)
  then obtain srv where srv: "loadServer d' = Inr srv" "ws_host srv = s_host (f s)" "ws_port srv = w_server_port cfg0"
      "ws_private_key srv = non_empty (s_private_key (f s))" "ws_public_key srv = non_empty (s_public_key (f s))"
    using loadServer_find [of d' "f s" path] s fs by auto
  have "sysconf d' = Some \<lparr>sc_complete = True, sc_config = Some ?c\<rparr>" by (simp add: d' UpsertSystemConfig_def)
  then obtain live where live: "snd (LoadWireGuardState run2 d' conf m) = Inr (?c, Some srv, live)"
    using LoadWireGuardState_ok [of d' ?c srv run2 conf m] srv(1) by auto
  have ok: "db_ok d' = db_ok d" "users d' = users d"
    using upsert_keeps [OF d'] fs by (simp_all add: d' UpsertSystemConfig_def db_defs)
  have key: "stringsTrim key \<noteq> [] \<Longrightarrow> non_empty (Some key) = Some key" by (cases "key = []") (auto simp: stringsTrim_def)
  have "(ws_private_key srv, ws_public_key srv)
      = (if stringsTrim key = [] then (non_empty (s_private_key s), non_empty (s_public_key s))
         else (Some key, non_empty (derive key)))"
    using srv(4,5) fs [of s] key by (simp split: if_splits)
  moreover have "ws_host srv = w_server_host cfg0" using srv(2) fs [of s] by simp
  ultimately show ?thesis using Inr f(2) srv(3) live ok by auto
qed

definition ex_saved :: db where
  "ex_saved = db_empty\<lparr>servers := [\<lparr>s_id = ''wireguard'', s_name = ''WireGuard Server'', s_protocol = ''wireguard'',
     s_host = ''old'', s_port = None, s_config_path = Some ''/data/wg0.conf'', s_is_active = True,
     s_private_key = Some ''priv'', s_public_key = Some ''pub''\<rparr>]\<rparr>"

lemma save_then_load_witness:
  "case SaveWireGuardState ex_run \<lparr>io_write_fails = None, io_rename_fails = False\<rparr> False ''now'' (\<lambda>_. None) ''/data'' ''wg0''
       (zero_conf\<lparr>w_server_host := ''vpn'', w_server_port := 51820\<rparr>) [] (ex_saved, ex_world) of
     ((d', wd'), r) \<Rightarrow> (\<exists>srv live. snd (LoadWireGuardState (\<lambda>_ m. (m, NotFound)) d' ''wg0'' ())
         = Inr (zero_conf\<lparr>w_server_host := ''vpn'', w_server_port := 51820, w_enabled := True\<rparr>, Some srv, live)
       \<and> isOk r \<and> ws_host srv = ''vpn'' \<and> ws_port srv = 51820 \<and> ws_private_key srv = Some ''priv'')"
proof -
  let ?s = "hd (servers ex_saved)" let ?w = "zero_conf\<lparr>w_server_host := ''vpn'', w_server_port := 51820\<rparr>"
  obtain d' wd' r where save: "SaveWireGuardState ex_run \<lparr>io_write_fails = None, io_rename_fails = False\<rparr> False ''now''
      (\<lambda>_. None) ''/data'' ''wg0'' ?w [] (ex_saved, ex_world) = ((d', wd'), r)" by (metis prod.collapse)
  have "find_server ''wireguard'' ex_saved = Some ?s" "s_config_path ?s = Some ''/data/wg0.conf''"
    by (simp_all add: ex_saved_def find_server_def)
  from save_then_load [OF this save, of "\<lambda>_ m. (m, NotFound)" "''wg0''" "()"]
  obtain srv live where l: "snd (LoadWireGuardState (\<lambda>_ m. (m, NotFound)) d' ''wg0'' ())
      = Inr (?w\<lparr>w_enabled := True\<rparr>, Some srv, live)"
    and r: "isOk r \<and> ws_host srv = ''vpn'' \<and> ws_port srv = 51820 \<and> ws_private_key srv = Some ''priv''"
    by (cases r) (auto simp: ex_saved_def stringsTrim_def non_empty_def)
  then show ?thesis using l r by (simp add: save)
qed

end
