(* ===== verification/App_Core.thy ===== *)
theory App_Core
  imports Pcq_Apply Wg_State
begin

text \<open>
  What the handlers of \<open>internal/app\<close> share: requests, responses, the state of the program and
  the two steps most handlers end with, \<open>applyWireGuardFromDB\<close> and \<open>reconcilePCQ\<close>. What pages show
  is in \<open>App_Pages\<close> and \<open>App_Group_Pages\<close>; a response keeps what the code decides, status,
  target, message and body, and leaves out headers and markup.
\<close>

section \<open>Requests and responses\<close>

text \<open>
  \<open>rq_form\<close> is None when \<open>ParseForm\<close> fails; \<open>FormValue\<close> is the first value of a field or the
  empty string. \<open>rq_id\<close> and \<open>rq_user\<close> are the parameters in the URL, \<open>rq_htmx\<close> tells whether
  the header \<open>HX-Request\<close> is true.
\<close>

record request =
  rq_form :: "(string \<times> string list) list option"
  rq_id :: string
  rq_user :: string
  rq_htmx :: bool

definition formValues :: "request \<Rightarrow> string \<Rightarrow> string list" where
  "formValues r k =
     (case rq_form r of None \<Rightarrow> [] | Some f \<Rightarrow> (case map_of f k of None \<Rightarrow> [] | Some vs \<Rightarrow> vs))"

definition formValue :: "request \<Rightarrow> string \<Rightarrow> string" where
  "formValue r k = (case formValues r k of [] \<Rightarrow> [] | v # _ \<Rightarrow> v)"

definition field :: "request \<Rightarrow> string \<Rightarrow> string" where
  "field r k = trim (formValue r k)"

record response =
  rs_code :: nat
  rs_location :: string
  rs_toast :: "(string \<times> string) option"
  rs_body :: string

definition httpError :: "nat \<Rightarrow> string \<Rightarrow> response" where
  "httpError code body = \<lparr>rs_code = code, rs_location = [], rs_toast = None, rs_body = body\<rparr>"

definition notFound :: response where
  "notFound = httpError 404 ''404 page not found''"

definition redirect :: "string \<Rightarrow> response" where
  "redirect path = \<lparr>rs_code = 302, rs_location = path, rs_toast = None, rs_body = []\<rparr>"

definition toasted :: "nat \<Rightarrow> string \<Rightarrow> string \<Rightarrow> string \<Rightarrow> response" where
  "toasted code kind msg body = \<lparr>rs_code = code, rs_location = [], rs_toast = Some (kind, msg), rs_body = body\<rparr>"

text \<open>\<open>url.QueryEscape\<close> writes a space as a plus sign, which the code turns into \<open>%20\<close>.\<close>

definition unreserved :: "char \<Rightarrow> bool" where
  "unreserved c \<longleftrightarrow> (let n = of_char c :: nat in
     (97 \<le> n \<and> n \<le> 122) \<or> (65 \<le> n \<and> n \<le> 90) \<or> (48 \<le> n \<and> n \<le> 57) \<or> c \<in> set ''-_.~'')"

definition hex_upper :: "nat \<Rightarrow> char" where
  "hex_upper n = ''0123456789ABCDEF'' ! (n mod 16)"

definition queryEscape :: "string \<Rightarrow> string" where
  "queryEscape s = concat (map (\<lambda>c.
     if unreserved c then [c] else if c = CHR '' '' then ''+''
     else [CHR ''%'', hex_upper (of_char c div 16), hex_upper (of_char c)]) s)"

definition urlQueryEscape :: "string \<Rightarrow> string" where
  "urlQueryEscape s = replace_chr (CHR ''+'') ''%20'' (queryEscape s)"

definition warn :: "string \<Rightarrow> string \<Rightarrow> response" where
  "warn path msg = redirect (path @ ''?msgType=warning&msg='' @ urlQueryEscape msg)"

section \<open>The program\<close>

text \<open>
  The state is the database, the files and the machine on which \<open>wg\<close>, \<open>wg-quick\<close> and \<open>tc\<close>
  run. What the environment decides during one request is a record of its own: the programs,
  failing file operations, the identifiers and the key pair drawn, and the derivation of a public
  key, which is a third party's.
\<close>

record 'm app =
  ap_db :: db
  ap_world :: "'m world"

record 'm app_env =
  ae_run :: "'m run"
  ae_exec :: "'m Pcq_Apply.exec"
  ae_io :: write_io
  ae_tmp_fails :: bool
  ae_stamp :: string
  ae_data :: string
  ae_iface :: string
  ae_pcq_disabled :: bool
  ae_ids :: "nat \<Rightarrow> string"
  ae_genkey :: "(string \<times> string) option"
  ae_derive :: "string \<Rightarrow> string option"

definition applyWireGuardFromDB :: "'m app_env \<Rightarrow> 'm app \<Rightarrow> 'm app \<times> goerr option" where
  "applyWireGuardFromDB env st =
     (let (wd', e) = SyncFromDB (ae_run env) (ae_io env) (ae_tmp_fails env) (ae_stamp env) (ap_db st)
        (ae_data env) (ae_iface env) (ap_world st) in
      (st\<lparr>ap_world := wd'\<rparr>, e))"

text \<open>An error of \<open>pcq.Apply\<close> is logged and dropped.\<close>

definition reconcilePCQ :: "'m app_env \<Rightarrow> 'm app \<Rightarrow> 'm app" where
  "reconcilePCQ env st =
     (if ae_pcq_disabled env then st
      else (let (m', _, _) = Apply (ae_exec env) (ap_db st) (ae_iface env) False (wd_machine (ap_world st)) in
        st\<lparr>ap_world := (ap_world st)\<lparr>wd_machine := m'\<rparr>\<rparr>))"

text \<open>
  How a change of a user ends: the file is written and applied, the queues follow unless that
  failed, and the answer says which.
\<close>

definition settle :: "'m app_env \<Rightarrow> (string \<Rightarrow> response) \<Rightarrow> response \<Rightarrow> 'm app \<Rightarrow> 'm app \<times> response" where
  "settle env bad good st =
     (case applyWireGuardFromDB env st of
        (st', Some e) \<Rightarrow> (st', bad (errText e))
      | (st', None) \<Rightarrow> (reconcilePCQ env st', good))"

definition DerivePublicKey :: "'m app_env \<Rightarrow> string \<Rightarrow> string option" where
  "DerivePublicKey env key = (if trim key = [] then None else ae_derive env (trim key))"

section \<open>Facts\<close>

lemma ap_db_wg [simp]: "ap_db (fst (applyWireGuardFromDB env st)) = ap_db st"
  by (simp add: applyWireGuardFromDB_def split: prod.split)

lemma ap_db_reconcile [simp]: "ap_db (reconcilePCQ env st) = ap_db st"
  by (simp add: reconcilePCQ_def Let_def split: prod.split)

lemma ap_db_settle [simp]: "ap_db (fst (settle env bad good st)) = ap_db st"
  using ap_db_wg [of env st] by (cases "applyWireGuardFromDB env st") (simp add: settle_def split: option.split)

text \<open>
  The interface carries the queueing disciplines, classes and filters of the plan for the limits in the database and no
  others, and what is in force, read command by command, holds each address to the limits stored for it and limits no other.
\<close>

definition queues_in_step :: "('m \<Rightarrow> argv list) \<Rightarrow> 'm app_env \<Rightarrow> 'm app \<Rightarrow> bool" where
  "queues_in_step installed env st \<longleftrightarrow>
     installed (wd_machine (ap_world st)) = peerShapeAppend (trim (ae_iface env)) (LoadPeerLimits (ap_db st))
     \<and> limits_hold (installed (wd_machine (ap_world st))) (LoadPeerLimits (ap_db st))"

text \<open>
  The run of \<open>pcq.Apply\<close> that ended here failed: its deletions left something on the interface, which its shell lines
  hide, or it reported an error, which \<open>reconcilePCQ\<close> drops, and installed what the plan has before the refused command.
\<close>

definition queues_failed :: "('m \<Rightarrow> argv list) \<Rightarrow> 'm app_env \<Rightarrow> 'm app \<Rightarrow> bool" where
  "queues_failed installed env st \<longleftrightarrow>
     (\<exists>m lines err. Apply (ae_exec env) (ap_db st) (ae_iface env) False m = (wd_machine (ap_world st), lines, err)
        \<and> (\<not> clears (ae_exec env) installed (trim (ae_iface env)) m
           \<or> err \<noteq> None \<and> (\<exists>p c r. peerShapeAppend (trim (ae_iface env)) (LoadPeerLimits (ap_db st)) = p @ c # r
                \<and> installed (wd_machine (ap_world st)) = p)))"

definition shaped_env :: "('m \<Rightarrow> argv list) \<Rightarrow> 'm app_env \<Rightarrow> bool" where
  "shaped_env installed env \<longleftrightarrow> tc_contract (ae_exec env) installed (trim (ae_iface env)) \<and> trim (ae_iface env) \<noteq> []
     \<and> \<not> ae_pcq_disabled env"

lemma reconcile_in_step:
  assumes "shaped_env installed env"
  shows "queues_in_step installed env (reconcilePCQ env st) \<or> queues_failed installed env (reconcilePCQ env st)"
proof -
  let ?m = "wd_machine (ap_world st)" and ?d = "ap_db st"
  obtain s' lines err where a: "Apply (ae_exec env) ?d (ae_iface env) False ?m = (s', lines, err)" by (metis prod_cases3)
  have i: "tc_contract (ae_exec env) installed (trim (ae_iface env))" "trim (ae_iface env) \<noteq> []" "\<not> ae_pcq_disabled env"
    using assms by (simp_all add: shaped_env_def)
  have m: "wd_machine (ap_world (reconcilePCQ env st)) = s'" using a i(3) by (simp add: reconcilePCQ_def)
  show ?thesis
  proof (cases "clears (ae_exec env) installed (trim (ae_iface env)) ?m")
    case True
    from Apply_leaves [OF i(1,2) this a]
    have q: "installs_upto (ae_exec env) installed (peerShapeAppend (trim (ae_iface env)) (LoadPeerLimits ?d)) s' err"
      by (simp add: wanted_def)
    show ?thesis
    proof (cases err)
      case None
      then show ?thesis using q plan_holds [OF i(2)] by (simp add: queues_in_step_def m installs_upto_def)
    next
      case (Some e)
      then obtain p c r where "peerShapeAppend (trim (ae_iface env)) (LoadPeerLimits ?d) = p @ c # r" "installed s' = p"
        using q by (auto simp: installs_upto_def)
      then have "queues_failed installed env (reconcilePCQ env st)"
        using a Some unfolding queues_failed_def m ap_db_reconcile by blast
      then show ?thesis ..
    qed
  next
    case False
    then show ?thesis using a m by (auto simp: queues_failed_def)
  qed
qed

text \<open>Whether the queues could be changed shows in no answer.\<close>

lemma settle_answer: "snd (settle (env\<lparr>ae_exec := x\<rparr>) bad good st) = snd (settle env bad good st)"
  by (simp add: settle_def applyWireGuardFromDB_def split: prod.split option.split)

text \<open>
  What the handlers rely on of the programs they run: they leave \<open>wg0.conf\<close> alone. Then the file
  holds the current database after a synchronisation without error.
\<close>

definition keeps_conf :: "'m app_env \<Rightarrow> bool" where
  "keeps_conf env \<longleftrightarrow> (\<forall>argv wd. wd_fs (fst (ae_run env argv wd)) (wg_conf_path (ae_data env)) = wd_fs wd (wg_conf_path (ae_data env)))"

definition conf_current :: "'m app_env \<Rightarrow> 'm app \<Rightarrow> bool" where
  "conf_current env st \<longleftrightarrow>
     map_option Inr (wd_fs (ap_world st) (wg_conf_path (ae_data env))) = Some (render_config (ap_db st) (ae_stamp env))"

lemma exec_keeps:
  assumes "\<forall>argv wd. wd_fs (fst (run argv wd)) p = wd_fs wd p"
  shows "wd_fs (fst (execStdoutTimeout run argv wd)) p = wd_fs wd p"
proof (cases "run argv wd")
  case (Pair wd' out)
  have "wd_fs wd' p = wd_fs wd p" using assms Pair by (metis fst_conv)
  then show ?thesis by (simp add: execStdoutTimeout_def Pair Let_def)
qed

lemma syncconf_keeps:
  assumes "\<forall>argv wd. wd_fs (fst (run argv wd)) p = wd_fs wd p"
  shows "wd_fs (fst (syncconf run tf iface p wd)) p = wd_fs wd p"
proof (cases "execStdoutTimeout run [''wg-quick'', ''strip'', p] wd")
  case (Pair wd1 r)
  have 1: "wd_fs wd1 p = wd_fs wd p" using exec_keeps [OF assms, of "[''wg-quick'', ''strip'', p]" wd] by (simp add: Pair)
  show ?thesis
  proof (cases r)
    case (Inl e)
    then show ?thesis using Pair 1 by (simp add: syncconf_def)
  next
    case (Inr raw)
    let ?t = "p @ ''.peers.tmp''"
    obtain wd2 r2 where 2: "execStdoutTimeout run [''wg'', ''syncconf'', iface, ?t]
        (wd1\<lparr>wd_fs := (wd_fs wd1)(?t \<mapsto> cleanWGQuickStripOutput raw)\<rparr>) = (wd2, r2)" by force
    have "wd_fs wd2 p = wd_fs wd1 p"
      using exec_keeps [OF assms, of "[''wg'', ''syncconf'', iface, ?t]" "wd1\<lparr>wd_fs := (wd_fs wd1)(?t \<mapsto> cleanWGQuickStripOutput raw)\<rparr>"]
      by (simp add: 2)
    then show ?thesis using Pair 1 2 Inr by (simp add: syncconf_def Let_def)
  qed
qed

lemma ApplyConfig_keeps:
  assumes "\<forall>argv wd. wd_fs (fst (run argv wd)) (wg_conf_path dir) = wd_fs wd (wg_conf_path dir)"
  shows "wd_fs (fst (ApplyConfig run tf dir iface wd)) (wg_conf_path dir) = wd_fs wd (wg_conf_path dir)"
proof (cases "activeInterface run (wg_conf_path dir) iface wd")
  case (Pair wd1 i)
  have "wd_fs wd1 (wg_conf_path dir) = wd_fs wd (wg_conf_path dir)"
    using Pair exec_keeps [OF assms, of "[''wg'', ''show'', ''interfaces'']" wd]
    by (auto simp: activeInterface_def Let_def split: prod.splits)
  then show ?thesis
    using Pair syncconf_keeps [OF assms, of tf i wd1] exec_keeps [OF assms, of "[''wg-quick'', ''up'', wg_conf_path dir]" wd1]
    by (simp add: ApplyConfig_def Let_def errOf_def)
qed

lemma conf_current_reconcile: "conf_current env (reconcilePCQ env st) \<longleftrightarrow> conf_current env st"
  by (simp add: conf_current_def reconcilePCQ_def Let_def split: prod.split)

lemma conf_current_apply:
  assumes "keeps_conf env" and "applyWireGuardFromDB env st = (st', None)"
  shows "conf_current env st'"
proof -
  let ?p = "wg_conf_path (ae_data env)"
  obtain fs' e where w: "WriteWireGuardConfig (ae_io env) (ae_stamp env) (ap_db st) (ae_data env) (wd_fs (ap_world st)) = (fs', e)"
    by force
  from assms(2) w have e: "e = None" and st': "st' = st\<lparr>ap_world := fst (ApplyConfig (ae_run env) (ae_tmp_fails env)
      (ae_data env) (ae_iface env) ((ap_world st)\<lparr>wd_fs := fs'\<rparr>))\<rparr>"
    by (auto simp: applyWireGuardFromDB_def SyncFromDB_def Let_def split: prod.splits option.splits)
  have "map_option Inr (fs' ?p) = Some (render_config (ap_db st) (ae_stamp env))"
    using w e by (auto simp: WriteWireGuardConfig_def Let_def split: sum.splits option.splits if_splits)
  then show ?thesis
    using ApplyConfig_keeps [of "ae_run env" "ae_data env"] assms(1) by (simp add: conf_current_def st' keeps_conf_def)
qed

lemma settle_reaches:
  assumes "shaped_env installed env" and "keeps_conf env" and "settle env bad good st = (st', rs)"
  shows "(\<exists>e. rs = bad e) \<or> rs = good \<and> (queues_in_step installed env st' \<or> queues_failed installed env st') \<and> conf_current env st'"
  using assms(3) conf_current_apply [OF assms(2)] reconcile_in_step [OF assms(1)]
  by (auto simp: settle_def conf_current_reconcile split: prod.splits option.splits)

end
