(* ===== verification/App_Users.thy ===== *)
theory App_Users
  imports App_Core
begin

text \<open>
  The handlers that change users (\<open>internal/app/handlers.go\<close>: create, update, delete, toggle)
  and the import of peers at set-up.
\<close>

section \<open>Creating a user\<close>

definition quota_field :: "request \<Rightarrow> int option" where
  "quota_field r =
     (case atoi (field r ''remaining_traffic_mb'') of
        None \<Rightarrow> None
      | Some n \<Rightarrow> if n \<ge> 0 then Some (i64 (n * 1024 * 1024)) else None)"

definition days_field :: "request \<Rightarrow> int option" where
  "days_field r =
     (case atoi (field r ''remaining_days'') of None \<Rightarrow> None | Some n \<Rightarrow> if n \<ge> 0 then Some n else None)"

definition create_address :: "request \<Rightarrow> db \<Rightarrow> string res" where
  "create_address r d =
     (if field r ''vpn_ip'' \<noteq> [] then Inr (field r ''vpn_ip'')
      else if field r ''allowed_ips'' \<noteq> [] then Inr (field r ''allowed_ips'')
      else NextClientAllowedIP d)"

definition create_keys :: "'m app_env \<Rightarrow> request \<Rightarrow> response + string \<times> string" where
  "create_keys env r =
     (let priv = field r ''private_key''; pub = field r ''public_key'' in
      if priv = [] then
        (case ae_genkey env of None \<Rightarrow> Inl (httpError 500 ''key generation failed'') | Some kp \<Rightarrow> Inr kp)
      else case DerivePublicKey env priv of
        None \<Rightarrow> Inl (httpError 400 ''invalid private key'')
      | Some derived \<Rightarrow>
          if pub = [] then Inr (priv, derived)
          else if pub \<noteq> derived then Inl (httpError 400 ''public key mismatch'')
          else Inr (priv, pub))"

definition created_row :: "request \<Rightarrow> string \<Rightarrow> string \<Rightarrow> string \<times> string \<Rightarrow> vpn_user" where
  "created_row r i ip kp =
     (let extra = field r ''allowed_ips_extra'' in
      (user_row i (field r ''username'') ''wireguard'')
        \<lparr>u_allowed_ips := Some (if extra \<noteq> [] then ip @ '', '' @ extra else ip),
         u_private_key := Some (fst kp), u_public_key := Some (snd kp),
         u_preshared_key := nullIfEmpty (field r ''preshared_key''),
         u_remaining_days := days_field r, u_remaining_traffic := quota_field r,
         u_is_enabled := (field r ''is_enabled'' \<noteq> [])\<rparr>)"

definition UserCreatePost :: "'m app_env \<Rightarrow> request \<Rightarrow> 'm app \<Rightarrow> 'm app \<times> response" where
  "UserCreatePost env r st =
     (if rq_form r = None then (st, httpError 400 ''bad form'')
      else if field r ''username'' = [] then (st, redirect ''/ui/users'')
      else case create_address r (ap_db st) of
        Inl _ \<Rightarrow> (st, httpError 500 ''ip allocation failed'')
      | Inr ip \<Rightarrow>
          (case create_keys env r of
             Inl rs \<Rightarrow> (st, rs)
           | Inr kp \<Rightarrow>
               (case insert_user (created_row r (ae_ids env 0) ip kp) (ap_db st) of
                  Inl _ \<Rightarrow> (st, httpError 500 ''create failed'')
                | Inr d' \<Rightarrow>
                    settle env (\<lambda>e. warn ''/ui/users'' (''User created but WireGuard reload failed: '' @ e))
                      (redirect ''/ui/users'') (st\<lparr>ap_db := d'\<rparr>))))"

section \<open>Updating, deleting and switching a user\<close>

definition first_address :: "string option \<Rightarrow> string" where
  "first_address a =
     (case a of
        None \<Rightarrow> []
      | Some x \<Rightarrow> (case cutAt (CHR '','') (trim x) of Some (y, _) \<Rightarrow> trim y | None \<Rightarrow> trim x))"

definition updated_addresses :: "request \<Rightarrow> vpn_user \<Rightarrow> string" where
  "updated_addresses r u =
     (let ip = trim (first_address (u_allowed_ips u)); extra = field r ''allowed_ips_extra'' in
      if ip \<noteq> [] \<and> extra \<noteq> [] then ip @ '', '' @ extra else if ip = [] then extra else ip)"

definition updated_row :: "request \<Rightarrow> string \<Rightarrow> (string \<times> string) option \<Rightarrow> vpn_user \<Rightarrow> vpn_user" where
  "updated_row r allowed keys u =
     u\<lparr>u_username := field r ''username'', u_allowed_ips := nullIfEmpty allowed,
       u_remaining_days := days_field r, u_remaining_traffic := quota_field r,
       u_is_enabled := (formValue r ''is_enabled'' = ''on''),
       u_private_key := (case keys of None \<Rightarrow> u_private_key u | Some kp \<Rightarrow> Some (fst kp)),
       u_public_key := (case keys of None \<Rightarrow> u_public_key u | Some kp \<Rightarrow> Some (snd kp)),
       u_preshared_key := (if field r ''preshared_key'' = [] then u_preshared_key u else Some (field r ''preshared_key''))\<rparr>"

definition update_keys :: "'m app_env \<Rightarrow> request \<Rightarrow> response + (string \<times> string) option" where
  "update_keys env r =
     (let priv = field r ''private_key''; pub = field r ''public_key'' in
      if priv = [] then Inr None
      else case DerivePublicKey env priv of
        None \<Rightarrow> Inl (toasted 400 ''danger'' ''Invalid private key.'' ''invalid private key'')
      | Some derived \<Rightarrow>
          if pub \<noteq> [] \<and> pub \<noteq> derived
          then Inl (toasted 400 ''danger'' ''Public key does not match this private key.'' ''public key mismatch'')
          else Inr (Some (priv, derived)))"

definition UserUpdatePost :: "'m app_env \<Rightarrow> request \<Rightarrow> 'm app \<Rightarrow> 'm app \<times> response" where
  "UserUpdatePost env r st =
     (if rq_id r = [] then (st, notFound)
      else if rq_form r = None then (st, toasted 400 ''danger'' ''Invalid form submission.'' ''bad form'')
      else if field r ''username'' = [] then (st, toasted 400 ''danger'' ''Username is required.'' ''username required'')
      else case find_user (rq_id r) (ap_db st) of
        None \<Rightarrow> (st, notFound)
      | Some u \<Rightarrow>
          (case update_keys env r of
             Inl rs \<Rightarrow> (st, rs)
           | Inr keys \<Rightarrow>
               (case update_user (rq_id r) (updated_row r (updated_addresses r u) keys) (ap_db st) of
                  Inl _ \<Rightarrow> (st, toasted 500 ''danger'' ''Failed to save changes.'' ''update failed'')
                | Inr d' \<Rightarrow>
                    settle env (\<lambda>e. toasted 200 ''warning'' (''Saved to database but WireGuard reload failed: '' @ e) [])
                      (toasted 200 ''success'' ''Changes saved.'' []) (st\<lparr>ap_db := d'\<rparr>))))"

definition UserDeletePost :: "'m app_env \<Rightarrow> request \<Rightarrow> 'm app \<Rightarrow> 'm app \<times> response" where
  "UserDeletePost env r st =
     (if rq_id r = [] then (st, notFound)
      else case find_user (rq_id r) (ap_db st) of
        None \<Rightarrow> (st, toasted 404 ''danger'' ''User not found.'' (rs_body notFound))
      | Some u \<Rightarrow>
          settle env (\<lambda>e. toasted 200 ''warning'' (''User deleted but WireGuard reload failed: '' @ e) [])
            (toasted 200 ''success''
              (if trim (u_username u) \<noteq> [] then ''User '' @ [CHR 0x22] @ u_username u @ [CHR 0x22] @ '' deleted.''
               else ''User deleted.'') [])
            (st\<lparr>ap_db := delete_user (rq_id r) (ap_db st)\<rparr>))"

definition UserTogglePost :: "'m app_env \<Rightarrow> request \<Rightarrow> 'm app \<Rightarrow> 'm app \<times> response" where
  "UserTogglePost env r st =
     (if rq_id r = [] then (st, redirect ''/ui/users'')
      else case update_user (rq_id r) (\<lambda>u. u\<lparr>u_is_enabled := \<not> u_is_enabled u\<rparr>) (ap_db st) of
        Inl _ \<Rightarrow> (st, httpError 500 ''update failed'')
      | Inr d' \<Rightarrow>
          settle env (\<lambda>e. warn ''/ui/users'' (''User updated but WireGuard reload failed: '' @ e))
            (redirect ''/ui/users'') (st\<lparr>ap_db := d'\<rparr>))"

section \<open>Importing peers\<close>

definition import_name :: "wgq_peer \<Rightarrow> string" where
  "import_name p =
     (if trim (qp_username p) \<noteq> [] then trim (qp_username p)
      else if FirstPeerVPNIP (trim (qp_allowed_ips p)) \<noteq> [] then FirstPeerVPNIP (trim (qp_allowed_ips p))
      else trim (qp_public_key p))"

definition imported_row :: "wgq_peer \<Rightarrow> vpn_user \<Rightarrow> vpn_user" where
  "imported_row p u =
     u\<lparr>u_allowed_ips := Some (trim (qp_allowed_ips p)), u_endpoint := nullIfEmpty (qp_endpoint p),
       u_public_key := Some (trim (qp_public_key p)), u_preshared_key := nullIfEmpty (qp_preshared_key p),
       u_server_id := ''wireguard'', u_is_enabled := True\<rparr>"

definition import_peer :: "string \<Rightarrow> wgq_peer \<Rightarrow> db \<Rightarrow> db res" where
  "import_peer i p d =
     (let name = import_name p in
      if trim (qp_public_key p) = [] \<or> trim (qp_allowed_ips p) = [] then Inr d
      else if i \<in> u_id ` set (users d) then Inl (ErrConstraint ''vpn_users.id'')
      else if ''wireguard'' \<notin> s_id ` set (servers d) then Inl (ErrConstraint ''FOREIGN KEY'')
      else if name \<in> u_username ` set (users d) then
        Inr (d\<lparr>users := upd_where (\<lambda>u. u_username u = name) (imported_row p) (users d)\<rparr>)
      else Inr (d\<lparr>users := users d @ [imported_row p (user_row i name ''wireguard'')]\<rparr>))"

fun importPeersAsUsers :: "(nat \<Rightarrow> string) \<Rightarrow> wgq_peer list \<Rightarrow> db \<Rightarrow> db \<times> goerr option" where
  "importPeersAsUsers ids [] d = (d, None)"
| "importPeersAsUsers ids (p # ps) d =
     (case import_peer (ids 0) p d of
        Inl e \<Rightarrow> (d, Some e)
      | Inr d' \<Rightarrow> importPeersAsUsers (ids \<circ> Suc) ps d')"

section \<open>The range of clients\<close>

definition show_net :: "ipnet \<Rightarrow> string" where
  "show_net n =
     (case base4 n of
        Some b \<Rightarrow> show_v4 b @ ''/'' @ nat_str (ones4 n)
      | None \<Rightarrow> (case n of Net4 b k \<Rightarrow> show_v4 b @ ''/'' @ nat_str k | Net16 b k \<Rightarrow> show_ip b @ ''/'' @ nat_str k))"

definition with_mask :: "string \<Rightarrow> string" where
  "with_mask addr =
     (if CHR ''/'' \<in> set addr then addr
      else if parseIP addr \<noteq> None \<and> length (filter ((=) chr_dot) addr) = 3 then addr @ ''/24''
      else if parseIP addr \<noteq> None \<and> CHR '':'' \<in> set addr then addr @ ''/64''
      else addr)"

definition deriveClientRange :: "string \<Rightarrow> string" where
  "deriveClientRange address =
     (let a = (case cutAt (CHR '','') (trim address) of Some (x, _) \<Rightarrow> trim x | None \<Rightarrow> trim address) in
      if a = [] then []
      else case parseCIDR (with_mask a) of None \<Rightarrow> [] | Some (_, n) \<Rightarrow> show_net n)"

definition firstNonEmpty :: "string \<Rightarrow> string \<Rightarrow> string" where
  "firstNonEmpty primary fallback = (if trim primary \<noteq> [] then primary else fallback)"

definition mustAtoi :: "string \<Rightarrow> int \<Rightarrow> int" where
  "mustAtoi s fallback =
     (case atoi (trim s) of None \<Rightarrow> fallback | Some n \<Rightarrow> if n \<le> 0 then fallback else n)"

section \<open>Quotas\<close>

text \<open>A quota given in megabytes is stored as that many bytes exactly when it is less than
  \<open>2 ^ 43\<close>; the product wraps around from there on, and \<open>2 ^ 44\<close> megabytes are stored as a quota of
  zero bytes, with which the next synchronisation disables the user.\<close>

theorem quota_field_exact:
  assumes "field r ''remaining_traffic_mb'' = itoa n" and "0 \<le> n" and "int64_ok n"
  shows "(quota_field r = Some (n * 2 ^ 20) \<longleftrightarrow> n < 2 ^ 43) \<and> (n = 2 ^ 44 \<longrightarrow> quota_field r = Some 0)"
proof -
  have q: "quota_field r = Some (i64 (n * 1024 * 1024))" using assms by (simp add: quota_field_def atoi_itoa)
  have "n < 2 ^ 43 \<longleftrightarrow> int64_ok (n * 1024 * 1024)" using assms(2) by (simp add: int64_ok_def)
  also have "\<dots> \<longleftrightarrow> i64 (n * 1024 * 1024) = n * 1024 * 1024" by (metis i64_id i64_range)
  finally show ?thesis using q by (auto simp: i64_def)
qed

section \<open>The created user\<close>

lemma UserCreatePost_db:
  "ap_db (fst (UserCreatePost env r st)) =
     (if rq_form r = None \<or> field r ''username'' = [] then ap_db st
      else case create_address r (ap_db st) of Inl _ \<Rightarrow> ap_db st
      | Inr ip \<Rightarrow> (case create_keys env r of Inl _ \<Rightarrow> ap_db st
          | Inr kp \<Rightarrow> (case insert_user (created_row r (ae_ids env 0) ip kp) (ap_db st) of Inl _ \<Rightarrow> ap_db st | Inr d' \<Rightarrow> d')))"
  by (simp add: UserCreatePost_def split: sum.split prod.split)

lemma UserUpdatePost_db:
  "ap_db (fst (UserUpdatePost env r st)) =
     (if rq_id r = [] \<or> rq_form r = None \<or> field r ''username'' = [] then ap_db st
      else case find_user (rq_id r) (ap_db st) of None \<Rightarrow> ap_db st
      | Some u \<Rightarrow> (case update_keys env r of Inl _ \<Rightarrow> ap_db st
          | Inr keys \<Rightarrow> (case update_user (rq_id r) (updated_row r (updated_addresses r u) keys) (ap_db st) of
              Inl _ \<Rightarrow> ap_db st | Inr d' \<Rightarrow> d')))"
  by (simp add: UserUpdatePost_def split: sum.split option.split)

lemma UserDeletePost_db:
  "ap_db (fst (UserDeletePost env r st)) =
     (if rq_id r = [] \<or> find_user (rq_id r) (ap_db st) = None then ap_db st else delete_user (rq_id r) (ap_db st))"
  by (simp add: UserDeletePost_def split: option.split)

lemma UserTogglePost_db:
  "ap_db (fst (UserTogglePost env r st)) =
     (if rq_id r = [] then ap_db st
      else case update_user (rq_id r) (\<lambda>u. u\<lparr>u_is_enabled := \<not> u_is_enabled u\<rparr>) (ap_db st) of
        Inl _ \<Rightarrow> ap_db st | Inr d' \<Rightarrow> d')"
  by (simp add: UserTogglePost_def split: sum.split)

text \<open>The first address of a created user is the one that was given or allocated.\<close>

lemma created_address:
  assumes "field r ''vpn_ip'' = []" and "field r ''allowed_ips'' = []" and "create_address r d = Inr s"
    and "sc_config (GetSystemConfig d) = Some w" and "parseCIDR (trim (w_client_range w)) = Some (ip, net)"
  shows "\<exists>a. Option.bind (u_allowed_ips (created_row r i s kp)) firstIPv4InAllowedIPs = Some a \<and> free_host d w net a"
proof -
  have "NextClientAllowedIP d = Inr s" using assms(1-3) by (simp add: create_address_def)
  then obtain a where "s = show_v4 a @ ''/32''" "free_host d w net a"
    using NextClientAllowedIP_least [OF assms(4,5)] by blast
  then show ?thesis using first_ipv4_show [of a] first_ipv4_show_extra [of a]
    by (auto simp: created_row_def Let_def)
qed

text \<open>A request that creates a user adds exactly one row and touches nothing else: it is a
  user of the WireGuard server with the given name, which no user had, and the keys belong
  together. When no address was given, its first address is a host of the client range that
  neither the server nor another client has.\<close>

theorem created_user:
  assumes "ap_db (fst (UserCreatePost env r st)) \<noteq> ap_db st"
    and "\<And>k p. ae_genkey env = Some (k, p) \<Longrightarrow> DerivePublicKey env k = Some p"
  shows "\<exists>u k. ap_db (fst (UserCreatePost env r st)) = (ap_db st)\<lparr>users := users (ap_db st) @ [u]\<rparr>
    \<and> u_username u = field r ''username'' \<and> u_username u \<notin> u_username ` set (users (ap_db st))
    \<and> u_server_id u = ''wireguard'' \<and> u_private_key u = Some k \<and> u_public_key u = DerivePublicKey env k
    \<and> (field r ''vpn_ip'' = [] \<and> field r ''allowed_ips'' = [] \<longrightarrow>
        (\<forall>w ip net. sc_config (GetSystemConfig (ap_db st)) = Some w \<and> parseCIDR (trim (w_client_range w)) = Some (ip, net)
          \<longrightarrow> (\<exists>a. Option.bind (u_allowed_ips u) firstIPv4InAllowedIPs = Some a \<and> free_host (ap_db st) w net a)))"
proof -
  obtain ip k p d' where c: "create_address r (ap_db st) = Inr ip" "create_keys env r = Inr (k, p)"
      "insert_user (created_row r (ae_ids env 0) ip (k, p)) (ap_db st) = Inr d'"
      "ap_db (fst (UserCreatePost env r st)) = d'"
    using assms(1) by (auto simp: UserCreatePost_db split: if_splits sum.splits)
  let ?u = "created_row r (ae_ids env 0) ip (k, p)"
  have "d' = (ap_db st)\<lparr>users := users (ap_db st) @ [?u]\<rparr>" "u_username ?u \<notin> u_username ` set (users (ap_db st))"
    using c(3) by (auto simp: insert_user_def split: if_splits)
  moreover have "DerivePublicKey env k = Some p"
    using c(2) assms(2) by (auto simp: create_keys_def Let_def split: if_splits option.splits)
  moreover have "u_username ?u = field r ''username''" "u_server_id ?u = ''wireguard''"
      "u_private_key ?u = Some k" "u_public_key ?u = Some p"
    by (simp_all add: created_row_def Let_def user_row_def)
  moreover have "field r ''vpn_ip'' = [] \<and> field r ''allowed_ips'' = [] \<longrightarrow>
      (\<forall>w ip net. sc_config (GetSystemConfig (ap_db st)) = Some w \<and> parseCIDR (trim (w_client_range w)) = Some (ip, net)
        \<longrightarrow> (\<exists>a. Option.bind (u_allowed_ips ?u) firstIPv4InAllowedIPs = Some a \<and> free_host (ap_db st) w net a))"
    using created_address [OF _ _ c(1)] by blast
  ultimately show ?thesis using c(4) by (intro exI [of _ ?u] exI [of _ k]) simp
qed

section \<open>Keys belong together\<close>

definition paired :: "(string \<Rightarrow> string option) \<Rightarrow> vpn_user \<Rightarrow> bool" where
  "paired derive u \<longleftrightarrow> (case u_private_key u of None \<Rightarrow> True | Some k \<Rightarrow> u_public_key u = (if trim k = [] then None else derive (trim k)))"

definition key_env :: "(string \<Rightarrow> string option) \<Rightarrow> 'm app_env \<Rightarrow> bool" where
  "key_env derive env \<longleftrightarrow> ae_derive env = derive
     \<and> (\<forall>k p. ae_genkey env = Some (k, p) \<longrightarrow> DerivePublicKey env k = Some p)"

inductive user_step :: "(string \<Rightarrow> string option) \<Rightarrow> 'm app \<Rightarrow> 'm app \<Rightarrow> bool" for derive where
  create: "key_env derive env \<Longrightarrow> user_step derive st (fst (UserCreatePost env r st))"
| update: "key_env derive env \<Longrightarrow> user_step derive st (fst (UserUpdatePost env r st))"
| delete: "key_env derive env \<Longrightarrow> user_step derive st (fst (UserDeletePost env r st))"
| toggle: "key_env derive env \<Longrightarrow> user_step derive st (fst (UserTogglePost env r st))"

lemma paired_derive: "key_env derive env \<Longrightarrow> u_private_key u = Some k \<Longrightarrow> paired derive u \<longleftrightarrow> u_public_key u = DerivePublicKey env k"
  by (simp add: paired_def DerivePublicKey_def key_env_def)

lemma paired_cong:
  "u_private_key v = u_private_key u \<Longrightarrow> u_public_key v = u_public_key u \<Longrightarrow> paired derive v \<longleftrightarrow> paired derive u"
  by (simp add: paired_def split: option.split)

lemma paired_enabled [simp]: "paired derive (u\<lparr>u_is_enabled := b\<rparr>) \<longleftrightarrow> paired derive u"
  by (rule paired_cong) simp_all

lemma created_paired:
  assumes "key_env derive env" and "create_keys env r = Inr kp"
  shows "paired derive (created_row r i ip kp)"
proof -
  have "DerivePublicKey env (fst kp) = Some (snd kp)"
    using assms by (cases kp) (auto simp: create_keys_def key_env_def Let_def split: if_splits option.splits)
  moreover have "u_private_key (created_row r i ip kp) = Some (fst kp)" "u_public_key (created_row r i ip kp) = Some (snd kp)"
    by (simp_all add: created_row_def Let_def)
  ultimately show ?thesis using paired_derive [OF assms(1)] by simp
qed

lemma updated_paired:
  assumes "key_env derive env" and "update_keys env r = Inr keys" and "paired derive u"
  shows "paired derive (updated_row r allowed keys u)"
proof (cases keys)
  case None
  then have "u_private_key (updated_row r allowed keys u) = u_private_key u" "u_public_key (updated_row r allowed keys u) = u_public_key u"
    by (simp_all add: updated_row_def)
  then show ?thesis using assms(3) paired_cong by blast
next
  case (Some kp)
  then have "DerivePublicKey env (fst kp) = Some (snd kp)"
    using assms(2) by (auto simp: update_keys_def Let_def split: if_splits option.splits)
  moreover have "u_private_key (updated_row r allowed keys u) = Some (fst kp)" "u_public_key (updated_row r allowed keys u) = Some (snd kp)"
    by (simp_all add: updated_row_def Some)
  ultimately show ?thesis using paired_derive [OF assms(1)] by simp
qed

lemma user_step_paired:
  assumes "user_step derive st st'" and "\<forall>u \<in> set (users (ap_db st)). paired derive u"
  shows "\<forall>u \<in> set (users (ap_db st')). paired derive u"
  using assms
proof cases
  case (create env r)
  then show ?thesis using assms(2) created_paired [OF create(2)]
    by (auto simp: UserCreatePost_db insert_user_def split: sum.splits if_splits)
next
  case (update env r)
  then show ?thesis using assms(2) updated_paired [OF update(2)]
    by (auto simp: UserUpdatePost_db update_user_def Let_def set_upd_where split: sum.splits option.splits if_splits)
next
  case (delete env r)
  then show ?thesis using assms(2) by (auto simp: UserDeletePost_db delete_user_def)
next
  case (toggle env r)
  then show ?thesis using assms(2)
    by (auto simp: UserTogglePost_db update_user_def Let_def set_upd_where split: sum.splits if_splits)
qed

interpretation user_reqs: kept_by_steps "user_step derive" "\<lambda>st. \<forall>u \<in> set (users (ap_db st)). paired derive u" for derive
  by unfold_locales (rule user_step_paired)

text \<open>C20. The keys of every user belong together, whatever requests arrive in whatever order: after any
  sequence of creating, updating, deleting and switching users, each with its own files,
  programs and random values, every stored private key has its own public key beside it, when
  that was so at the start and the key generator keeps its contract.\<close>

theorem keys_stay_paired:
  assumes "(user_step derive)\<^sup>*\<^sup>* st st'" and "\<forall>u \<in> set (users (ap_db st)). paired derive u"
  shows "\<forall>u \<in> set (users (ap_db st')). paired derive u"
  using assms by (rule user_reqs.steps_keep)

section \<open>Changes reach the machine\<close>

definition warned :: "response \<Rightarrow> bool" where
  "warned rs \<longleftrightarrow> (\<exists>m. rs_toast rs = Some (''warning'', m)) \<or> has_prefix (rs_location rs) ''/ui/users?msgType=warning&msg=''"

lemma warned_simps [simp]: "warned (warn ''/ui/users'' m)" "warned (toasted c ''warning'' m b)"
proof -
  have "''/ui/users?msgType=warning&msg='' @ urlQueryEscape m = ''/ui/users'' @ ''?msgType=warning&msg='' @ urlQueryEscape m" by simp
  then show "warned (warn ''/ui/users'' m)" unfolding warned_def warn_def redirect_def
    by (metis has_prefix_append response.select_convs(2))
qed (simp add: warned_def toasted_def)

lemma settled:
  assumes "f \<in> {UserCreatePost, UserUpdatePost, UserDeletePost, UserTogglePost}" and "f env r st = (st', rs)"
  shows "st' = st \<or> (\<exists>bad good st0. settle env bad good st0 = (st', rs) \<and> (\<forall>e. warned (bad e)))"
proof -
  have "f = UserCreatePost \<or> f = UserUpdatePost \<or> f = UserDeletePost \<or> f = UserTogglePost" using assms(1) by blast
  then consider "UserCreatePost env r st = (st', rs)" | "UserUpdatePost env r st = (st', rs)"
    | "UserDeletePost env r st = (st', rs)" | "UserTogglePost env r st = (st', rs)" using assms(2) by blast
  then show ?thesis
  proof cases
    case 1
    then show ?thesis unfolding UserCreatePost_def
      by (auto split: if_split_asm sum.split_asm intro!: exI)
  next
    case 2
    then show ?thesis unfolding UserUpdatePost_def
      by (auto split: if_split_asm sum.split_asm option.split_asm intro!: exI)
  next
    case 3
    then show ?thesis unfolding UserDeletePost_def
      by (auto split: if_split_asm option.split_asm intro!: exI)
  next
    case 4
    then show ?thesis unfolding UserTogglePost_def
      by (auto split: if_split_asm sum.split_asm intro!: exI)
  qed
qed

lemma create_env [simp]:
  "DerivePublicKey (env\<lparr>ae_exec := x\<rparr>) k = DerivePublicKey env k"
  "create_keys (env\<lparr>ae_exec := x\<rparr>) r = create_keys env r" "update_keys (env\<lparr>ae_exec := x\<rparr>) r = update_keys env r"
  by (simp_all add: create_keys_def update_keys_def DerivePublicKey_def cong: if_cong)

lemma user_answer:
  assumes "f \<in> {UserCreatePost, UserUpdatePost, UserDeletePost, UserTogglePost}"
  shows "snd (f (env\<lparr>ae_exec := x\<rparr>) r st) = snd (f env r st)"
proof -
  have "snd (UserCreatePost (env\<lparr>ae_exec := x\<rparr>) r st) = snd (UserCreatePost env r st)"
    by (auto simp: UserCreatePost_def settle_answer Let_def split: sum.split)
  moreover have "snd (UserUpdatePost (env\<lparr>ae_exec := x\<rparr>) r st) = snd (UserUpdatePost env r st)"
    by (auto simp: UserUpdatePost_def settle_answer Let_def split: sum.split option.split)
  moreover have "snd (UserDeletePost (env\<lparr>ae_exec := x\<rparr>) r st) = snd (UserDeletePost env r st)"
    by (auto simp: UserDeletePost_def settle_answer Let_def split: option.split)
  moreover have "snd (UserTogglePost (env\<lparr>ae_exec := x\<rparr>) r st) = snd (UserTogglePost env r st)"
    by (auto simp: UserTogglePost_def settle_answer Let_def split: sum.split)
  ultimately show ?thesis using assms by blast
qed


section \<open>The range of an imported server\<close>

lemma show_v4_dots: "length (filter ((=) chr_dot) (show_v4 a)) = 3"
proof -
  have "filter ((=) chr_dot) (nat_str n) = []" for n
    using nat_str_is_digit dot_not_digit(1) by (auto simp: filter_empty_conv)
  then show ?thesis by (simp add: show_v4_def)
qed

lemma derive_masked:
  assumes "n \<le> 32"
  shows "deriveClientRange (show_v4 a @ ''/'' @ nat_str n) = show_v4 (mask4 n a) @ ''/'' @ nat_str n"
proof -
  have "trim (show_v4 a @ ''/'' @ nat_str n) = show_v4 a @ ''/'' @ nat_str n"
    using v4.trim_show_suffix [of "nat_str n" a] nat_str_plain by simp
  moreover have "cutAt (CHR '','') (show_v4 a @ ''/'' @ nat_str n) = None"
    using nat_str_is_digit dot_not_digit(3) by (intro cutAt_None) (auto simp: show_v4_no)
  ultimately show ?thesis
    using parseCIDR_show_v4 [OF assms, of a] by (simp add: deriveClientRange_def with_mask_def show_net_def base4_def ones4_def)
qed

text \<open>The client range derived from an imported server address is the address's own network:
  a dotted address with a prefix length gives the masked address with that length, one without
  gives its \<open>/24\<close>; the range parses to a network that holds the server's address, and deriving
  the range of the range changes nothing.\<close>

theorem deriveClientRange_network:
  assumes "n \<le> 32"
  shows "deriveClientRange (show_v4 a @ ''/'' @ nat_str n) = show_v4 (mask4 n a) @ ''/'' @ nat_str n
    \<and> deriveClientRange (show_v4 a) = show_v4 (mask4 24 a) @ ''/24''
    \<and> (\<exists>ip net. parseCIDR (deriveClientRange (show_v4 a @ ''/'' @ nat_str n)) = Some (ip, net) \<and> net_contains4 net a)
    \<and> deriveClientRange (deriveClientRange (show_v4 a @ ''/'' @ nat_str n)) = deriveClientRange (show_v4 a @ ''/'' @ nat_str n)"
proof -
  have 24: "nat_str 24 = ''24''" by (simp add: nat_base.simps digit_def)
  have "deriveClientRange (show_v4 a) = show_v4 (mask4 24 a) @ ''/24''"
  proof -
    have "trim (show_v4 a) = show_v4 a" "cutAt (CHR '','') (show_v4 a) = None" "CHR ''/'' \<notin> set (show_v4 a)"
      using v4.trim_show by (simp_all add: show_v4_no dot_not_digit cutAt_eq_None)
    then show ?thesis using parseCIDR_show_v4 [of 24 a]
      by (simp add: deriveClientRange_def with_mask_def show_v4_dots 24 show_net_def base4_def ones4_def)
  qed
  moreover have "net_contains4 (Net4 (mask4 n a) n) a" using assms by (simp add: net_contains4_def)
  ultimately show ?thesis using derive_masked [OF assms, of a] derive_masked [OF assms, of "mask4 n a"]
    parseCIDR_show_v4 [OF assms, of "mask4 n a"] assms by simp
qed

section \<open>Witnesses\<close>

definition ex_quiet_run :: "argv list run" where
  "ex_quiet_run argv wd =
     (wd, \<lparr>o_ok = True, o_stdout = (if argv = [''wg'', ''show'', ''interfaces''] then ''wg0'' else ''[Interface]''),
       o_stderr = [], o_err = [], o_timeout = False\<rparr>)"

definition ex_app_env :: "argv list app_env" where
  "ex_app_env = \<lparr>ae_run = ex_quiet_run, ae_exec = ex_exec, ae_io = \<lparr>io_write_fails = None, io_rename_fails = False\<rparr>,
     ae_tmp_fails = False, ae_stamp = ''now'', ae_data = ''/data'', ae_iface = ''wg0'', ae_pcq_disabled = False,
     ae_ids = (\<lambda>_. ''new''), ae_genkey = Some (''K'', ''P''), ae_derive = (\<lambda>k. if k = ''K'' then Some ''P'' else None)\<rparr>"

definition ex_app :: "argv list app" where
  "ex_app = \<lparr>ap_db = ex_db, ap_world = \<lparr>wd_fs = Map.empty, wd_machine = [ingress_cmd ''wg0'']\<rparr>\<rparr>"

definition ex_request :: request where
  "ex_request = \<lparr>rq_form = Some [(''username'', [''bob'']), (''remaining_traffic_mb'', [''17592186044416''])],
     rq_id = ''u1'', rq_user = [], rq_htmx = False\<rparr>"

lemma ex_fields:
  "field ex_request ''username'' = ''bob''" "field ex_request ''vpn_ip'' = []" "field ex_request ''allowed_ips'' = []"
  "field ex_request ''private_key'' = []" "field ex_request ''remaining_traffic_mb'' = ''17592186044416''"
proof -
  have "trim ''bob'' = ''bob''" "trim ''17592186044416'' = ''17592186044416''"
    by (rule trim_plain, simp add: plain_def ascii_space_def)+
  then show "field ex_request ''username'' = ''bob''" "field ex_request ''vpn_ip'' = []" "field ex_request ''allowed_ips'' = []"
    "field ex_request ''private_key'' = []" "field ex_request ''remaining_traffic_mb'' = ''17592186044416''"
    by (simp_all add: field_def formValue_def formValues_def ex_request_def)
qed

lemma ex_keys: "key_env (ae_derive ex_app_env) ex_app_env"
proof -
  have "trim ''K'' = ''K''" by (rule trim_plain) (simp add: plain_def ascii_space_def)
  then show ?thesis by (simp add: key_env_def ex_app_env_def DerivePublicKey_def)
qed

lemma quota_field_exact_witness: "quota_field ex_request = Some 0"
proof -
  have "itoa (2 ^ 44) = ''17592186044416''" by (simp add: itoa_def nat_base.simps digit_def)
  then show ?thesis using quota_field_exact [of ex_request "2 ^ 44"] ex_fields(5) by (simp add: int64_ok_def)
qed

lemma ex_created: "ap_db (fst (UserCreatePost ex_app_env ex_request ex_app)) \<noteq> ap_db ex_app"
proof -
  have a: "create_address ex_request ex_db = Inr ''10.8.0.3/32''" by (simp add: create_address_def ex_fields ex_next)
  have k: "create_keys ex_app_env ex_request = Inr (''K'', ''P'')" by (simp add: create_keys_def ex_fields ex_app_env_def)
  let ?u = "created_row ex_request ''new'' ''10.8.0.3/32'' (''K'', ''P'')"
  have "u_id ?u = ''new''" "u_username ?u = ''bob''" "u_server_id ?u = ''wireguard''"
    by (simp_all add: created_row_def user_row_def ex_fields Let_def)
  then have "insert_user ?u ex_db = Inr (ex_db\<lparr>users := users ex_db @ [?u]\<rparr>)"
    by (simp add: insert_user_def ex_db_def ex_user_def user_row_def ex_server_def)
  then have "ap_db (fst (UserCreatePost ex_app_env ex_request ex_app)) = ex_db\<lparr>users := users ex_db @ [?u]\<rparr>"
    using a k by (simp add: UserCreatePost_db ex_app_def ex_fields ex_app_env_def) (simp add: ex_request_def)
  moreover have "users (ex_db\<lparr>users := users ex_db @ [?u]\<rparr>) \<noteq> users ex_db" by simp
  ultimately show ?thesis by (metis app.select_convs(1) ex_app_def)
qed

lemma created_user_witness:
  "\<exists>u. u \<in> set (users (ap_db (fst (UserCreatePost ex_app_env ex_request ex_app)))) \<and> u_username u = ''bob''
     \<and> (\<exists>a. Option.bind (u_allowed_ips u) firstIPv4InAllowedIPs = Some a \<and> free_host ex_db ex_conf (Net4 0x0A080000 29) a)"
  using created_user [OF ex_created] ex_keys ex_conf_db(1) ex_net
  by (simp add: ex_fields key_env_def) (fastforce simp: ex_app_def)

lemma keys_stay_paired_witness:
  "list_all (paired (ae_derive ex_app_env)) (users (ap_db (fst (UserCreatePost ex_app_env ex_request ex_app))))
   \<and> ap_db (fst (UserCreatePost ex_app_env ex_request ex_app)) \<noteq> ap_db ex_app"
proof -
  have "(user_step (ae_derive ex_app_env))\<^sup>*\<^sup>* ex_app (fst (UserCreatePost ex_app_env ex_request ex_app))"
    using user_step.create [OF ex_keys] by blast
  moreover have "\<forall>u \<in> set (users (ap_db ex_app)). paired (ae_derive ex_app_env) u"
    by (simp add: ex_app_def ex_db_def ex_user_def user_row_def paired_def)
  ultimately show ?thesis using keys_stay_paired ex_created unfolding list_all_iff by blast
qed

lemma ex_shaped: "shaped_env id ex_app_env" and ex_never_fails: "\<not> queues_failed id ex_app_env st"
proof -
  have t: "trim ''wg0'' = ''wg0''" by (rule trim_plain) (simp add: plain_def ascii_space_def)
  then show "shaped_env id ex_app_env" using ex_exec_contract by (simp add: shaped_env_def ex_app_env_def)
  have "err = None" if "Apply ex_exec d ''wg0'' False m = (s', lines, err)" for d m s' lines err
    using ex_exec_succeeds [of d False m] that by auto
  then show "\<not> queues_failed id ex_app_env st" using ex_exec_contract(2) by (auto simp: queues_failed_def ex_app_env_def t)
qed

lemma ex_keeps: "keeps_conf ex_app_env"
  by (simp add: keeps_conf_def ex_app_env_def ex_quiet_run_def)

lemma deriveClientRange_network_witness:
  "deriveClientRange ''10.8.0.1/24'' = ''10.8.0.0/24'' \<and> deriveClientRange ''10.8.0.1'' = ''10.8.0.0/24''"
proof -
  have "show_v4 0x0A080001 = ''10.8.0.1''" "show_v4 (mask4 24 0x0A080001) = ''10.8.0.0''" "nat_str 24 = ''24''"
    by (simp_all add: show_v4_def octet_def mask4_def nat_base.simps digit_def)
  then show ?thesis using deriveClientRange_network [of 24 "0x0A080001"] by simp
qed

definition ex_toggled :: db where
  "ex_toggled = ex_db\<lparr>users := [(ex_user ''u1'' ''alice'' ''10.8.0.2/32'')\<lparr>u_is_enabled := False\<rparr>]\<rparr>"

lemma ex_apply_ok: "snd (applyWireGuardFromDB ex_app_env (ex_app\<lparr>ap_db := ex_toggled\<rparr>)) = None"
proof -
  have "\<exists>t. render_config ex_toggled ''now'' = Inr t"
    by (simp add: render_config_def GetSystemConfig_def ex_toggled_def ex_db_def find_server_def ex_server_def ex_conf_def)
  then obtain t where t: "render_config ex_toggled ''now'' = Inr t" by blast
  have path: "wg_conf_path ''/data'' = ''/data/wg0.conf''"
    by (simp add: wg_conf_path_def path_join_def path_clean_def has_prefix_def)
  have pick: "pickInterface ''wg0'' ''wg0'' c = ''wg0''" for c by (simp add: pickInterface_def str_eval)
  have clean: "trim (cleanWGQuickStripOutput ''[Interface]'') \<noteq> []"
    by (simp add: cleanWGQuickStripOutput_def keep_line_def str_eval)
  show ?thesis
    using clean by (simp add: applyWireGuardFromDB_def SyncFromDB_def WriteWireGuardConfig_def ex_app_env_def ex_app_def t path
        ApplyConfig_def activeInterface_def execStdoutTimeout_def ex_quiet_run_def pick syncconf_def Let_def)
qed


end
