(* ===== verification/App_Queues.thy ===== *)
theory App_Queues
  imports App_Users
begin

text \<open>
  Groups and their queue presets (\<open>internal/app/groups_handlers.go\<close>, \<open>pcq_handlers.go\<close>): the
  handlers that change them, and what all handlers together keep.
\<close>

section \<open>Answers\<close>

definition redirectOrHTMXWithToast :: "request \<Rightarrow> string \<Rightarrow> string \<Rightarrow> string \<Rightarrow> response" where
  "redirectOrHTMXWithToast r path toastType toastMsg =
     (if rq_htmx r then
        \<lparr>rs_code = 303, rs_location = path,
         rs_toast = (if trim toastMsg \<noteq> [] then Some (if trim toastType = [] then ''success'' else trim toastType, toastMsg) else None),
         rs_body = []\<rparr>
      else redirect path)"

definition redirectOrHTMX :: "request \<Rightarrow> string \<Rightarrow> response" where
  "redirectOrHTMX r path = redirectOrHTMXWithToast r path [] []"

definition failed_at :: "string \<Rightarrow> string \<Rightarrow> string" where
  "failed_at path msg = path @ ''?msg='' @ urlQueryEscape msg @ ''&msgType=error''"

section \<open>Groups\<close>

definition group_path :: "string \<Rightarrow> string" where
  "group_path i = ''/ui/groups/'' @ i"

definition GroupCreatePost :: "'m app_env \<Rightarrow> request \<Rightarrow> 'm app \<Rightarrow> 'm app \<times> response" where
  "GroupCreatePost env r st =
     (if rq_form r = None then (st, httpError 400 ''bad form'')
      else if field r ''name'' = [] then (st, redirect ''/ui/groups'')
      else case insert_group \<lparr>g_id = ae_ids env 0, g_name = field r ''name'', g_description = nullIfEmpty (field r ''description'')\<rparr> (ap_db st) of
        Inl _ \<Rightarrow> (st, redirect (failed_at ''/ui/groups'' ''A group with that name may already exist.''))
      | Inr d' \<Rightarrow> (st\<lparr>ap_db := d'\<rparr>, redirect (group_path (ae_ids env 0))))"

definition GroupDeletePost :: "'m app_env \<Rightarrow> request \<Rightarrow> 'm app \<Rightarrow> 'm app \<times> response" where
  "GroupDeletePost env r st =
     (let i = trim (rq_id r) in
      if i = [] \<or> find_group i (ap_db st) = None then (st, notFound)
      else (st\<lparr>ap_db := delete_group i (ap_db st)\<rparr>, redirect ''/ui/groups''))"

definition GroupMemberAddPost :: "'m app_env \<Rightarrow> request \<Rightarrow> 'm app \<Rightarrow> 'm app \<times> response" where
  "GroupMemberAddPost env r st =
     (let i = trim (rq_id r) in
      if i = [] then (st, notFound)
      else if rq_form r = None then (st, httpError 400 ''bad form'')
      else if field r ''vpn_user_id'' = [] then (st, redirectOrHTMX r (group_path i))
      else case insert_member i (field r ''vpn_user_id'') (ap_db st) of
        Inl _ \<Rightarrow> (st, redirectOrHTMX r (failed_at (group_path i) ''Could not add member.''))
      | Inr d' \<Rightarrow> (reconcilePCQ env (st\<lparr>ap_db := d'\<rparr>), redirectOrHTMX r (group_path i)))"

text \<open>The insertions of a bulk request: what was added stays when a later one fails.\<close>

fun add_members :: "string \<Rightarrow> string list \<Rightarrow> db \<Rightarrow> nat \<Rightarrow> db \<times> nat option" where
  "add_members g [] d added = (d, Some added)"
| "add_members g (u # us) d added =
     (if trim u = [] then add_members g us d added
      else case insert_member g (trim u) d of
        Inl _ \<Rightarrow> (d, None)
      | Inr d' \<Rightarrow> add_members g us d' (added + (if (g, trim u) \<in> (\<lambda>m. (m_group m, m_user m)) ` set (members d) then 0 else 1)))"

definition GroupMemberBulkAddPost :: "'m app_env \<Rightarrow> request \<Rightarrow> 'm app \<Rightarrow> 'm app \<times> response" where
  "GroupMemberBulkAddPost env r st =
     (let i = trim (rq_id r) in
      if i = [] \<or> find_group i (ap_db st) = None then (st, notFound)
      else if rq_form r = None then (st, httpError 400 ''bad form'')
      else if formValues r ''vpn_user_id'' = []
        then (st, redirectOrHTMXWithToast r (group_path i) ''danger'' ''Select at least one user.'')
      else case add_members i (formValues r ''vpn_user_id'') (ap_db st) 0 of
        (d', None) \<Rightarrow> (st\<lparr>ap_db := d'\<rparr>, redirectOrHTMXWithToast r (group_path i) ''danger'' ''Could not add members.'')
      | (d', Some n) \<Rightarrow>
          (reconcilePCQ env (st\<lparr>ap_db := d'\<rparr>),
           redirectOrHTMXWithToast r (group_path i) ''success''
             (if n = 0 then ''No new members added (selected users were already in this group).''
              else ''Added '' @ nat_str n @ '' member(s).'')))"

definition GroupMemberRemovePost :: "'m app_env \<Rightarrow> request \<Rightarrow> 'm app \<Rightarrow> 'm app \<times> response" where
  "GroupMemberRemovePost env r st =
     (let i = trim (rq_id r); u = trim (rq_user r) in
      if i = [] \<or> u = [] then (st, notFound)
      else (reconcilePCQ env (st\<lparr>ap_db := delete_member i u (ap_db st)\<rparr>), redirectOrHTMX r (group_path i)))"

section \<open>Queue presets\<close>

text \<open>
  \<open>strconv.ParseFloat\<close> on a decimal literal: sign, digits with at most one point, exponent. The value
  is the mantissa and the power of ten, kept exact where Go rounds to the nearest double;
  infinities and NaN end in no limit as a malformed text does, and hexadecimal and underscored literals
  are taken as malformed.
\<close>

definition digits :: "string \<Rightarrow> bool" where
  "digits s \<longleftrightarrow> list_all is_digit s"

definition parse_exponent :: "string \<Rightarrow> int option" where
  "parse_exponent s =
     (case s of
        [] \<Rightarrow> Some 0
      | c # e \<Rightarrow> if c = CHR ''e'' \<or> c = CHR ''E'' then parse_sint e else None)"

definition parse_mantissa :: "string \<Rightarrow> (nat \<times> nat) option" where
  "parse_mantissa s =
     (case cutAt chr_dot s of
        None \<Rightarrow> if s \<noteq> [] \<and> digits s then Some (dec_val s, 0) else None
      | Some (a, b) \<Rightarrow> if a @ b \<noteq> [] \<and> digits (a @ b) then Some (dec_val (a @ b), length b) else None)"

definition parse_decimal :: "string \<Rightarrow> (int \<times> int) option" where
  "parse_decimal s =
     (let neg = has_prefix s ''-''; t = (if neg \<or> has_prefix s ''+'' then tl s else s);
          m = takeWhile (\<lambda>c. c \<noteq> CHR ''e'' \<and> c \<noteq> CHR ''E'') t; e = drop (length m) t in
      (case (parse_mantissa m, parse_exponent e) of
         (Some (v, frac), Some x) \<Rightarrow> Some (if neg then - int v else int v, x - int frac)
       | _ \<Rightarrow> None))"

text \<open>\<open>math.Round(v * 1024)\<close> for a positive value: half away from zero.\<close>

definition round_kbps :: "int \<Rightarrow> int \<Rightarrow> int" where
  "round_kbps m e =
     (if e \<ge> 0 then m * 10 ^ nat e * 1024
      else (2 * m * 1024 + 10 ^ nat (- e)) div (2 * 10 ^ nat (- e)))"

text \<open>A value that no \<open>int\<close> holds converts to the least one on amd64, which is no limit either.\<close>

definition mbpsInputToKbps :: "string \<Rightarrow> int option" where
  "mbpsInputToKbps form =
     (case parse_decimal (trim form) of
        None \<Rightarrow> None
      | Some (m, e) \<Rightarrow>
          if m \<le> 0 then None
          else (let k = round_kbps m e in if k \<le> 0 \<or> k \<ge> 2 ^ 63 then None else Some k))"

definition queue_path :: "string \<Rightarrow> string" where
  "queue_path i = ''/ui/queues/'' @ i"

definition said :: "string \<Rightarrow> string \<Rightarrow> string \<Rightarrow> response" where
  "said path msg kind = redirect (path @ ''?msg='' @ urlQueryEscape msg @ ''&msgType='' @ kind)"

definition classifier_field :: "request \<Rightarrow> string" where
  "classifier_field r =
     (let mode = toLower (field r ''pcq_classifier'') in
      if mode \<in> {''dst-download'', ''src-upload'', ''dual''} then mode else ''dual'')"

text \<open>The row a saved form leaves: a new one is enabled, an old one keeps its switch.\<close>

definition saved_preset :: "request \<Rightarrow> string \<Rightarrow> db \<Rightarrow> vpn_pcq" where
  "saved_preset r i d =
     \<lparr>q_group = i, q_download = mbpsInputToKbps (formValue r ''download_mbps''),
      q_upload = mbpsInputToKbps (formValue r ''upload_mbps''),
      q_burst_download = mbpsInputToKbps (formValue r ''burst_download_mbps''),
      q_burst_upload = mbpsInputToKbps (formValue r ''burst_upload_mbps''),
      q_classifier = classifier_field r,
      q_disabled = (case find_pcq i d of None \<Rightarrow> False | Some q \<Rightarrow> q_disabled q)\<rparr>"

definition GroupPCQSavePost :: "'m app_env \<Rightarrow> request \<Rightarrow> 'm app \<Rightarrow> 'm app \<times> response" where
  "GroupPCQSavePost env r st =
     (let i = trim (rq_id r) in
      if i = [] then (st, notFound)
      else if rq_form r = None then (st, httpError 400 ''bad form'')
      else if find_group i (ap_db st) = None then (st, notFound)
      else if formValue r ''clear_pcq'' = ''on'' then
        (reconcilePCQ env (st\<lparr>ap_db := delete_pcq i (ap_db st)\<rparr>), said (queue_path i) ''Queue settings cleared.'' ''success'')
      else case upsert_pcq (saved_preset r i (ap_db st)) (ap_db st) of
        Inl _ \<Rightarrow> (st, said (queue_path i) ''Could not save queue settings.'' ''error'')
      | Inr d' \<Rightarrow> (reconcilePCQ env (st\<lparr>ap_db := d'\<rparr>), said (queue_path i) ''Queue settings saved.'' ''success''))"

definition GroupPCQTogglePost :: "'m app_env \<Rightarrow> request \<Rightarrow> 'm app \<Rightarrow> 'm app \<times> response" where
  "GroupPCQTogglePost env r st =
     (let i = trim (rq_id r) in
      if i = [] then (st, notFound)
      else
        (let dest = (if field r ''redirect'' = [] then queue_path i else field r ''redirect'') in
         case find_pcq i (ap_db st) of
           None \<Rightarrow> (st, said dest ''No queue preset found for this group.'' ''error'')
         | Some q \<Rightarrow>
             (reconcilePCQ env (st\<lparr>ap_db := (ap_db st)\<lparr>pcqs :=
                upd_where (\<lambda>x. q_group x = i) (\<lambda>x. x\<lparr>q_disabled := \<not> q_disabled q\<rparr>) (pcqs (ap_db st))\<rparr>\<rparr>),
              said dest (if q_disabled q then ''Queue enabled.'' else ''Queue disabled.'') ''success'')))"

section \<open>What is typed is what is shaped\<close>

lemma nat_str_not: "c \<in> set (nat_str m) \<Longrightarrow> c \<noteq> CHR ''e'' \<and> c \<noteq> CHR ''E'' \<and> c \<noteq> chr_dot \<and> c \<noteq> CHR ''-'' \<and> c \<noteq> CHR ''+''"
  using nat_str_is_digit [of c m] by (auto simp: is_digit_def)

lemma parse_decimal_nat_str: "parse_decimal (nat_str m) = Some (int m, 0)"
proof -
  obtain c t where ct: "nat_str m = c # t" by (cases "nat_str m") auto
  then have "\<not> has_prefix (nat_str m) ''-''" "\<not> has_prefix (nat_str m) ''+''"
    using nat_str_not [of c m] by (auto simp: has_prefix_def)
  moreover have tw: "takeWhile (\<lambda>c. c \<noteq> CHR ''e'' \<and> c \<noteq> CHR ''E'') (nat_str m) = nat_str m"
    using nat_str_not by (simp add: takeWhile_eq_all_conv)
  moreover have "cutAt chr_dot (nat_str m) = None" using nat_str_not by (intro cutAt_None) blast
  ultimately show ?thesis
    by (simp add: parse_decimal_def parse_mantissa_def parse_exponent_def digits_def nat_str_digits Let_def tw)
qed

text \<open>C22. The rate of a queue is the one that was typed, up to 576460752303 Mbps: a whole number of megabits per second in
  the form is stored as 1024 times as many kilobits, as long as an \<open>int\<close> holds the product, and the plan gives
  the class that many million bits per second, as long as \<open>float64\<close> holds them exactly. From 9223372036855 Mbps on
  the number is still stored, and the rate in the plan is the least \<open>int64\<close>.\<close>

theorem typed_limit_is_rate:
  assumes "0 < m" and "int m * 1024 < 2 ^ 63"
  shows "mbpsInputToKbps (nat_str m) = Some (1024 * int m)
    \<and> (m \<le> 576460752303 \<longrightarrow> kbpsToRateSpec (1024 * int m) = itoa (1000000 * int m) @ ''bit'')
    \<and> (9223372036855 \<le> m \<longrightarrow> kbpsToRateSpec (1024 * int m) = ''-9223372036854775808bit'')"
proof -
  have "trim (nat_str m) = nat_str m" using nat_str_plain by simp
  then have "mbpsInputToKbps (nat_str m) = Some (1024 * int m)"
    using assms by (simp add: mbpsInputToKbps_def parse_decimal_nat_str round_kbps_def mult.commute)
  moreover have "itoa (- (2 ^ 63)) @ ''bit'' = ''-9223372036854775808bit''" by (simp add: itoa_def nat_base.simps digit_def)
  moreover have "m < 2 ^ 53" using assms(2) by simp
  moreover have "m \<le> 576460752303 \<Longrightarrow> m * 15625 < 2 ^ 53" by simp
  ultimately show ?thesis using rate_exact [of m] rate_overflows [of m] assms(1) by (auto simp: kbpsToRateSpec_def)
qed

section \<open>Queues follow the groups\<close>

lemma reconciled_or_same:
  assumes "f \<in> {GroupMemberAddPost, GroupMemberRemovePost, GroupPCQSavePost, GroupPCQTogglePost}"
  shows "fst (f env r st) = st \<or> (\<exists>st1. fst (f env r st) = reconcilePCQ env st1)"
proof -
  consider "f = GroupMemberAddPost" | "f = GroupMemberRemovePost" | "f = GroupPCQSavePost" | "f = GroupPCQTogglePost"
    using assms by blast
  then show ?thesis
    by cases (auto simp: GroupMemberAddPost_def GroupMemberRemovePost_def GroupPCQSavePost_def GroupPCQTogglePost_def
        Let_def split: sum.split option.split)
qed

lemma queue_answer:
  assumes "f \<in> {GroupMemberAddPost, GroupMemberRemovePost, GroupPCQSavePost, GroupPCQTogglePost}"
  shows "snd (f (env\<lparr>ae_exec := x\<rparr>) r st) = snd (f env r st)"
proof -
  consider "f = GroupMemberAddPost" | "f = GroupMemberRemovePost" | "f = GroupPCQSavePost" | "f = GroupPCQTogglePost"
    using assms by blast
  then show ?thesis
    by cases (auto simp: GroupMemberAddPost_def GroupMemberRemovePost_def GroupPCQSavePost_def GroupPCQTogglePost_def
        Let_def split: sum.split option.split)
qed


definition ex_shaped_app :: "argv list app" where
  "ex_shaped_app = reconcilePCQ ex_app_env \<lparr>ap_db = ex_pcq_db, ap_world = \<lparr>wd_fs = Map.empty, wd_machine = []\<rparr>\<rparr>"

definition ex_group_request :: request where
  "ex_group_request = \<lparr>rq_form = Some [(''vpn_user_id'', [''u1'', ''nobody''])], rq_id = ''g2'', rq_user = ''u1'', rq_htmx = False\<rparr>"

text \<open>Deleting a group leaves its queues behind: the handler changes no machine state, so that with two
  groups whose presets shape one user, after the second, which alone limits uploads, is deleted,
  the interface still has the queues of the deleted preset.\<close>

theorem group_delete_leaves_queues:
  "ap_world (fst (GroupDeletePost env r st)) = ap_world st
   \<and> queues_in_step id ex_app_env ex_shaped_app
   \<and> \<not> queues_in_step id ex_app_env (fst (GroupDeletePost ex_app_env ex_group_request ex_shaped_app))"
proof -
  have t: "trim ''g2'' = ''g2''" by (rule trim_plain) (simp add: plain_def ascii_space_def)
  have before: "queues_in_step id ex_app_env ex_shaped_app"
    unfolding ex_shaped_app_def using reconcile_in_step [OF ex_shaped] ex_never_fails by blast
  then have h: "wd_machine (ap_world ex_shaped_app) = peerShapeAppend (trim (ae_iface ex_app_env)) (LoadPeerLimits ex_pcq_db)"
    by (simp add: queues_in_step_def) (simp add: ex_shaped_app_def)
  let ?d = "delete_group ''g2'' ex_pcq_db"
  have del: "GroupDeletePost ex_app_env ex_group_request ex_shaped_app = (ex_shaped_app\<lparr>ap_db := ?d\<rparr>, redirect ''/ui/groups'')"
    by (simp add: GroupDeletePost_def ex_group_request_def t ex_shaped_app_def find_group_def Let_def)
       (simp add: ex_pcq_db_def)
  have "LoadPeerLimits ?d = [(''10.8.0.2'', ex_limit 4096 0)]"
    by (simp add: LoadPeerLimits_def pcq_eval delete_group_def)
  then have "''ffff:'' \<notin> plan_handles (LoadPeerLimits ?d)"
    by (auto simp: plan_handles_def capped_def limit_at_def ex_limit_def class_id_def)
  moreover have "''ffff:'' \<in> plan_handles (LoadPeerLimits ex_pcq_db)"
    by (simp add: ex_load plan_handles_def capped_def limit_at_def ex_limit_def)
  ultimately have "plan_handles (LoadPeerLimits ex_pcq_db) \<noteq> plan_handles (LoadPeerLimits ?d)" by metis
  then have "peerShapeAppend (trim (ae_iface ex_app_env)) (LoadPeerLimits ex_pcq_db)
      \<noteq> peerShapeAppend (trim (ae_iface ex_app_env)) (LoadPeerLimits ?d)"
    using peerShapeAppend_wf [of "trim (ae_iface ex_app_env)"] ex_shaped unfolding shaped_env_def by metis
  then have "\<not> queues_in_step id ex_app_env (fst (GroupDeletePost ex_app_env ex_group_request ex_shaped_app))"
    using h by (simp add: del queues_in_step_def)
  then show ?thesis using before by (simp add: GroupDeletePost_def Let_def)
qed

lemma typed_limit_is_rate_witness: "mbpsInputToKbps ''20'' = Some 20480"
proof -
  have "nat_str 20 = ''20''" by (simp add: nat_base.simps digit_def)
  then show ?thesis using typed_limit_is_rate [of 20] by simp
qed


end
