(* ===== verification/App_Setup.thy ===== *)
theory App_Setup
  imports App_Queues
begin

text \<open>
  Who may use the program: sessions, login and set-up (\<open>internal/app/handlers.go\<close>,
  \<open>internal/db/bootstrap.go\<close>). The session store and bcrypt are third parties': a session is the
  value stored under \<open>user_id\<close> for a token, empty when there is none; hashing and comparing are
  parameters.
\<close>

section \<open>Sessions\<close>

record 'm site =
  si_app :: "'m app"
  si_sessions :: "string \<Rightarrow> string"

record auth_env =
  au_hash :: "string \<Rightarrow> string option"
  au_match :: "string \<Rightarrow> string \<Rightarrow> bool"

abbreviation site_db :: "'m site \<Rightarrow> db" where
  "site_db s \<equiv> ap_db (si_app s)"

definition isSetupComplete :: "'m site \<Rightarrow> bool" where
  "isSetupComplete s = sc_complete (GetSystemConfig (site_db s))"

definition page :: "string \<Rightarrow> response" where
  "page err = \<lparr>rs_code = 200, rs_location = [], rs_toast = None, rs_body = err\<rparr>"

definition put_session :: "string \<Rightarrow> string \<Rightarrow> 'm site \<Rightarrow> 'm site" where
  "put_session tok i s = s\<lparr>si_sessions := (si_sessions s)(tok := i)\<rparr>"

text \<open>None when the request goes on to its handler.\<close>

definition RequireAuth :: "string \<Rightarrow> string \<Rightarrow> 'm site \<Rightarrow> response option" where
  "RequireAuth path tok s =
     (if \<not> isSetupComplete s \<and> path \<noteq> ''/setup'' \<and> \<not> has_prefix path ''/setup/'' then Some (redirect ''/setup'')
      else if si_sessions s tok = [] then Some (redirect ''/login'')
      else None)"

definition find_admin :: "string \<Rightarrow> db \<Rightarrow> admin_user option" where
  "find_admin name d = find (\<lambda>a. a_username a = name) (admins d)"

definition LoginPost :: "auth_env \<Rightarrow> string \<Rightarrow> request \<Rightarrow> 'm site \<Rightarrow> 'm site \<times> response" where
  "LoginPost env tok r s =
     (if \<not> isSetupComplete s then (s, redirect ''/setup'')
      else if rq_form r = None then (s, httpError 400 ''bad form'')
      else if field r ''username'' = [] \<or> formValue r ''password'' = [] then (s, page ''Username and password are required.'')
      else case find_admin (field r ''username'') (site_db s) of
        None \<Rightarrow> (s, page ''Invalid credentials.'')
      | Some a \<Rightarrow>
          if au_match env (a_password a) (formValue r ''password'') then (put_session tok (a_id a) s, redirect ''/ui'')
          else (s, page ''Invalid credentials.''))"

definition LogoutPost :: "string \<Rightarrow> 'm site \<Rightarrow> 'm site \<times> response" where
  "LogoutPost tok s = (put_session tok [] s, redirect ''/login'')"

section \<open>The first administrator\<close>

text \<open>
  The handler reads the number of users, then hashes the password, then inserts: two steps on the
  database between which other requests may run. The first ends with an answer or with the name and the
  hash to insert.
\<close>

definition admin_begin :: "auth_env \<Rightarrow> request \<Rightarrow> 'm site \<Rightarrow> response + string \<times> string" where
  "admin_begin env r s =
     (let pw = formValue r ''password''; confirm = formValue r ''confirm_password'' in
      if isSetupComplete s then Inl (redirect ''/login'')
      else if rq_form r = None then Inl (httpError 400 ''bad form'')
      else if field r ''username'' = [] \<or> pw = [] \<or> confirm = []
        then Inl (page ''Username, password, and password confirmation are required.'')
      else if pw \<noteq> confirm then Inl (page ''Passwords do not match.'')
      else if admins (site_db s) \<noteq> [] then Inl (redirect ''/setup'')
      else case au_hash env pw of None \<Rightarrow> Inl (httpError 500 ''server error'') | Some h \<Rightarrow> Inr (field r ''username'', h))"

definition insert_admin :: "string \<Rightarrow> string \<Rightarrow> string \<Rightarrow> db \<Rightarrow> db res" where
  "insert_admin i name hash d =
     (if i \<in> a_id ` set (admins d) then Inl (ErrConstraint ''users.id'')
      else if name \<in> a_username ` set (admins d) then Inl (ErrConstraint ''users.username'')
      else Inr (d\<lparr>admins := admins d @ [\<lparr>a_id = i, a_username = name, a_password = hash, a_role = ''admin''\<rparr>]\<rparr>))"

definition admin_finish :: "string \<Rightarrow> string \<Rightarrow> string \<times> string \<Rightarrow> 'm site \<Rightarrow> 'm site \<times> response" where
  "admin_finish tok i p s =
     (case insert_admin i (fst p) (snd p) (site_db s) of
        Inl _ \<Rightarrow> (s, httpError 500 ''server error'')
      | Inr d' \<Rightarrow> (put_session tok i (s\<lparr>si_app := (si_app s)\<lparr>ap_db := d'\<rparr>\<rparr>), redirect ''/setup''))"

definition SetupAdminPost :: "auth_env \<Rightarrow> string \<Rightarrow> string \<Rightarrow> request \<Rightarrow> 'm site \<Rightarrow> 'm site \<times> response" where
  "SetupAdminPost env i tok r s =
     (case admin_begin env r s of Inl rs \<Rightarrow> (s, rs) | Inr p \<Rightarrow> admin_finish tok i p s)"

definition SetupLoginPost :: "auth_env \<Rightarrow> string \<Rightarrow> request \<Rightarrow> 'm site \<Rightarrow> 'm site \<times> response" where
  "SetupLoginPost env tok r s =
     (if isSetupComplete s then (s, redirect ''/login'')
      else if rq_form r = None then (s, httpError 400 ''bad form'')
      else if field r ''username'' = [] \<or> formValue r ''password'' = [] then (s, page ''Username and password are required.'')
      else case find_admin (field r ''username'') (site_db s) of
        None \<Rightarrow> (s, page ''Invalid credentials.'')
      | Some a \<Rightarrow>
          if a_role a \<noteq> ''admin'' then (s, page ''Invalid credentials.'')
          else if au_match env (a_password a) (formValue r ''password'') then (put_session tok (a_id a) s, redirect ''/setup'')
          else (s, page ''Invalid credentials.''))"

definition BootstrapAdmin :: "auth_env \<Rightarrow> string \<Rightarrow> string \<Rightarrow> string \<Rightarrow> db \<Rightarrow> db \<times> goerr option" where
  "BootstrapAdmin env i name0 pw d =
     (if trim name0 = [] \<or> pw = [] \<or> admins d \<noteq> [] then (d, None)
      else case au_hash env pw of
        None \<Rightarrow> (d, Some (ErrMsg ''bcrypt''))
      | Some h \<Rightarrow> (case insert_admin i (trim name0) h d of Inl e \<Rightarrow> (d, Some e) | Inr d' \<Rightarrow> (d', None)))"

section \<open>Setting up WireGuard\<close>

definition parseWireGuardSetupForm :: "request \<Rightarrow> setup_config res" where
  "parseWireGuardSetupForm r =
     (let sp = field r ''server_port''; mtus = field r ''mtu''; pks = field r ''persistent_keepalive'' in
      if sp = [] then Inl (ErrMsg ''server port is required'')
      else case atoi sp of
        None \<Rightarrow> Inl (ErrMsg ''server port must be a number between 1 and 65535'')
      | Some p \<Rightarrow>
          if p < 1 \<or> p > 65535 then Inl (ErrMsg ''server port must be a number between 1 and 65535'')
          else if mtus = [] then Inl (ErrMsg ''MTU is required'')
          else case atoi mtus of
            None \<Rightarrow> Inl (ErrMsg ''MTU must be a valid number'')
          | Some mtu \<Rightarrow>
              if pks = [] then Inl (ErrMsg ''persistent keepalive is required'')
              else case atoi pks of
                None \<Rightarrow> Inl (ErrMsg ''persistent keepalive must be a valid number'')
              | Some pk \<Rightarrow>
                  Inr \<lparr>su_host = field r ''server_host'', su_port = p, su_address = field r ''server_address'',
                    su_client_range = field r ''client_address_range'', su_dns = field r ''dns'', su_mtu = mtu,
                    su_keepalive = pk, su_allowed_ips = field r ''allowed_ips'', su_pre_up = formValue r ''pre_up'',
                    su_pre_down = formValue r ''pre_down'', su_post_up = formValue r ''post_up'',
                    su_post_down = formValue r ''post_down'', su_private_key = field r ''private_key'',
                    su_public_key = field r ''public_key''\<rparr>)"

definition conf_of :: "setup_config \<Rightarrow> wgconf" where
  "conf_of c =
     \<lparr>w_enabled = True, w_server_host = su_host c, w_server_port = su_port c, w_server_address = su_address c,
      w_client_range = su_client_range c, w_dns = su_dns c, w_mtu = su_mtu c, w_keepalive = su_keepalive c,
      w_allowed_ips = su_allowed_ips c, w_pre_up = su_pre_up c, w_pre_down = su_pre_down c, w_post_up = su_post_up c,
      w_post_down = su_post_down c\<rparr>"

definition store_setup :: "string \<Rightarrow> setup_config \<Rightarrow> db \<Rightarrow> db" where
  "store_setup dataDir c d = UpsertWireGuardServer dataDir c (UpsertSystemConfig True (conf_of c) d)"

text \<open>The end of both ways to set up: a failing write is an error, a failing reload is not.\<close>

definition bring_up :: "'m app_env \<Rightarrow> 'm app \<Rightarrow> 'm app \<times> response" where
  "bring_up env st =
     (let (fs', e) = WriteWireGuardConfig (ae_io env) (ae_stamp env) (ap_db st) (ae_data env) (wd_fs (ap_world st));
          st1 = st\<lparr>ap_world := (ap_world st)\<lparr>wd_fs := fs'\<rparr>\<rparr> in
      case e of
        Some _ \<Rightarrow> (st1, httpError 500 ''failed to write wg0.conf'')
      | None \<Rightarrow>
          (let (wd', _) = ApplyConfig (ae_run env) (ae_tmp_fails env) (ae_data env) (ae_iface env) (ap_world st1) in
           (reconcilePCQ env (st1\<lparr>ap_world := wd'\<rparr>), redirect ''/ui'')))"

definition SetupWireGuardPost :: "'m app_env \<Rightarrow> string \<Rightarrow> request \<Rightarrow> 'm site \<Rightarrow> 'm site \<times> response" where
  "SetupWireGuardPost env tok r s =
     (if isSetupComplete s then (s, redirect ''/ui'')
      else if si_sessions s tok = [] then (s, page ''Your setup session expired. Sign in again to continue setup.'')
      else if rq_form r = None then (s, httpError 400 ''bad form'')
      else case parseWireGuardSetupForm r of
        Inl e \<Rightarrow> (s, page (errText e))
      | Inr c \<Rightarrow>
          (case ValidateSetupConfig c of
             Some e \<Rightarrow> (s, page (errText e))
           | None \<Rightarrow>
               (let (st', rs) = bring_up env ((si_app s)\<lparr>ap_db := store_setup (ae_data env) c (site_db s)\<rparr>) in
                (s\<lparr>si_app := st'\<rparr>, rs))))"

section \<open>Importing a configuration\<close>

record hook_paths =
  hp_pre_up :: string
  hp_pre_down :: string
  hp_post_up :: string
  hp_post_down :: string

definition no_hooks :: hook_paths where
  "no_hooks = \<lparr>hp_pre_up = [], hp_pre_down = [], hp_post_up = [], hp_post_down = []\<rparr>"

text \<open>An upload is the content of the file of a field, or none, or one that cannot be read.\<close>

datatype upload = NoFile | Unreadable | Content string

definition ioReadAllLimited :: "upload \<Rightarrow> nat \<Rightarrow> string res" where
  "ioReadAllLimited f limit =
     (case f of
        Content b \<Rightarrow> if length b > limit then Inl (ErrMsg ''uploaded script is too large'') else Inr b
      | _ \<Rightarrow> Inl (ErrIO ''read''))"

definition hook_items :: "(string \<times> string \<times> (string \<Rightarrow> hook_paths \<Rightarrow> hook_paths)) list" where
  "hook_items =
     [(''pre_up_script'', ''wg0-pre-up.sh'', (\<lambda>p h. h\<lparr>hp_pre_up := p\<rparr>)),
      (''post_up_script'', ''wg0-post-up.sh'', (\<lambda>p h. h\<lparr>hp_post_up := p\<rparr>)),
      (''pre_down_script'', ''wg0-pre-down.sh'', (\<lambda>p h. h\<lparr>hp_pre_down := p\<rparr>)),
      (''post_down_script'', ''wg0-post-down.sh'', (\<lambda>p h. h\<lparr>hp_post_down := p\<rparr>))]"

fun save_hooks ::
  "string \<Rightarrow> (string \<Rightarrow> upload) \<Rightarrow> (string \<Rightarrow> bool) \<Rightarrow> (string \<times> string \<times> (string \<Rightarrow> hook_paths \<Rightarrow> hook_paths)) list
   \<Rightarrow> hook_paths \<Rightarrow> fs \<Rightarrow> fs \<times> hook_paths res" where
  "save_hooks dataDir files wfail [] out f = (f, Inr out)"
| "save_hooks dataDir files wfail ((fld, name, set_path) # items) out f =
     (if files fld = NoFile then save_hooks dataDir files wfail items out f
      else case ioReadAllLimited (files fld) (1024 * 1024) of
        Inl e \<Rightarrow> (f, Inl e)
      | Inr b \<Rightarrow>
          (let dst = path_join dataDir name in
           if wfail dst then (f, Inl (ErrIO ''write''))
           else save_hooks dataDir files wfail items (set_path dst out) (f(dst \<mapsto> b))))"

definition saveWGHookScripts ::
  "string \<Rightarrow> (string \<Rightarrow> upload) \<Rightarrow> (string \<Rightarrow> bool) \<Rightarrow> fs \<Rightarrow> fs \<times> hook_paths res" where
  "saveWGHookScripts dataDir files wfail f = save_hooks dataDir files wfail hook_items no_hooks f"

definition imported_config :: "string \<Rightarrow> hook_paths \<Rightarrow> wgq_interface \<Rightarrow> string \<Rightarrow> setup_config" where
  "imported_config host hooks q pub =
     (let addr = (if trim (qi_address q) = [] then ''10.8.0.1/24'' else trim (qi_address q)) in
      \<lparr>su_host = host, su_port = (if qi_listen_port q = 0 then 51820 else qi_listen_port q), su_address = addr,
       su_client_range = (if deriveClientRange addr = [] then ''10.8.0.0/24'' else deriveClientRange addr),
       su_dns = (if trim (qi_dns q) = [] then ''1.1.1.1, 1.0.0.1'' else trim (qi_dns q)),
       su_mtu = (if qi_mtu q = 0 then 1420 else qi_mtu q), su_keepalive = 25, su_allowed_ips = ''0.0.0.0/0, ::/0'',
       su_pre_up = firstNonEmpty (hp_pre_up hooks) (qi_pre_up q), su_pre_down = firstNonEmpty (hp_pre_down hooks) (qi_pre_down q),
       su_post_up = firstNonEmpty (hp_post_up hooks) (qi_post_up q), su_post_down = firstNonEmpty (hp_post_down hooks) (qi_post_down q),
       su_private_key = trim (qi_private_key q), su_public_key = pub\<rparr>)"

definition import_parsed ::
  "'m app_env \<Rightarrow> request \<Rightarrow> (string \<Rightarrow> upload) \<Rightarrow> (string \<Rightarrow> bool) \<Rightarrow> wgq_interface \<Rightarrow> wgq_peer list \<Rightarrow> 'm app \<Rightarrow> 'm app \<times> response" where
  "import_parsed env r files wfail q ps st =
     (let (f', hooks) = saveWGHookScripts (ae_data env) files wfail (wd_fs (ap_world st));
          st1 = st\<lparr>ap_world := (ap_world st)\<lparr>wd_fs := f'\<rparr>\<rparr> in
      case hooks of
        Inl e \<Rightarrow> (st1, page (errText e))
      | Inr hp \<Rightarrow>
          (case DerivePublicKey env (trim (qi_private_key q)) of
             None \<Rightarrow> (st1, page ''Invalid server private key in wg0.conf.'')
           | Some pub \<Rightarrow>
               (let d1 = store_setup (ae_data env) (imported_config (field r ''server_host'') hp q pub) (ap_db st1) in
                case importPeersAsUsers (ae_ids env) ps d1 of
                  (d2, Some e) \<Rightarrow> (st1\<lparr>ap_db := d2\<rparr>, page (errText e))
                | (d2, None) \<Rightarrow> bring_up env (st1\<lparr>ap_db := d2\<rparr>))))"

definition SetupWireGuardImportPost ::
  "'m app_env \<Rightarrow> string \<Rightarrow> request \<Rightarrow> (string \<Rightarrow> upload) \<Rightarrow> (string \<Rightarrow> bool) \<Rightarrow> 'm site \<Rightarrow> 'm site \<times> response" where
  "SetupWireGuardImportPost env tok r files wfail s =
     (if isSetupComplete s then (s, redirect ''/ui'')
      else if si_sessions s tok = [] then (s, page ''Your setup session expired. Sign in again to continue setup.'')
      else if rq_form r = None then (s, page ''Invalid upload (file too large or malformed).'')
      else if field r ''server_host'' = [] then (s, page ''server host is required'')
      else case files ''wg0_conf'' of
        NoFile \<Rightarrow> (s, page ''wg0.conf file is required for import.'')
      | Unreadable \<Rightarrow> (s, page (errText (ErrIO ''read'')))
      | Content text \<Rightarrow>
          (case ParseWGQuickConfig text of
             Inl e \<Rightarrow> (s, page (errText e))
           | Inr (q, ps) \<Rightarrow>
               (let (st', rs) = import_parsed env r files wfail q ps (si_app s) in (s\<lparr>si_app := st'\<rparr>, rs))))"

section \<open>Everything an unauthenticated client can do\<close>

text \<open>
  Requests interleave: the two database steps of creating the administrator are steps of their own, with the
  requests in between in flight. Identifiers are never empty. A request behind \<open>RequireAuth\<close> runs
  a handler on the program's state; it keeps the administrators.
\<close>

record 'm front =
  fr_site :: "'m site"
  fr_pending :: "(string \<times> string \<times> string) set"

inductive front_step :: "auth_env \<Rightarrow> 'm front \<Rightarrow> 'm front \<Rightarrow> bool" for env where
  login: "front_step env f (f\<lparr>fr_site := fst (LoginPost env tok r (fr_site f))\<rparr>)"
| setup_login: "front_step env f (f\<lparr>fr_site := fst (SetupLoginPost env tok r (fr_site f))\<rparr>)"
| logout: "RequireAuth ''/logout'' tok (fr_site f) = None \<Longrightarrow> front_step env f (f\<lparr>fr_site := fst (LogoutPost tok (fr_site f))\<rparr>)"
| begin_admin: "admin_begin env r (fr_site f) = Inr p \<Longrightarrow> front_step env f (f\<lparr>fr_pending := insert (tok, p) (fr_pending f)\<rparr>)"
| finish_admin: "(tok, p) \<in> fr_pending f \<Longrightarrow> i \<noteq> [] \<Longrightarrow>
    front_step env f \<lparr>fr_site = fst (admin_finish tok i p (fr_site f)), fr_pending = fr_pending f - {(tok, p)}\<rparr>"
| set_up: "front_step env f (f\<lparr>fr_site := fst (SetupWireGuardPost aenv tok r (fr_site f))\<rparr>)"
| setup_import: "front_step env f (f\<lparr>fr_site := fst (SetupWireGuardImportPost aenv tok r files wfail (fr_site f))\<rparr>)"
| handler: "RequireAuth path tok (fr_site f) = None \<Longrightarrow> admins (ap_db st') = admins (site_db (fr_site f)) \<Longrightarrow>
    front_step env f (f\<lparr>fr_site := (fr_site f)\<lparr>si_app := st'\<rparr>\<rparr>)"

definition front_ok :: "auth_env \<Rightarrow> 'm front \<Rightarrow> bool" where
  "front_ok env f \<longleftrightarrow>
     (\<forall>tok. si_sessions (fr_site f) tok \<noteq> [] \<longrightarrow> si_sessions (fr_site f) tok \<in> a_id ` set (admins (site_db (fr_site f))))
   \<and> (\<forall>(tok, name, h) \<in> fr_pending f. \<exists>pw. au_hash env pw = Some h)
   \<and> distinct_on a_id (admins (site_db (fr_site f))) \<and> distinct_on a_username (admins (site_db (fr_site f)))
   \<and> (\<forall>a \<in> set (admins (site_db (fr_site f))). a_id a \<noteq> [] \<and> a_role a = ''admin'' \<and> (\<exists>pw. au_hash env pw = Some (a_password a)))"

lemma admins_store [simp]: "admins (store_setup dir c d) = admins d"
  by (simp add: store_setup_def UpsertWireGuardServer_def UpsertSystemConfig_def)

lemma admins_import [simp]: "admins (fst (importPeersAsUsers ids ps d)) = admins d"
proof (induction ps arbitrary: ids d)
  case (Cons p ps)
  have "import_peer i p d = Inr d' \<Longrightarrow> admins d' = admins d" for i d'
    by (auto simp: import_peer_def Let_def split: if_splits)
  then show ?case using Cons by (simp split: sum.split)
qed simp

lemma ap_db_bring_up [simp]: "ap_db (fst (bring_up env st)) = ap_db st"
  by (simp add: bring_up_def Let_def split: prod.split option.split)

lemma admins_setup: "admins (site_db (fst (SetupWireGuardPost aenv tok r s))) = admins (site_db s)"
  "si_sessions (fst (SetupWireGuardPost aenv tok r s)) = si_sessions s"
proof -
  have b: "bring_up aenv st = (x, y) \<Longrightarrow> ap_db x = ap_db st" for st x y using ap_db_bring_up [of aenv st] by simp
  show "admins (site_db (fst (SetupWireGuardPost aenv tok r s))) = admins (site_db s)"
    "si_sessions (fst (SetupWireGuardPost aenv tok r s)) = si_sessions s"
    by (auto simp: SetupWireGuardPost_def Let_def split: sum.split option.split prod.split dest!: b)
qed

lemma admins_import_parsed: "admins (ap_db (fst (import_parsed env r files wfail q ps st))) = admins (ap_db st)"
proof -
  have i: "importPeersAsUsers ids ps d = (d', e) \<Longrightarrow> admins d' = admins d" for ids ps d d' e
    using admins_import [of ids ps d] by simp
  show ?thesis
    by (auto simp: import_parsed_def Let_def split: sum.split option.split prod.split dest!: i)
qed

lemma admins_setup_import: "admins (site_db (fst (SetupWireGuardImportPost aenv tok r files wfail s))) = admins (site_db s)"
  "si_sessions (fst (SetupWireGuardImportPost aenv tok r files wfail s)) = si_sessions s"
proof -
  have b: "import_parsed aenv r files wfail q ps st = (x, y) \<Longrightarrow> admins (ap_db x) = admins (ap_db st)" for q ps st x y
    using admins_import_parsed [of aenv r files wfail q ps st] by simp
  show "admins (site_db (fst (SetupWireGuardImportPost aenv tok r files wfail s))) = admins (site_db s)"
    "si_sessions (fst (SetupWireGuardImportPost aenv tok r files wfail s)) = si_sessions s"
    by (auto simp: SetupWireGuardImportPost_def Let_def split: sum.split option.split prod.split upload.split dest!: b)
qed

lemma login_session:
  "si_app (fst (LoginPost env tok r s)) = si_app s
   \<and> (si_sessions (fst (LoginPost env tok r s)) = si_sessions s
      \<or> (\<exists>a \<in> set (admins (site_db s)). a_username a = field r ''username'' \<and> au_match env (a_password a) (formValue r ''password'')
           \<and> si_sessions (fst (LoginPost env tok r s)) = (si_sessions s)(tok := a_id a)))"
  by (auto simp: LoginPost_def find_admin_def put_session_def dest!: find_eq_Some_in split: option.split)

lemma setup_login_session:
  "si_app (fst (SetupLoginPost env tok r s)) = si_app s
   \<and> (si_sessions (fst (SetupLoginPost env tok r s)) = si_sessions s
      \<or> (\<exists>a \<in> set (admins (site_db s)). a_username a = field r ''username'' \<and> au_match env (a_password a) (formValue r ''password'')
           \<and> si_sessions (fst (SetupLoginPost env tok r s)) = (si_sessions s)(tok := a_id a)))"
  by (auto simp: SetupLoginPost_def find_admin_def put_session_def dest!: find_eq_Some_in split: option.split)

lemma front_ok_finish:
  assumes "front_ok env f" and "(tok, p) \<in> fr_pending f" and "i \<noteq> []"
  shows "front_ok env \<lparr>fr_site = fst (admin_finish tok i p (fr_site f)), fr_pending = fr_pending f - {(tok, p)}\<rparr>"
proof (cases "insert_admin i (fst p) (snd p) (site_db (fr_site f))")
  case (Inl e)
  then show ?thesis using assms(1) by (auto simp: front_ok_def admin_finish_def)
next
  case (Inr d')
  then have d': "admins d' = admins (site_db (fr_site f)) @ [\<lparr>a_id = i, a_username = fst p, a_password = snd p, a_role = ''admin''\<rparr>]"
    and new: "i \<notin> a_id ` set (admins (site_db (fr_site f)))" "fst p \<notin> a_username ` set (admins (site_db (fr_site f)))"
    by (auto simp: insert_admin_def split: if_splits)
  obtain pw where "au_hash env pw = Some (snd p)" using assms(1,2) by (cases p) (auto simp: front_ok_def)
  then show ?thesis using assms Inr d' new
    by (auto simp: front_ok_def admin_finish_def put_session_def distinct_on_append1)
qed

lemma front_ok_sessions:
  assumes "front_ok env f" and "si_app s' = si_app (fr_site f)"
    and "si_sessions s' = si_sessions (fr_site f) \<or> (\<exists>t. si_sessions s' = (si_sessions (fr_site f))(t := []))
      \<or> (\<exists>t a. a \<in> set (admins (site_db (fr_site f))) \<and> si_sessions s' = (si_sessions (fr_site f))(t := a_id a))"
  shows "front_ok env (f\<lparr>fr_site := s'\<rparr>)"
  using assms unfolding front_ok_def by (auto simp: fun_upd_def)

lemma front_ok_admins:
  "front_ok env f \<Longrightarrow> admins (site_db s') = admins (site_db (fr_site f)) \<Longrightarrow> si_sessions s' = si_sessions (fr_site f) \<Longrightarrow>
   front_ok env (f\<lparr>fr_site := s'\<rparr>)"
  by (simp add: front_ok_def)

lemma front_step_ok:
  assumes "front_step env f f'" and "front_ok env f"
  shows "front_ok env f'"
  using assms
proof (cases)
  case (login tok r)
  then show ?thesis using login_session [of env tok r "fr_site f"] by (auto intro!: front_ok_sessions [OF assms(2)])
next
  case (setup_login tok r)
  then show ?thesis using setup_login_session [of env tok r "fr_site f"] by (auto intro!: front_ok_sessions [OF assms(2)])
next
  case (logout tok)
  then show ?thesis by (auto simp: LogoutPost_def put_session_def intro!: front_ok_sessions [OF assms(2)])
next
  case (begin_admin r p tok)
  then have "\<exists>pw. au_hash env pw = Some (snd p)"
    by (auto simp: admin_begin_def Let_def split: if_splits option.splits)
  then show ?thesis using begin_admin assms(2) by (cases p) (auto simp: front_ok_def)
next
  case (finish_admin tok p i)
  then show ?thesis using front_ok_finish [OF assms(2)] by blast
next
  case (set_up aenv tok r)
  then show ?thesis using front_ok_admins [OF assms(2)] admins_setup by blast
next
  case (setup_import aenv tok r files wfail)
  then show ?thesis using front_ok_admins [OF assms(2)] admins_setup_import by blast
next
  case (handler path tok st')
  then show ?thesis using front_ok_admins [OF assms(2), of "(fr_site f)\<lparr>si_app := st'\<rparr>"] by simp
qed

interpretation front_reqs: kept_by_steps "front_step env" "front_ok env" for env
  by unfold_locales (rule front_step_ok)

section \<open>Access\<close>

text \<open>C8. Only an administrator gets past \<open>RequireAuth\<close>: however logins, set-up requests and protected
  requests interleave, the session of a request that is let through belongs to a stored
  administrator, whose stored password is a bcrypt hash, and set-up is complete unless the path
  is one of set-up.\<close>

theorem only_admins_pass:
  assumes "(front_step env)\<^sup>*\<^sup>* f f'" and "front_ok env f" and "RequireAuth path tok (fr_site f') = None"
  shows "(\<exists>a \<in> set (admins (site_db (fr_site f'))). a_id a = si_sessions (fr_site f') tok \<and> a_role a = ''admin''
      \<and> (\<exists>pw. au_hash env pw = Some (a_password a)))
    \<and> (isSetupComplete (fr_site f') \<or> path = ''/setup'' \<or> has_prefix path ''/setup/'')"
proof -
  have "si_sessions (fr_site f') tok \<noteq> []" using assms(3) by (auto simp: RequireAuth_def split: if_splits)
  moreover have "front_ok env f'" using front_reqs.steps_keep [OF assms(1,2)] .
  ultimately obtain a where a: "a \<in> set (admins (site_db (fr_site f')))" "si_sessions (fr_site f') tok = a_id a"
    unfolding front_ok_def by blast
  then have "a_role a = ''admin'' \<and> (\<exists>pw. au_hash env pw = Some (a_password a))"
    using \<open>front_ok env f'\<close> unfolding front_ok_def by blast
  moreover have "isSetupComplete (fr_site f') \<or> path = ''/setup'' \<or> has_prefix path ''/setup/''"
    using assms(3) unfolding RequireAuth_def by (metis option.distinct(1))
  ultimately show ?thesis using a by metis
qed

text \<open>C21. A login needs the password: \<open>LoginPost\<close> and \<open>SetupLoginPost\<close> change nothing but the
  session of the request, and that only to the identifier of the administrator with the given
  name whose stored hash matches the given password.\<close>

theorem login_needs_password:
  "\<forall>f \<in> {LoginPost, SetupLoginPost}. si_app (fst (f env tok r s)) = si_app s
   \<and> (si_sessions (fst (f env tok r s)) \<noteq> si_sessions s \<longrightarrow>
      (\<exists>a \<in> set (admins (site_db s)). a_username a = field r ''username'' \<and> au_match env (a_password a) (formValue r ''password'')
           \<and> si_sessions (fst (f env tok r s)) = (si_sessions s)(tok := a_id a)))"
  using login_session [of env tok r s] setup_login_session [of env tok r s] by auto

section \<open>Two administrators\<close>

definition ex_auth :: auth_env where
  "ex_auth = \<lparr>au_hash = Some, au_match = (=)\<rparr>"

definition ex_site :: "argv list site" where
  "ex_site = \<lparr>si_app = \<lparr>ap_db = db_empty, ap_world = \<lparr>wd_fs = Map.empty, wd_machine = []\<rparr>\<rparr>, si_sessions = (\<lambda>_. [])\<rparr>"

definition ex_front :: "argv list front" where
  "ex_front = \<lparr>fr_site = ex_site, fr_pending = {}\<rparr>"

definition ex_admin_request :: "string \<Rightarrow> request" where
  "ex_admin_request name = \<lparr>rq_form = Some [(''username'', [name]), (''password'', [''p'']), (''confirm_password'', [''p''])],
     rq_id = [], rq_user = [], rq_htmx = False\<rparr>"

lemma ex_front_ok: "front_ok ex_auth ex_front"
  by (simp add: front_ok_def ex_front_def ex_site_def db_empty_def distinct_on_def)

lemma ex_admin_begin:
  "trim name = name \<Longrightarrow> name \<noteq> [] \<Longrightarrow> admin_begin ex_auth (ex_admin_request name) ex_site = Inr (name, ''p'')"
  by (simp add: admin_begin_def ex_admin_request_def field_def formValue_def formValues_def isSetupComplete_def
      ex_site_def GetSystemConfig_def db_empty_def ex_auth_def Let_def)

definition ex_two_admins :: "argv list front" where
  "ex_two_admins = \<lparr>fr_site = fst (admin_finish ''t2'' ''2'' (''bob'', ''p'') (fst (admin_finish ''t1'' ''1'' (''eve'', ''p'') ex_site))), fr_pending = {}\<rparr>"

lemma ex_two_admins: "length (admins (site_db (fr_site ex_two_admins))) = 2"
  by (simp add: ex_two_admins_def admin_finish_def insert_admin_def ex_site_def db_empty_def put_session_def)

lemma ex_race: "(front_step ex_auth)\<^sup>*\<^sup>* ex_front ex_two_admins"
proof -
  have t: "trim ''eve'' = ''eve''" "trim ''bob'' = ''bob''" by (rule trim_plain, simp add: plain_def ascii_space_def)+
  let ?f1 = "ex_front\<lparr>fr_pending := {(''t1'', ''eve'', ''p'')}\<rparr>"
  let ?f2 = "ex_front\<lparr>fr_pending := {(''t2'', ''bob'', ''p''), (''t1'', ''eve'', ''p'')}\<rparr>"
  let ?f3 = "\<lparr>fr_site = fst (admin_finish ''t1'' ''1'' (''eve'', ''p'') ex_site), fr_pending = {(''t2'', ''bob'', ''p'')}\<rparr>"
  have "front_step ex_auth ex_front ?f1"
    using front_step.begin_admin [of ex_auth "ex_admin_request ''eve''" ex_front "(''eve'', ''p'')" "''t1''"] ex_admin_begin [OF t(1)]
    by (simp add: ex_front_def)
  moreover have "front_step ex_auth ?f1 ?f2"
    using front_step.begin_admin [of ex_auth "ex_admin_request ''bob''" ?f1 "(''bob'', ''p'')" "''t2''"] ex_admin_begin [OF t(2)]
    by (simp add: ex_front_def)
  moreover have "front_step ex_auth ?f2 ?f3"
    using front_step.finish_admin [of "''t1''" "(''eve'', ''p'')" ?f2 "''1''" ex_auth] by (simp add: ex_front_def insert_Diff_if)
  moreover have "front_step ex_auth ?f3 ex_two_admins"
    using front_step.finish_admin [of "''t2''" "(''bob'', ''p'')" ?f3 "''2''" ex_auth] by (simp add: ex_two_admins_def)
  ultimately show ?thesis by (meson rtranclp.rtrancl_into_rtrancl rtranclp.rtrancl_refl)
qed

text \<open>C39. Set-up may end with two administrators: a request handled alone creates one only when there is
  none, but the count is read before the password is hashed and the insertion does not look again,
  so two requests in flight at once, on an empty database, both succeed.\<close>

theorem two_admins_race:
  "(admins (site_db s) \<noteq> [] \<longrightarrow> fst (SetupAdminPost env i tok r s) = s)
   \<and> (\<exists>f. (front_step ex_auth)\<^sup>*\<^sup>* ex_front f \<and> admins (site_db (fr_site ex_front)) = [] \<and> length (admins (site_db (fr_site f))) = 2)"
proof -
  have "admins (site_db (fr_site ex_front)) = []" by (simp add: ex_front_def ex_site_def db_empty_def)
  then show ?thesis using ex_race ex_two_admins
    by (auto simp: SetupAdminPost_def admin_begin_def Let_def split: sum.split if_splits)
qed

lemma only_admins_pass_witness:
  "\<exists>a \<in> set (admins (site_db (fr_site ex_two_admins))). a_id a = ''2'' \<and> a_role a = ''admin''"
proof -
  have s: "si_sessions (fr_site ex_two_admins) ''t2'' = ''2''"
    by (simp add: ex_two_admins_def admin_finish_def insert_admin_def ex_site_def db_empty_def put_session_def)
  then have "RequireAuth ''/setup'' ''t2'' (fr_site ex_two_admins) = None" by (simp add: RequireAuth_def)
  from only_admins_pass [OF ex_race ex_front_ok this] show ?thesis by (auto simp: s)
qed

lemma two_admins_race_witness:
  "fst (SetupAdminPost ex_auth ''3'' ''t3'' (ex_admin_request ''mal'') (fr_site ex_two_admins)) = fr_site ex_two_admins"
proof -
  have "admins (site_db (fr_site ex_two_admins)) \<noteq> []" using ex_two_admins by auto
  then show ?thesis using two_admins_race [of "fr_site ex_two_admins" ex_auth] by blast
qed

lemma login_needs_password_witness:
  "\<exists>a \<in> set (admins (site_db (fr_site ex_two_admins))). a_username a = ''eve'' \<and> a_password a = ''p''
     \<and> si_sessions (fst (SetupLoginPost ex_auth ''t9'' (ex_admin_request ''eve'') (fr_site ex_two_admins)))
         = (si_sessions (fr_site ex_two_admins))(''t9'' := a_id a)"
proof -
  have t: "trim ''eve'' = ''eve''" by (rule trim_plain) (simp add: plain_def ascii_space_def)
  have f: "field (ex_admin_request ''eve'') ''username'' = ''eve''" "formValue (ex_admin_request ''eve'') ''password'' = ''p''"
    "rq_form (ex_admin_request ''eve'') \<noteq> None"
    by (simp_all add: field_def formValue_def formValues_def ex_admin_request_def t)
  have s: "\<not> isSetupComplete (fr_site ex_two_admins)" "si_sessions (fr_site ex_two_admins) ''t9'' = []"
    "find_admin ''eve'' (site_db (fr_site ex_two_admins)) = Some \<lparr>a_id = ''1'', a_username = ''eve'', a_password = ''p'', a_role = ''admin''\<rparr>"
    by (simp_all add: isSetupComplete_def GetSystemConfig_def find_admin_def ex_two_admins_def admin_finish_def insert_admin_def
        ex_site_def db_empty_def put_session_def)
  have "si_sessions (fst (SetupLoginPost ex_auth ''t9'' (ex_admin_request ''eve'') (fr_site ex_two_admins))) ''t9'' = ''1''"
    using f s by (simp add: SetupLoginPost_def put_session_def ex_auth_def)
  then have "si_sessions (fst (SetupLoginPost ex_auth ''t9'' (ex_admin_request ''eve'') (fr_site ex_two_admins)))
      \<noteq> si_sessions (fr_site ex_two_admins)" using s(2) by (metis list.distinct(1))
  then show ?thesis using login_needs_password [of ex_auth "''t9''" "ex_admin_request ''eve''" "fr_site ex_two_admins"] f
    by (simp add: ex_auth_def)
qed

end
