(* ===== verification/Dns_Manager.thy ===== *)
theory Dns_Manager
  imports Dns_Listen Wg_Apply
begin

text \<open>
  The resolver process: the alias of its address on the tunnel interface
  (\<open>internal/wireguard/dns_iface.go\<close>, \<open>iface_alias_linux.go\<close>, \<open>dns_route_linux.go\<close>), its files
  (\<open>internal/dns/rewrites.go\<close>), its configuration and life cycle (\<open>internal/dns/manager.go\<close>) and
  the step from the database (\<open>internal/dns/apply.go\<close>). Programs are the parameter \<open>run\<close>; what
  else the machine answers is the record \<open>dns_env\<close>.
\<close>

section \<open>The address on the tunnel interface\<close>

definition err_of :: "string res \<Rightarrow> goerr option" where
  "err_of r = (case r of Inl e \<Rightarrow> Some e | Inr _ \<Rightarrow> None)"

definition err_has :: "goerr \<Rightarrow> string list \<Rightarrow> bool" where
  "err_has e needles \<longleftrightarrow> list_ex (contains_str (toLower (errText e))) needles"

text \<open>A command whose failure with one of the given texts counts as success.\<close>

definition tolerant :: "'m run \<Rightarrow> string list \<Rightarrow> string list \<Rightarrow> 'm world \<Rightarrow> 'm world \<times> goerr option" where
  "tolerant run argv needles wd =
     (case execStdoutTimeout run argv wd of
        (wd1, Inr _) \<Rightarrow> (wd1, None)
      | (wd1, Inl e) \<Rightarrow> (wd1, if err_has e needles then None else Some e))"

definition interfaceHasIPv4 :: "'m run \<Rightarrow> string \<Rightarrow> string \<Rightarrow> 'm world \<Rightarrow> 'm world \<times> bool res" where
  "interfaceHasIPv4 run iface ip wd =
     (case execStdoutTimeout run [''ip'', ''-4'', ''-o'', ''addr'', ''show'', ''dev'', iface] wd of
        (wd1, Inl e) \<Rightarrow> (wd1, Inl e)
      | (wd1, Inr out) \<Rightarrow>
          (wd1, Inr (list_ex (\<lambda>l. contains_str l (''inet '' @ ip @ ''/'')) (split_on chr_nl out))))"

definition addInterfaceAlias :: "'m run \<Rightarrow> string \<Rightarrow> string \<Rightarrow> 'm world \<Rightarrow> 'm world \<times> goerr option" where
  "addInterfaceAlias run iface ip wd =
     (case interfaceHasIPv4 run iface ip wd of
        (wd1, Inl e) \<Rightarrow> (wd1, Some e)
      | (wd1, Inr True) \<Rightarrow> (wd1, None)
      | (wd1, Inr False) \<Rightarrow>
          tolerant run [''ip'', ''-4'', ''addr'', ''add'', ip @ ''/32'', ''dev'', iface] [''file exists'', ''eexist''] wd1)"

definition removeInterfaceAlias :: "'m run \<Rightarrow> string \<Rightarrow> string \<Rightarrow> 'm world \<Rightarrow> 'm world \<times> goerr option" where
  "removeInterfaceAlias run iface ip wd =
     (case interfaceHasIPv4 run iface ip wd of
        (wd1, Inl e) \<Rightarrow> (wd1, Some e)
      | (wd1, Inr False) \<Rightarrow> (wd1, None)
      | (wd1, Inr True) \<Rightarrow>
          tolerant run [''ip'', ''-4'', ''addr'', ''del'', ip @ ''/32'', ''dev'', iface]
            [''cannot assign'', ''not found'', ''no such process''] wd1)"

definition addDNSHostRoute :: "'m run \<Rightarrow> string \<Rightarrow> string \<Rightarrow> 'm world \<Rightarrow> 'm world \<times> goerr option" where
  "addDNSHostRoute run iface ip wd =
     tolerant run [''ip'', ''route'', ''replace'', ip @ ''/32'', ''dev'', iface, ''scope'', ''link'']
       [''file exists'', ''already exists''] wd"

definition removeDNSHostRoute :: "'m run \<Rightarrow> string \<Rightarrow> string \<Rightarrow> 'm world \<Rightarrow> 'm world \<times> goerr option" where
  "removeDNSHostRoute run iface ip wd =
     tolerant run [''ip'', ''route'', ''del'', ip @ ''/32'', ''dev'', iface]
       [''no such process'', ''not found'', ''cannot find''] wd"

text \<open>The host clients resolve with, and whether it needs an address of its own on the interface.\<close>

definition dnsAliasHost :: "db \<Rightarrow> dns_settings_row \<Rightarrow> (string \<times> bool) res" where
  "dnsAliasHost d s =
     bindR (DNSResolverHost d s) (\<lambda>host0.
       (let host = trim host0 in
        if host = [] then Inr ([], False)
        else if IsLinkLocalDNSHost host then Inr (host, True)
        else Inr (host, TryDNSServerHost d \<noteq> Some host)))"

definition EnsureDNSInterfaceAlias ::
  "'m run \<Rightarrow> string \<Rightarrow> string \<Rightarrow> db \<Rightarrow> dns_settings_row \<Rightarrow> 'm world \<Rightarrow> 'm world \<times> goerr option" where
  "EnsureDNSInterfaceAlias run dataDir configured d s wd =
     (case dnsAliasHost d s of
        Inl e \<Rightarrow> (wd, Some e)
      | Inr (host, needed) \<Rightarrow>
          if \<not> needed then (wd, None)
          else
            (let (wd1, iface) = activeInterface run (wg_conf_path dataDir) configured wd in
             if iface = [] then (wd1, Some (ErrMsg ''WireGuard interface is not running''))
             else
               (case addInterfaceAlias run iface host wd1 of
                  (wd2, Some e) \<Rightarrow> (wd2, Some (ErrWrap ''add DNS address'' e))
                | (wd2, None) \<Rightarrow>
                    (case addDNSHostRoute run iface host wd2 of
                       (wd3, Some e) \<Rightarrow>
                         (fst (removeInterfaceAlias run iface host wd3), Some (ErrWrap ''route DNS address'' e))
                     | (wd3, None) \<Rightarrow> (wd3, None)))))"

definition RemoveDNSInterfaceAlias ::
  "'m run \<Rightarrow> string \<Rightarrow> string \<Rightarrow> db \<Rightarrow> dns_settings_row \<Rightarrow> 'm world \<Rightarrow> 'm world \<times> goerr option" where
  "RemoveDNSInterfaceAlias run dataDir configured d s wd =
     (case dnsAliasHost d s of
        Inl e \<Rightarrow> (wd, Some e)
      | Inr (host, needed) \<Rightarrow>
          if \<not> needed then (wd, None)
          else
            (let (wd1, iface) = activeInterface run (wg_conf_path dataDir) configured wd in
             if iface = [] then (wd1, None)
             else
               (let (wd2, _) = removeDNSHostRoute run iface host wd1 in
                case removeInterfaceAlias run iface host wd2 of
                  (wd3, Some e) \<Rightarrow> (wd3, Some (ErrWrap ''remove DNS address'' e))
                | (wd3, None) \<Rightarrow> (wd3, None))))"

section \<open>The files\<close>

record dns_env =
  de_ord :: "string list \<Rightarrow> string list"
  de_http :: "string \<Rightarrow> string res"
  de_fresh :: "string \<Rightarrow> bool"
  de_wfail :: "string \<Rightarrow> bool"
  de_mkfail :: "string \<Rightarrow> bool"
  de_stat :: "string \<Rightarrow> bool option"
  de_lookpath :: "string \<Rightarrow> string option"
  de_start_fails :: bool

definition write_file :: "dns_env \<Rightarrow> string \<Rightarrow> string \<Rightarrow> fs \<Rightarrow> fs \<times> goerr option" where
  "write_file env path body f = (if de_wfail env path then (f, Some (ErrIO ''write'')) else (f(path \<mapsto> body), None))"

record zone_files =
  zf_block :: string
  zf_rewrite :: string
  zf_zones :: "(string \<times> string) list"

definition zone_entries :: "dns_record list \<Rightarrow> (string \<times> dns_record) list" where
  "zone_entries records =
     concat (map (\<lambda>r.
       (let recType = toUpper (trim (r_type r)); (zone, owner) = SplitRewriteDomain (r_name r) in
        if r_enabled r \<and> recType \<noteq> ''A'' \<and> recType \<noteq> ''AAAA'' \<and> zone \<noteq> [] then [(zone, r\<lparr>r_name := owner\<rparr>)] else []))
       records)"

definition in_zone :: "(string \<times> dns_record) list \<Rightarrow> string \<Rightarrow> dns_record list" where
  "in_zone es zone = map snd (filter (\<lambda>e. fst e = zone) es)"

fun write_zones ::
  "dns_env \<Rightarrow> string \<Rightarrow> (string \<times> dns_record) list \<Rightarrow> string list \<Rightarrow> fs \<Rightarrow> fs \<times> (string \<times> string) list res" where
  "write_zones env dir es [] f = (f, Inr [])"
| "write_zones env dir es (z # zs) f =
     (let file = path_join dir (z @ ''.db'') in
      case WriteZoneFile z 300 (in_zone es z) of
        Inl e \<Rightarrow> (f, Inl e)
      | Inr body \<Rightarrow>
          (case write_file env file body f of
             (f1, Some e) \<Rightarrow> (f1, Inl e)
           | (f1, None) \<Rightarrow>
               (case write_zones env dir es zs f1 of
                  (f2, r) \<Rightarrow> (f2, bindR r (\<lambda>bs. Inr ((z, file) # bs))))))"

definition prepareRewriteZones ::
  "dns_env \<Rightarrow> string \<Rightarrow> dns_record list \<Rightarrow> fs \<Rightarrow> fs \<times> (string \<times> (string \<times> string) list) res" where
  "prepareRewriteZones env dir records f =
     (let zonesDir = path_join dir ''zones''; hostsPath = path_join dir ''hosts.db'';
          hostsBody = WriteHostsFile (de_ord env) records; es = zone_entries records;
          (f1, e, hostsFile) =
            (if hostsBody = [] then (f, None, [])
             else (case write_file env hostsPath hostsBody f of (f', e) \<Rightarrow> (f', e, hostsPath))) in
      if de_mkfail env zonesDir then (f, Inl (ErrIO ''mkdir''))
      else
        (case e of
           Some err \<Rightarrow> (f1, Inl err)
         | None \<Rightarrow>
             (case write_zones env zonesDir es (sort (remdups (map fst es))) f1 of
                (f2, r) \<Rightarrow> (f2, bindR r (\<lambda>bs. Inr (hostsFile, bs))))))"

definition prepareZoneFiles ::
  "dns_env \<Rightarrow> string \<Rightarrow> dns_settings_row \<Rightarrow> dns_record list \<Rightarrow> dns_rule list \<Rightarrow> string \<Rightarrow> fs \<Rightarrow> fs \<times> zone_files res" where
  "prepareZoneFiles env dir cfg records rules dataDir f =
     (if de_mkfail env (path_join dir ''zones'') then (f, Inl (ErrIO ''mkdir''))
      else
        (case CollectBlockedDomains (de_ord env) (de_http env) (de_fresh env) (de_wfail env) cfg rules dataDir f of
           (f1, Inl e) \<Rightarrow> (f1, Inl e)
         | (f1, Inr blocked) \<Rightarrow>
             (let blockBody = WriteBlockHostsFile (ds_block_address cfg) blocked;
                  blockPath = path_join dir ''block.db'';
                  (f2, e, block) = (if blockBody = [] then (f1, None, [])
                    else (case write_file env blockPath blockBody f1 of (f', e) \<Rightarrow> (f', e, blockPath))) in
              (case e of
                 Some err \<Rightarrow> (f2, Inl err)
               | None \<Rightarrow>
                   (case prepareRewriteZones env dir records f2 of
                      (f3, r) \<Rightarrow> (f3, bindR r (\<lambda>(rw, zs).
                        Inr \<lparr>zf_block = block, zf_rewrite = rw, zf_zones = zs\<rparr>)))))))"

section \<open>The Corefile\<close>

definition hosts_stanza :: "string \<Rightarrow> string list" where
  "hosts_stanza path =
     (if trim path = [] then [] else [''    hosts '' @ path @ '' {'', ''        fallthrough'', ''    }''])"

definition bind_lines :: "string \<Rightarrow> string list" where
  "bind_lines host = (if host \<noteq> [] \<and> host \<noteq> ''0.0.0.0'' \<and> host \<noteq> ''::'' then [''    bind '' @ host] else [])"

definition zone_stanza :: "string \<Rightarrow> string \<Rightarrow> string \<times> string \<Rightarrow> string list" where
  "zone_stanza host port zb =
     (if fst zb = [] \<or> snd zb = [] then []
      else [fst zb @ '':'' @ port @ '' {''] @ bind_lines host
        @ [''    file '' @ snd zb, ''    log'', ''    errors'', ''}'', []])"

definition root_stanza :: "string \<Rightarrow> string \<Rightarrow> dns_settings_row \<Rightarrow> zone_files \<Rightarrow> string list" where
  "root_stanza host port cfg files =
     (let upstreams = (if trim (ds_upstreams cfg) = [] then ''1.1.1.1 1.0.0.1'' else trim (ds_upstreams cfg));
          cacheTTL = (if ds_cache_ttl cfg \<le> 0 then 300 else ds_cache_ttl cfg) in
      [''.:'' @ port @ '' {''] @ bind_lines host @ hosts_stanza (zf_block files) @ hosts_stanza (zf_rewrite files)
      @ [''    forward . '' @ upstreams, ''    cache '' @ itoa cacheTTL]
      @ (if ds_query_log cfg then [''    log''] else []) @ [''    errors'', ''}''])"

text \<open>The first line holds an em dash, three bytes.\<close>

definition corefile_head :: string where
  "corefile_head = ''# Generated by NetPlug '' @ [CHR 0xE2, CHR 0x80, CHR 0x94] @ '' do not edit manually''"

definition renderCorefile :: "string \<Rightarrow> string \<Rightarrow> dns_settings_row \<Rightarrow> zone_files \<Rightarrow> string" where
  "renderCorefile host port cfg files =
     unlines (corefile_head # concat (map (zone_stanza host port) (zf_zones files)) @ root_stanza host port cfg files)"


section \<open>The manager\<close>

text \<open>
  The fields of \<open>Manager\<close>; a command is the number of its process. Beside the manager stand the
  world, the database, the processes that are alive and the next process number.
\<close>

record dns_manager =
  dm_data :: string
  dm_bin :: string
  dm_iface :: string
  dm_cmd :: "nat option"
  dm_running :: bool
  dm_error :: string
  dm_listen :: string
  dm_corefile :: string

record 'm dns_sys =
  sy_mgr :: dns_manager
  sy_world :: "'m world"
  sy_db :: db
  sy_procs :: "nat set"
  sy_pid :: nat

definition NewManager :: "string \<Rightarrow> string \<Rightarrow> string \<Rightarrow> dns_manager" where
  "NewManager dataDir coreDNSBin wgIface =
     \<lparr>dm_data = dataDir, dm_bin = or_default coreDNSBin ''coredns'', dm_iface = trim wgIface, dm_cmd = None,
      dm_running = False, dm_error = [], dm_listen = [], dm_corefile = []\<rparr>"

record dns_status =
  dst_running :: bool
  dst_pid :: nat
  dst_listen :: string
  dst_binary :: string
  dst_corefile :: string
  dst_error :: string

definition Status :: "dns_manager \<Rightarrow> dns_status" where
  "Status m = \<lparr>dst_running = dm_running m, dst_pid = (case dm_cmd m of None \<Rightarrow> 0 | Some p \<Rightarrow> p), dst_listen = dm_listen m,
     dst_binary = dm_bin m, dst_corefile = dm_corefile m, dst_error = dm_error m\<rparr>"

definition resolveCoreDNSBinary :: "dns_env \<Rightarrow> string \<Rightarrow> string res" where
  "resolveCoreDNSBinary env name0 =
     (let name = trim name0 in
      if name = [] then Inl (ErrMsg ''CoreDNS binary is not set'')
      else if has_prefix name ''/'' then
        (case de_stat env name of
           None \<Rightarrow> Inl (ErrMsg ''CoreDNS binary not found'')
         | Some isDir \<Rightarrow> if isDir then Inl (ErrMsg ''CoreDNS binary is a directory'') else Inr name)
      else (case de_lookpath env name of
              None \<Rightarrow> Inl (ErrMsg ''CoreDNS binary not found on PATH'')
            | Some path \<Rightarrow> Inr path))"

text \<open>\<open>stopLocked\<close> waits until the process is gone; it never fails, and the wait is taken to end, whoever collects the process.\<close>

definition stopLocked :: "'m dns_sys \<Rightarrow> 'm dns_sys" where
  "stopLocked s =
     s\<lparr>sy_mgr := (sy_mgr s)\<lparr>dm_cmd := None, dm_running := False\<rparr>,
       sy_procs := sy_procs s - set_option (dm_cmd (sy_mgr s))\<rparr>"

text \<open>Where \<open>Start\<close> notes an error before it returns it.\<close>

definition fail :: "goerr \<Rightarrow> 'm dns_sys \<Rightarrow> 'm dns_sys \<times> goerr option" where
  "fail e s = (s\<lparr>sy_mgr := (sy_mgr s)\<lparr>dm_error := errText e\<rparr>\<rparr>, Some e)"

definition launch :: "dns_env \<Rightarrow> string \<Rightarrow> string \<Rightarrow> 'm dns_sys \<Rightarrow> 'm dns_sys \<times> goerr option" where
  "launch env listen corefile s =
     (if de_start_fails env then
        (s\<lparr>sy_mgr := (sy_mgr s)\<lparr>dm_error := ''exec''\<rparr>\<rparr>, Some (ErrWrap ''start coredns'' (ErrIO ''exec'')))
      else
        (s\<lparr>sy_mgr := (sy_mgr s)\<lparr>dm_cmd := Some (sy_pid s), dm_running := True, dm_error := [],
                               dm_listen := listen, dm_corefile := corefile\<rparr>,
           sy_procs := insert (sy_pid s) (sy_procs s), sy_pid := Suc (sy_pid s)\<rparr>, None))"

definition write_and_launch ::
  "dns_env \<Rightarrow> dns_settings_row \<Rightarrow> dns_record list \<Rightarrow> dns_rule list \<Rightarrow> string \<Rightarrow> string \<times> string \<Rightarrow> 'm dns_sys
   \<Rightarrow> 'm dns_sys \<times> goerr option" where
  "write_and_launch env cfg records rules listen hp s =
     (let m = sy_mgr s; dir = path_join (dm_data m) ''dns''; corefile = path_join dir ''Corefile'' in
      if de_mkfail env dir then fail (ErrIO ''mkdir'') s
      else
        (case prepareZoneFiles env dir cfg records rules (dm_data m) (wd_fs (sy_world s)) of
           (f1, Inl e) \<Rightarrow> fail e (s\<lparr>sy_world := (sy_world s)\<lparr>wd_fs := f1\<rparr>\<rparr>)
         | (f1, Inr files) \<Rightarrow>
             (case write_file env corefile (renderCorefile (fst hp) (snd hp) cfg files) f1 of
                (f2, Some e) \<Rightarrow> fail e (s\<lparr>sy_world := (sy_world s)\<lparr>wd_fs := f2\<rparr>\<rparr>)
              | (f2, None) \<Rightarrow> launch env listen corefile (s\<lparr>sy_world := (sy_world s)\<lparr>wd_fs := f2\<rparr>\<rparr>))))"

definition Start ::
  "'m run \<Rightarrow> dns_env \<Rightarrow> dns_settings_row \<Rightarrow> dns_record list \<Rightarrow> dns_rule list \<Rightarrow> 'm dns_sys \<Rightarrow> 'm dns_sys \<times> goerr option" where
  "Start run env cfg records rules s0 =
     (let s = stopLocked s0; m = sy_mgr s;
          binRef = or_default (ds_binary cfg) (or_default (dm_bin m) ''coredns'') in
      case resolveCoreDNSBinary env binRef of
        Inl e \<Rightarrow> fail e s
      | Inr bin \<Rightarrow>
          (let s1 = s\<lparr>sy_mgr := m\<lparr>dm_bin := bin\<rparr>\<rparr>; listen = trim (ds_listen_addr cfg) in
           if listen = [] then fail (ErrMsg ''DNS listen address is not set'') s1
           else
             (case splitListenAddr listen of
                Inl e \<Rightarrow> fail e s1
              | Inr hp \<Rightarrow>
                  (case EnsureDNSInterfaceAlias run (dm_data m) (dm_iface m) (sy_db s1) cfg (sy_world s1) of
                     (wd, Some e) \<Rightarrow> fail e (s1\<lparr>sy_world := wd\<rparr>)
                   | (wd, None) \<Rightarrow> write_and_launch env cfg records rules listen hp (s1\<lparr>sy_world := wd\<rparr>)))))"

definition Stop :: "'m run \<Rightarrow> 'm dns_sys \<Rightarrow> 'm dns_sys" where
  "Stop run s0 =
     (let s = stopLocked s0; m = sy_mgr s;
          (wd, _) = RemoveDNSInterfaceAlias run (dm_data m) (dm_iface m) (sy_db s) (GetDNSSettings (sy_db s)) (sy_world s) in
      s\<lparr>sy_world := wd\<rparr>)"

definition ManagerApply ::
  "'m run \<Rightarrow> dns_env \<Rightarrow> dns_settings_row \<Rightarrow> dns_record list \<Rightarrow> dns_rule list \<Rightarrow> 'm dns_sys \<Rightarrow> 'm dns_sys \<times> goerr option" where
  "ManagerApply run env cfg records rules s =
     (if \<not> ds_enabled cfg then (Stop run s, None) else Start run env cfg records rules s)"

text \<open>The watcher of a process, once \<open>Wait\<close> returned: it looks whether the manager still holds its command.\<close>

definition watchProcess :: "nat \<Rightarrow> string option \<Rightarrow> 'm dns_sys \<Rightarrow> 'm dns_sys" where
  "watchProcess pid err s =
     (if dm_cmd (sy_mgr s) = Some pid then
        s\<lparr>sy_mgr := (sy_mgr s)\<lparr>dm_running := False, dm_cmd := None,
            dm_error := (case err of None \<Rightarrow> dm_error (sy_mgr s) | Some e \<Rightarrow> e)\<rparr>\<rparr>
      else s)"

definition ApplyFromDB :: "'m run \<Rightarrow> dns_env \<Rightarrow> string \<Rightarrow> 'm dns_sys \<Rightarrow> 'm dns_sys \<times> goerr option" where
  "ApplyFromDB run env coreDNSBin s =
     (let m = sy_mgr s; cfg0 = GetDNSSettings (sy_db s);
          cfg = (if trim (ds_binary cfg0) = [] then cfg0\<lparr>ds_binary := or_default coreDNSBin ''coredns''\<rparr> else cfg0) in
      if \<not> ds_enabled cfg then (Stop run s, None)
      else
        (let (wd, iface) = activeInterface run (wg_conf_path (dm_data m)) (dm_iface m) (sy_world s);
             s1 = s\<lparr>sy_world := wd\<rparr> in
         if iface = [] then (s1, Some (ErrMsg ''WireGuard interface is not running''))
         else
           (let (cfg1, generated) = EnsureAutoDNSHost (sy_db s1) cfg;
                s2 = (if generated then s1\<lparr>sy_db := UpsertDNSSettings cfg1 (sy_db s1)\<rparr> else s1) in
            case ResolveDNSListenAddress (sy_db s2) cfg1 of
              Inl e \<Rightarrow> (s2, Some e)
            | Inr listen \<Rightarrow>
                ManagerApply run env (cfg1\<lparr>ds_listen_addr := listen\<rparr>) (ListDNSRecords (sy_db s2))
                  (ListDNSDomainRules (sy_db s2)) s2)))"

section \<open>Interleavings\<close>

text \<open>
  The manager's methods exclude one another by its mutex; between them a process may die, and
  its watcher may come to look later.
\<close>

inductive dns_step :: "'m run \<Rightarrow> 'm dns_sys \<Rightarrow> 'm dns_sys \<Rightarrow> bool" for run where
  apply_step: "dns_step run s (fst (ManagerApply run env cfg records rules s))"
| stop_step: "dns_step run s (Stop run s)"
| exit_step: "pid \<in> sy_procs s \<Longrightarrow> dns_step run s (s\<lparr>sy_procs := sy_procs s - {pid}\<rparr>)"
| watch_step: "pid \<notin> sy_procs s \<Longrightarrow> dns_step run s (watchProcess pid err s)"

definition dns_inv :: "'m dns_sys \<Rightarrow> bool" where
  "dns_inv s \<longleftrightarrow>
     sy_procs s \<subseteq> set_option (dm_cmd (sy_mgr s)) \<and> (dm_running (sy_mgr s) \<longleftrightarrow> dm_cmd (sy_mgr s) \<noteq> None)"

lemma dns_inv_stopLocked: "dns_inv s \<Longrightarrow> dns_inv (stopLocked s) \<and> sy_procs (stopLocked s) = {}
   \<and> dm_cmd (sy_mgr (stopLocked s)) = None"
  by (auto simp: dns_inv_def stopLocked_def)

lemma idle_fail: "dns_inv (fst (fail e s)) \<longleftrightarrow> dns_inv s" "sy_procs (fst (fail e s)) = sy_procs s"
  "dm_cmd (sy_mgr (fst (fail e s))) = dm_cmd (sy_mgr s)" "snd (fail e s) = Some e"
  "dm_running (sy_mgr (fst (fail e s))) = dm_running (sy_mgr s)"
  by (simp_all add: fail_def dns_inv_def)

text \<open>How a start ends from an idle manager: with an error and idle, or with one process.\<close>

definition start_ends :: "'m dns_sys \<Rightarrow> 'm dns_sys \<times> goerr option \<Rightarrow> bool" where
  "start_ends s r \<longleftrightarrow>
     (case snd r of
        None \<Rightarrow> dm_cmd (sy_mgr (fst r)) = Some (sy_pid s) \<and> sy_procs (fst r) = {sy_pid s}
          \<and> dm_running (sy_mgr (fst r)) \<and> dm_error (sy_mgr (fst r)) = []
      | Some e \<Rightarrow> dm_cmd (sy_mgr (fst r)) = None \<and> sy_procs (fst r) = {} \<and> \<not> dm_running (sy_mgr (fst r)))"

definition idle :: "'m dns_sys \<Rightarrow> bool" where
  "idle s \<longleftrightarrow> dm_cmd (sy_mgr s) = None \<and> sy_procs s = {} \<and> \<not> dm_running (sy_mgr s)"

lemma start_ends_fail: "idle s \<Longrightarrow> start_ends s0 (fail e s)"
  by (simp add: start_ends_def idle_def fail_def)

lemma start_ends_launch: "idle s \<Longrightarrow> sy_pid s = sy_pid s0 \<Longrightarrow> start_ends s0 (launch env listen corefile s)"
  by (simp add: start_ends_def idle_def launch_def)

lemma idle_world [simp]: "idle (s\<lparr>sy_world := w\<rparr>) = idle s" "idle (s\<lparr>sy_mgr := (sy_mgr s)\<lparr>dm_bin := b\<rparr>\<rparr>) = idle s"
  by (simp_all add: idle_def)

lemma start_ends_write:
  "idle s \<Longrightarrow> sy_pid s = sy_pid s0 \<Longrightarrow> start_ends s0 (write_and_launch env cfg records rules listen hp s)"
  by (auto simp: write_and_launch_def Let_def start_ends_fail start_ends_launch split: prod.splits sum.splits option.splits)

lemma start_ends_Start:
  assumes "dns_inv s"
  shows "start_ends s (Start run env cfg records rules s)"
proof -
  have "idle (stopLocked s)" "sy_pid (stopLocked s) = sy_pid s"
    using dns_inv_stopLocked [OF assms] by (auto simp: idle_def dns_inv_def stopLocked_def)
  then show ?thesis
    by (auto simp: Start_def Let_def start_ends_fail start_ends_write split: prod.splits sum.splits option.splits)
qed

lemma dns_inv_Stop: "dns_inv s \<Longrightarrow> dns_inv (Stop run s)"
  using dns_inv_stopLocked [of s] by (auto simp: Stop_def Let_def dns_inv_def split: prod.splits)

lemma dns_inv_Start: "dns_inv s \<Longrightarrow> dns_inv (fst (Start run env cfg records rules s))"
  using start_ends_Start [of s run env cfg records rules]
  by (auto simp: start_ends_def dns_inv_def split: option.splits)

lemma dns_inv_step: "dns_step run s t \<Longrightarrow> dns_inv s \<Longrightarrow> dns_inv t"
proof (induction rule: dns_step.induct)
  case (apply_step s env cfg records rules)
  then show ?case by (simp add: ManagerApply_def dns_inv_Stop dns_inv_Start)
next
  case (stop_step s)
  then show ?case by (rule dns_inv_Stop)
next
  case (exit_step pid s)
  then show ?case by (auto simp: dns_inv_def)
next
  case (watch_step pid s err)
  then show ?case by (auto simp: dns_inv_def watchProcess_def split: option.splits)
qed

interpretation resolver: kept_by_steps "dns_step run" dns_inv for run
  by unfold_locales (rule dns_inv_step)

text \<open>
  One resolver at a time: however starts, stops, dying processes and late watchers interleave from a
  fresh manager, at most the process whose command the manager holds is alive, and the manager
  says it is running exactly when it holds one; a watcher of an earlier process changes
  nothing.
\<close>

theorem single_resolver:
  assumes "(dns_step run)\<^sup>*\<^sup>* \<lparr>sy_mgr = NewManager dataDir bin iface, sy_world = wd, sy_db = d, sy_procs = {}, sy_pid = n\<rparr> s"
  shows "sy_procs s \<subseteq> set_option (dm_cmd (sy_mgr s)) \<and> (dm_running (sy_mgr s) \<longleftrightarrow> dm_cmd (sy_mgr s) \<noteq> None)"
  using resolver.steps_keep [OF assms] by (simp add: dns_inv_def NewManager_def)

text \<open>
  A start is all or nothing: it ends with exactly one new process and no error, or with an
  error and no process, also the one that ran before; in the first case the \<open>Corefile\<close> on disk
  is the one rendered for the listen address and the files just written.
\<close>

theorem start_outcome:
  assumes "dns_inv s"
  shows "case Start run env cfg records rules s of
      (t, None) \<Rightarrow> sy_procs t = {sy_pid s} \<and> dm_running (sy_mgr t)
        \<and> (\<exists>host port files. splitListenAddr (trim (ds_listen_addr cfg)) = Inr (host, port)
            \<and> wd_fs (sy_world t) (dm_corefile (sy_mgr t)) = Some (renderCorefile host port cfg files))
    | (t, Some e) \<Rightarrow> sy_procs t = {} \<and> \<not> dm_running (sy_mgr t)"
proof -
  have "\<exists>host port files. splitListenAddr (trim (ds_listen_addr cfg)) = Inr (host, port)
      \<and> wd_fs (sy_world t) (dm_corefile (sy_mgr t)) = Some (renderCorefile host port cfg files)"
    if "Start run env cfg records rules s = (t, None)" for t
    using that
    by (auto simp: Start_def Let_def fail_def write_and_launch_def launch_def write_file_def
        split: prod.splits sum.splits option.splits if_splits)
  then show ?thesis
    using start_ends_Start [OF assms, of run env cfg records rules]
    by (auto simp: start_ends_def split: prod.splits option.splits)
qed

section \<open>Two hosts stanzas\<close>

text \<open>
  Block list and rewrites together give a Corefile CoreDNS does not take: when both a block file and a
  rewrite file are given, the root server block holds two \<open>hosts\<close> stanzas, and the plugin may
  be used once per server block.
\<close>

theorem corefile_two_hosts:
  assumes "trim (zf_block files) \<noteq> []" and "trim (zf_rewrite files) \<noteq> []"
  shows "\<exists>pre post. root_stanza host port cfg files =
      pre @ [''    hosts '' @ zf_block files @ '' {'', ''        fallthrough'', ''    }'',
             ''    hosts '' @ zf_rewrite files @ '' {'', ''        fallthrough'', ''    }''] @ post
    \<and> renderCorefile host port cfg files
        = unlines (corefile_head # concat (map (zone_stanza host port) (zf_zones files)) @ root_stanza host port cfg files)"
proof -
  let ?up = "if trim (ds_upstreams cfg) = [] then ''1.1.1.1 1.0.0.1'' else trim (ds_upstreams cfg)"
  let ?ttl = "if ds_cache_ttl cfg \<le> 0 then 300 else ds_cache_ttl cfg"
  have "root_stanza host port cfg files =
      ([''.:'' @ port @ '' {''] @ bind_lines host) @ [''    hosts '' @ zf_block files @ '' {'', ''        fallthrough'', ''    }'',
             ''    hosts '' @ zf_rewrite files @ '' {'', ''        fallthrough'', ''    }'']
      @ [''    forward . '' @ ?up, ''    cache '' @ itoa ?ttl]
      @ (if ds_query_log cfg then [''    log''] else []) @ [''    errors'', ''}'']"
    using assms by (simp add: root_stanza_def hosts_stanza_def Let_def)
  then show ?thesis unfolding renderCorefile_def by blast
qed

section \<open>Witnesses\<close>

lemma corefile_two_hosts_witness:
  "\<exists>pre post. root_stanza ''10.8.0.1'' ''53'' DefaultDNSSettings \<lparr>zf_block = ''b'', zf_rewrite = ''h'', zf_zones = []\<rparr> =
      pre @ [''    hosts b {'', ''        fallthrough'', ''    }'', ''    hosts h {'', ''        fallthrough'', ''    }''] @ post"
proof -
  have "trim ''b'' \<noteq> []" "trim ''h'' \<noteq> []" by (simp_all add: str_eval)
  then show ?thesis
    using corefile_two_hosts [of "\<lparr>zf_block = ''b'', zf_rewrite = ''h'', zf_zones = []\<rparr>" "''10.8.0.1''" "''53''" DefaultDNSSettings]
    by auto
qed

definition ex_sys :: "unit dns_sys" where
  "ex_sys = \<lparr>sy_mgr = NewManager ''/d'' ''/bin/coredns'' ''wg0'', sy_world = \<lparr>wd_fs = Map.empty, wd_machine = ()\<rparr>, sy_db = db_empty,
     sy_procs = {}, sy_pid = 7\<rparr>"

definition ex_env :: dns_env where
  "ex_env = \<lparr>de_ord = rev, de_http = (\<lambda>_. Inl ErrNoRows), de_fresh = (\<lambda>_. False), de_wfail = (\<lambda>_. False), de_mkfail = (\<lambda>_. False),
     de_stat = (\<lambda>_. None), de_lookpath = (\<lambda>_. None), de_start_fails = False\<rparr>"

definition ex_dns_run :: "unit run" where
  "ex_dns_run argv wd = (wd, \<lparr>o_ok = True, o_stdout = [], o_stderr = [], o_err = [], o_timeout = False\<rparr>)"

lemma single_resolver_witness:
  "dm_running (sy_mgr (Stop ex_dns_run ex_sys)) \<longleftrightarrow> dm_cmd (sy_mgr (Stop ex_dns_run ex_sys)) \<noteq> None"
proof -
  have "(dns_step ex_dns_run)\<^sup>*\<^sup>* ex_sys (Stop ex_dns_run ex_sys)" by (rule r_into_rtranclp) (rule stop_step)
  from single_resolver [OF this [unfolded ex_sys_def]] show ?thesis by (simp add: ex_sys_def)
qed

lemma start_outcome_witness:
  "sy_procs (fst (Start ex_dns_run ex_env DefaultDNSSettings [] [] (ex_sys\<lparr>sy_procs := {3}, sy_mgr := (sy_mgr ex_sys)\<lparr>dm_cmd := Some 3, dm_running := True\<rparr>\<rparr>))) = {}"
proof -
  let ?s = "ex_sys\<lparr>sy_procs := {3}, sy_mgr := (sy_mgr ex_sys)\<lparr>dm_cmd := Some 3, dm_running := True\<rparr>\<rparr>"
  let ?r = "Start ex_dns_run ex_env DefaultDNSSettings [] [] ?s"
  have inv: "dns_inv ?s" by (simp add: dns_inv_def ex_sys_def)
  have "or_default ''coredns'' x = ''coredns''" for x by (simp add: or_default_def default_texts)
  then have "resolveCoreDNSBinary ex_env (or_default (ds_binary DefaultDNSSettings) x)
      = Inl (ErrMsg ''CoreDNS binary not found on PATH'')" for x
    by (simp add: resolveCoreDNSBinary_def DefaultDNSSettings_def default_texts has_prefix_def ex_env_def)
  then have "snd ?r = Some (ErrMsg ''CoreDNS binary not found on PATH'')" by (simp add: Start_def fail_def Let_def)
  then obtain t where r: "?r = (t, Some (ErrMsg ''CoreDNS binary not found on PATH''))" by (metis prod.collapse)
  from start_outcome [OF inv, where run = ex_dns_run and env = ex_env and cfg = DefaultDNSSettings and records = "[]" and rules = "[]"]
  have "sy_procs t = {}" unfolding r by simp
  then show ?thesis unfolding r by simp
qed

end
