(* ===== verification/Backup.thy ===== *)
theory Backup
  imports Wg_Apply "HOL-Library.Product_Lexorder"
begin

text \<open>
  The backup of a server, \<open>internal/wireguard/backup.go\<close>: what is exported, and how a backup is
  restored. The backup is the Go value \<open>BackupFile\<close>; its text and its encryption are those of
  \<open>Backup_Crypto\<close>, and the raw VPN configuration is kept decoded, as in the
  database. \<open>derive\<close> is the third-party derivation of a public key, \<open>uid\<close> and \<open>gid\<close> the fresh
  keys of the rows a restore inserts.
\<close>

section \<open>The backup\<close>

record backup_server =
  bk_name :: string
  bk_protocol :: string
  bk_host :: string
  bk_port :: int
  bk_private_key :: string
  bk_public_key :: string

record backup_peer =
  bp_username :: string
  bp_allowed_ips :: string
  bp_private_key :: string
  bp_public_key :: string
  bp_preshared_key :: string
  bp_enabled :: bool
  bp_remaining_days :: "int option"
  bp_remaining_traffic :: "int option"
  bp_endpoint :: string
  bp_last_handshake :: string
  bp_bytes_received :: int
  bp_bytes_sent :: int
  bp_total_received :: int
  bp_total_sent :: int
  bp_connected :: bool
  bp_connected_at :: string

record backup_pcq =
  bq_download :: "int option"
  bq_upload :: "int option"
  bq_burst_download :: "int option"
  bq_burst_upload :: "int option"
  bq_classifier :: string
  bq_disabled :: bool

record backup_group =
  bg_name :: string
  bg_description :: string
  bg_members :: "string list"
  bg_pcq :: "backup_pcq option"

record backup_file =
  bf_version :: int
  bf_exported_at :: string
  bf_config :: "wgconf option"
  bf_server :: backup_server
  bf_peers :: "backup_peer list"
  bf_groups :: "backup_group list"

section \<open>Export\<close>

definition null_str :: "string option \<Rightarrow> string" where
  "null_str s = (case s of None \<Rightarrow> [] | Some x \<Rightarrow> x)"

definition to_peer :: "vpn_user \<Rightarrow> backup_peer" where
  "to_peer u =
     \<lparr>bp_username = u_username u, bp_allowed_ips = null_str (u_allowed_ips u),
      bp_private_key = null_str (u_private_key u), bp_public_key = null_str (u_public_key u),
      bp_preshared_key = null_str (u_preshared_key u), bp_enabled = u_is_enabled u,
      bp_remaining_days = u_remaining_days u, bp_remaining_traffic = u_remaining_traffic u,
      bp_endpoint = null_str (u_endpoint u), bp_last_handshake = null_str (u_last_handshake u),
      bp_bytes_received = u_bytes_received u, bp_bytes_sent = u_bytes_sent u,
      bp_total_received = u_total_bytes_received u, bp_total_sent = u_total_bytes_sent u,
      bp_connected = u_is_connected u, bp_connected_at = null_str (u_connected_at u)\<rparr>"

definition wg_users :: "db \<Rightarrow> vpn_user list" where
  "wg_users d = filter (\<lambda>u. u_server_id u = ''wireguard'') (users d)"

definition exportPeers :: "db \<Rightarrow> backup_peer list" where
  "exportPeers d = map to_peer (sort_key u_username (wg_users d))"

text \<open>
  The rows of the two outer joins: a group without members has one row, with NULL for the name
  of the user; NULL sorts first.
\<close>

definition member_names :: "db \<Rightarrow> string \<Rightarrow> string option list" where
  "member_names d gi =
     (let ms = filter (\<lambda>m. m_group m = gi) (members d) in
      if ms = [] then [None] else map (\<lambda>m. map_option u_username (find_user (m_user m) d)) ms)"

definition group_rows :: "db \<Rightarrow> (string \<times> string \<times> string option) list" where
  "group_rows d =
     sort_key (\<lambda>(name, desc, user). (name, case user of None \<Rightarrow> (0 :: nat, []) | Some n \<Rightarrow> (1, n)))
       (concat (map (\<lambda>g. map (\<lambda>user. (g_name g, null_str (g_description g), user)) (member_names d (g_id g))) (groups d)))"

fun add_group_row :: "backup_group list \<Rightarrow> string \<times> string \<times> string \<Rightarrow> backup_group list" where
  "add_group_row [] (name, desc, user) =
     [\<lparr>bg_name = name, bg_description = desc, bg_members = (if trim user = [] then [] else [user]), bg_pcq = None\<rparr>]"
| "add_group_row (g # gs) (name, desc, user) =
     (if bg_name g = name
      then g\<lparr>bg_members := bg_members g @ (if trim user = [] then [] else [user])\<rparr> # gs
      else g # add_group_row gs (name, desc, user))"

fun scan_groups :: "backup_group list \<Rightarrow> (string \<times> string \<times> string option) list \<Rightarrow> backup_group list res" where
  "scan_groups gs [] = Inr gs"
| "scan_groups gs ((name, desc, user) # rows) =
     (case user of
        None \<Rightarrow> Inl (ErrNullScan ''username'')
      | Some u \<Rightarrow> scan_groups (add_group_row gs (name, desc, u)) rows)"

definition loadGroupPCQ :: "db \<Rightarrow> string \<Rightarrow> backup_pcq option" where
  "loadGroupPCQ d name =
     (case find (\<lambda>q. \<exists>g \<in> set (groups d). g_id g = q_group q \<and> g_name g = name) (pcqs d) of
        None \<Rightarrow> None
      | Some q \<Rightarrow> Some \<lparr>bq_download = q_download q, bq_upload = q_upload q, bq_burst_download = q_burst_download q,
          bq_burst_upload = q_burst_upload q, bq_classifier = q_classifier q, bq_disabled = q_disabled q\<rparr>)"

definition exportGroups :: "db \<Rightarrow> backup_group list res" where
  "exportGroups d =
     bindR (scan_groups [] (group_rows d)) (\<lambda>gs. Inr (map (\<lambda>g. g\<lparr>bg_pcq := loadGroupPCQ d (bg_name g)\<rparr>) gs))"

definition ExportBackup :: "string \<Rightarrow> db \<Rightarrow> backup_file res" where
  "ExportBackup stamp d =
     (case sc_config (GetSystemConfig d) of
        None \<Rightarrow> Inl (ErrMsg ''wireguard is not configured'')
      | Some w \<Rightarrow>
          (case find_server ''wireguard'' d of
             None \<Rightarrow> Inl (ErrWrap ''wireguard server record'' ErrNoRows)
           | Some s \<Rightarrow>
               bindR (exportGroups d) (\<lambda>gs. Inr
                 \<lparr>bf_version = 1, bf_exported_at = stamp, bf_config = Some w,
                  bf_server = \<lparr>bk_name = s_name s, bk_protocol = s_protocol s, bk_host = s_host s,
                    bk_port = (case s_port s of None \<Rightarrow> 0 | Some p \<Rightarrow> p),
                    bk_private_key = null_str (s_private_key s), bk_public_key = null_str (s_public_key s)\<rparr>,
                  bf_peers = exportPeers d, bf_groups = gs\<rparr>)))"

section \<open>Restore\<close>

definition nullStr :: "string \<Rightarrow> string option" where
  "nullStr s = (if trim s = [] then None else Some (trim s))"

definition defaultClassifier :: "string \<Rightarrow> string" where
  "defaultClassifier c = (if trim c = [] then ''dual'' else trim c)"

definition restoreServer :: "(string \<Rightarrow> string option) \<Rightarrow> string \<Rightarrow> wgconf \<Rightarrow> backup_server \<Rightarrow> db \<Rightarrow> db res" where
  "restoreServer derive dataDir cfg srv d =
     (let host = (if trim (w_server_host cfg) = [] then trim (bk_host srv) else trim (w_server_host cfg));
          port = (if w_server_port cfg = 0 then bk_port srv else w_server_port cfg);
          priv = trim (bk_private_key srv) in
      if priv \<noteq> [] then
        (case derive priv of
           None \<Rightarrow> Inl (ErrMsg ''invalid server private key in backup'')
         | Some pub \<Rightarrow>
             Inr (d\<lparr>servers := upd_where (\<lambda>s. s_id s = ''wireguard'')
               (\<lambda>s. s\<lparr>s_host := host, s_port := Some port, s_private_key := Some priv, s_public_key := Some pub\<rparr>)
               (servers d)\<rparr>))
      else if ''wireguard'' \<in> s_id ` set (servers d) then
        Inr (d\<lparr>servers := upd_where (\<lambda>s. s_id s = ''wireguard'')
          (\<lambda>s. s\<lparr>s_host := host, s_port := Some port, s_config_path := Some (path_join dataDir ''wg0.conf''), s_is_active := True\<rparr>)
          (servers d)\<rparr>)
      else
        Inr (d\<lparr>servers := servers d @ [\<lparr>s_id = ''wireguard'', s_name = ''WireGuard Server'', s_protocol = ''wireguard'',
          s_host = host, s_port = Some port, s_config_path = Some (path_join dataDir ''wg0.conf''), s_is_active = True,
          s_private_key = None, s_public_key = None\<rparr>]\<rparr>))"

text \<open>The row a restored peer becomes, from a new row or the row that has its name.\<close>

definition peer_row :: "backup_peer \<Rightarrow> vpn_user \<Rightarrow> vpn_user" where
  "peer_row p u =
     u\<lparr>u_allowed_ips := Some (trim (bp_allowed_ips p)),
       u_private_key := (case nullStr (bp_private_key p) of None \<Rightarrow> u_private_key u | Some k \<Rightarrow> Some k),
       u_public_key := Some (trim (bp_public_key p)),
       u_preshared_key := nullStr (bp_preshared_key p),
       u_remaining_days := bp_remaining_days p,
       u_remaining_traffic := bp_remaining_traffic p,
       u_endpoint := nullStr (bp_endpoint p),
       u_last_handshake := nullStr (bp_last_handshake p),
       u_bytes_received := bp_bytes_received p,
       u_bytes_sent := bp_bytes_sent p,
       u_total_bytes_received := bp_total_received p,
       u_total_bytes_sent := bp_total_sent p,
       u_is_connected := bp_connected p,
       u_connected_at := nullStr (bp_connected_at p),
       u_server_id := ''wireguard'',
       u_is_enabled := bp_enabled p\<rparr>"

definition peer_name :: "backup_peer \<Rightarrow> string" where
  "peer_name p = (if trim (bp_username p) = [] then trim (bp_public_key p) else trim (bp_username p))"

text \<open>\<open>i\<close> is the identifier that \<open>NewID\<close> draws; a sequence of them supplies a whole restore.\<close>

definition restorePeer :: "string \<Rightarrow> backup_peer \<Rightarrow> db \<Rightarrow> db res" where
  "restorePeer i p d =
     (let username = peer_name p in
      if trim (bp_public_key p) = [] \<or> trim (bp_allowed_ips p) = [] then Inr d
      else if i \<in> u_id ` set (users d) then Inl (ErrConstraint ''vpn_users.id'')
      else if ''wireguard'' \<notin> s_id ` set (servers d) then Inl (ErrConstraint ''FOREIGN KEY'')
      else if username \<in> u_username ` set (users d) then
        Inr (d\<lparr>users := upd_where (\<lambda>u. u_username u = username) (peer_row p) (users d)\<rparr>)
      else Inr (d\<lparr>users := users d @ [peer_row p (user_row i username ''wireguard'')]\<rparr>))"

fun restore_peers :: "(nat \<Rightarrow> string) \<Rightarrow> backup_peer list \<Rightarrow> db \<Rightarrow> db res" where
  "restore_peers uid [] d = Inr d"
| "restore_peers uid (p # ps) d = bindR (restorePeer (uid 0) p d) (restore_peers (uid \<circ> Suc) ps)"

definition find_user_named :: "string \<Rightarrow> db \<Rightarrow> vpn_user option" where
  "find_user_named n d = find (\<lambda>u. u_username u = n) (users d)"

fun restore_members :: "string \<Rightarrow> string list \<Rightarrow> db \<Rightarrow> db \<times> goerr option" where
  "restore_members gi [] d = (d, None)"
| "restore_members gi (m # ms) d =
     (case (if trim m = [] then None else find_user_named (trim m) d) of
        None \<Rightarrow> restore_members gi ms d
      | Some u \<Rightarrow>
          (case insert_member gi (u_id u) d of
             Inl e \<Rightarrow> (d, Some e)
           | Inr d' \<Rightarrow> restore_members gi ms d'))"

definition restore_pcq :: "string \<Rightarrow> backup_pcq option \<Rightarrow> db \<Rightarrow> db \<times> goerr option" where
  "restore_pcq gi pcq d =
     (case pcq of
        None \<Rightarrow> (d, None)
      | Some p \<Rightarrow>
          (case upsert_pcq \<lparr>q_group = gi, q_download = bq_download p, q_upload = bq_upload p,
                  q_burst_download = bq_burst_download p, q_burst_upload = bq_burst_upload p,
                  q_classifier = defaultClassifier (bq_classifier p), q_disabled = bq_disabled p\<rparr> d of
             Inl e \<Rightarrow> (d, Some e)
           | Inr d' \<Rightarrow> (d', None)))"

definition upsert_group_named :: "string \<Rightarrow> string \<Rightarrow> string \<Rightarrow> db \<Rightarrow> db res" where
  "upsert_group_named i name desc d =
     (if i \<in> g_id ` set (groups d) then Inl (ErrConstraint ''vpn_groups.id'')
      else if name \<in> g_name ` set (groups d) then
        Inr (d\<lparr>groups := upd_where (\<lambda>g. g_name g = name) (\<lambda>g. g\<lparr>g_description := Some desc\<rparr>) (groups d)\<rparr>)
      else Inr (d\<lparr>groups := groups d @ [\<lparr>g_id = i, g_name = name, g_description = Some desc\<rparr>]\<rparr>))"

definition restore_group :: "string \<Rightarrow> backup_group \<Rightarrow> db \<Rightarrow> db \<times> goerr option" where
  "restore_group i g d =
     (let name = trim (bg_name g) in
      if name = [] then (d, None)
      else
        (case upsert_group_named i name (trim (bg_description g)) d of
           Inl e \<Rightarrow> (d, Some e)
         | Inr d1 \<Rightarrow>
             (case find (\<lambda>x. g_name x = name) (groups d1) of
                None \<Rightarrow> (d1, Some ErrNoRows)
              | Some x \<Rightarrow>
                  (case restore_members (g_id x) (bg_members g) d1 of
                     (d2, Some e) \<Rightarrow> (d2, Some e)
                   | (d2, None) \<Rightarrow> restore_pcq (g_id x) (bg_pcq g) d2))))"

fun restoreGroups :: "(nat \<Rightarrow> string) \<Rightarrow> backup_group list \<Rightarrow> db \<Rightarrow> db \<times> goerr option" where
  "restoreGroups gid [] d = (d, None)"
| "restoreGroups gid (g # gs) d =
     (case restore_group (gid 0) g d of
        (d1, Some e) \<Rightarrow> (d1, Some e)
      | (d1, None) \<Rightarrow> restoreGroups (gid \<circ> Suc) gs d1)"

definition clear_peers :: "bool \<Rightarrow> db \<Rightarrow> db" where
  "clear_peers replace d =
     (if replace then
        (let gone = u_id ` {u \<in> set (users d). u_server_id u = ''wireguard''} in
         d\<lparr>users := filter (\<lambda>u. u_server_id u \<noteq> ''wireguard'') (users d),
           members := filter (\<lambda>m. m_user m \<notin> gone) (members d)\<rparr>)
      else d)"

definition clear_groups :: "bool \<Rightarrow> db \<Rightarrow> db" where
  "clear_groups replace d = (if replace then d\<lparr>members := [], pcqs := [], groups := []\<rparr> else d)"

record restore_env =
  re_derive :: "string \<Rightarrow> string option"
  re_uid :: "nat \<Rightarrow> string"
  re_gid :: "nat \<Rightarrow> string"
  re_begin_fails :: bool
  re_commit_fails :: bool

definition restore_tx :: "restore_env \<Rightarrow> bool \<Rightarrow> bool \<Rightarrow> backup_peer list \<Rightarrow> db \<Rightarrow> db res" where
  "restore_tx env replacePeers replaceGroups ps d =
     (if re_begin_fails env then Inl (ErrIO ''begin'')
      else bindR (restore_peers (re_uid env) ps (clear_groups replaceGroups (clear_peers replacePeers d)))
        (\<lambda>d'. if re_commit_fails env then Inl (ErrIO ''commit'') else Inr d'))"

definition restore_db :: "restore_env \<Rightarrow> string \<Rightarrow> backup_file \<Rightarrow> bool \<Rightarrow> bool \<Rightarrow> db \<Rightarrow> db \<times> goerr option" where
  "restore_db env dataDir file replacePeers replaceGroups d =
     (if bf_version file \<noteq> 1 then (d, Some (ErrMsg (''unsupported backup version '' @ itoa (bf_version file))))
      else case bf_config file of
        None \<Rightarrow> (d, Some (ErrMsg ''backup is missing vpn configuration''))
      | Some cfg \<Rightarrow>
          if trim (bk_host (bf_server file)) = [] then (d, Some (ErrMsg ''backup is missing server host''))
          else
            (let d1 = UpsertSystemConfig True cfg d in
             case restoreServer (re_derive env) dataDir cfg (bf_server file) d1 of
               Inl e \<Rightarrow> (d1, Some e)
             | Inr d2 \<Rightarrow>
                 (case restore_tx env replacePeers replaceGroups (bf_peers file) d2 of
                    Inl e \<Rightarrow> (d2, Some e)
                  | Inr d3 \<Rightarrow> restoreGroups (re_gid env) (bf_groups file) d3)))"

definition RestoreBackup ::
  "'m run \<Rightarrow> write_io \<Rightarrow> string \<Rightarrow> restore_env \<Rightarrow> string \<Rightarrow> string \<Rightarrow> backup_file \<Rightarrow> bool \<Rightarrow> bool
   \<Rightarrow> db \<times> 'm world \<Rightarrow> (db \<times> 'm world) \<times> goerr option" where
  "RestoreBackup run io stamp env dataDir configuredInterface file replacePeers replaceGroups st =
     (let (d, wd) = st in
      case restore_db env dataDir file replacePeers replaceGroups d of
        (d', Some e) \<Rightarrow> ((d', wd), Some e)
      | (d', None) \<Rightarrow>
          (case WriteWireGuardConfig io stamp d' dataDir (wd_fs wd) of
             (fs', Some e) \<Rightarrow> ((d', wd\<lparr>wd_fs := fs'\<rparr>), Some e)
           | (fs', None) \<Rightarrow>
               (case RestartConfig run dataDir configuredInterface (wd\<lparr>wd_fs := fs'\<rparr>) of
                  (wd', e) \<Rightarrow> ((d', wd'), e))))"


section \<open>A restore keeps the database whole\<close>

lemma ids_upd_where: "(\<And>u. k (f u) = k u) \<Longrightarrow> k ` set (upd_where P f us) = k ` set us"
  by (rule image_upd_where) simp

lemma distinct_upd_where: "(\<And>u. k (f u) = k u) \<Longrightarrow> distinct_on k (upd_where P f us) \<longleftrightarrow> distinct_on k us"
  by (simp add: distinct_on_def map_upd_where)

lemma db_ok_servers:
  assumes "db_ok d" and "distinct_on s_id ss" and "s_id ` set (servers d) \<subseteq> s_id ` set ss"
  shows "db_ok (d\<lparr>servers := ss\<rparr>)"
proof -
  have "\<forall>u \<in> set (users d). u_server_id u \<in> s_id ` set ss" using assms(1,3) unfolding db_ok_def refs_ok_def by blast
  then show ?thesis using assms(1,2) by (simp add: db_defs)
qed

lemma db_ok_restoreServer:
  assumes "db_ok d" and "restoreServer derive dataDir cfg srv d = Inr d'"
  shows "db_ok d'"
proof -
  have upd: "db_ok (d\<lparr>servers := upd_where P f (servers d)\<rparr>)" if "\<And>s. s_id (f s) = s_id s" for P f
    using assms(1) that by (intro db_ok_servers) (simp_all add: distinct_upd_where ids_upd_where db_defs)
  have new: "db_ok (d\<lparr>servers := servers d @ [x]\<rparr>)" if "s_id x \<notin> s_id ` set (servers d)" for x
    using assms(1) that by (intro db_ok_servers) (auto simp: distinct_on_append1 db_defs)
  show ?thesis
    using assms(2) unfolding restoreServer_def Let_def
    by (auto split: if_split_asm option.split_asm intro!: upd new)
qed

lemma db_ok_clear_peers:
  assumes "db_ok d"
  shows "db_ok (clear_peers r d)"
proof (cases r)
  case True
  let ?gone = "u_id ` {u \<in> set (users d). u_server_id u = ''wireguard''}"
  let ?us = "filter (\<lambda>u. u_server_id u \<noteq> ''wireguard'') (users d)"
  let ?ms = "filter (\<lambda>m. m_user m \<notin> ?gone) (members d)"
  have "m_group m \<in> g_id ` set (groups d) \<and> m_user m \<in> u_id ` set ?us" if "m \<in> set ?ms" for m
  proof -
    have m: "m \<in> set (members d)" "m_user m \<notin> ?gone" using that by auto
    then obtain u where u: "u \<in> set (users d)" "m_user m = u_id u" "m_group m \<in> g_id ` set (groups d)"
      using assms unfolding db_ok_def refs_ok_def by blast
    then have "u \<in> set ?us" using m(2) by auto
    then show ?thesis using u by blast
  qed
  then show ?thesis using assms True by (auto simp: clear_peers_def Let_def db_ok_def keys_ok_def refs_ok_def)
next
  case False
  then show ?thesis using assms by (simp add: clear_peers_def)
qed

lemma db_ok_clear_groups: "db_ok d \<Longrightarrow> db_ok (clear_groups r d)"
  by (auto simp: clear_groups_def db_defs distinct_on_def)

lemma peer_row_keys [simp]:
  "u_id (peer_row p u) = u_id u" "u_username (peer_row p u) = u_username u" "u_server_id (peer_row p u) = ''wireguard''"
  by (simp_all add: peer_row_def)

text \<open>\<open>INSERT ... ON CONFLICT(username) DO UPDATE\<close> with values that keep key and name of a row.\<close>

lemma db_ok_upsert_named:
  assumes "db_ok d" and "i \<notin> u_id ` set (users d)" and srv: "srv \<in> s_id ` set (servers d)"
    and f: "\<And>u. u_id (f u) = u_id u" "\<And>u. u_username (f u) = u_username u" "\<And>u. u_server_id (f u) = srv"
  shows "name \<in> u_username ` set (users d) \<Longrightarrow> db_ok (d\<lparr>users := upd_where (\<lambda>u. u_username u = name) f (users d)\<rparr>)"
    and "name \<notin> u_username ` set (users d) \<Longrightarrow> db_ok (d\<lparr>users := users d @ [f (user_row i name srv)]\<rparr>)"
proof -
  let ?us = "upd_where (\<lambda>u. u_username u = name) f (users d)"
  have "\<forall>u \<in> set ?us. u_server_id u \<in> s_id ` set (servers d)"
    using assms(1) srv by (auto simp: set_upd_where db_defs f)
  moreover have "u_id ` set ?us = u_id ` set (users d)" by (rule ids_upd_where) (simp add: f)
  ultimately show "db_ok (d\<lparr>users := ?us\<rparr>)" using assms(1) by (auto simp: db_defs distinct_upd_where f)
next
  assume "name \<notin> u_username ` set (users d)"
  then show "db_ok (d\<lparr>users := users d @ [f (user_row i name srv)]\<rparr>)"
    using assms(1,2) srv by (auto simp: db_defs distinct_on_append1 f) (auto simp: user_row_def)
qed

lemma db_ok_restorePeer:
  assumes "db_ok d" and "restorePeer i p d = Inr d'"
  shows "db_ok d'"
proof (cases "trim (bp_public_key p) = [] \<or> trim (bp_allowed_ips p) = []")
  case True
  then show ?thesis using assms by (simp add: restorePeer_def)
next
  case False
  then have "''wireguard'' \<in> s_id ` set (servers d)" and "i \<notin> u_id ` set (users d)"
    using assms(2) by (auto simp: restorePeer_def Let_def split: if_splits)
  note upsert = db_ok_upsert_named [OF assms(1) this(2,1), of "peer_row p" "peer_name p"]
  then show ?thesis using assms(2) False by (auto simp: restorePeer_def Let_def split: if_splits)
qed

lemma db_ok_restore_peers: "db_ok d \<Longrightarrow> restore_peers uid ps d = Inr d' \<Longrightarrow> db_ok d'"
  by (induction ps arbitrary: d uid) (auto simp: bindR_eq_Inr dest: db_ok_restorePeer)

lemma db_ok_restore_members: "db_ok d \<Longrightarrow> db_ok (fst (restore_members gi ms d))"
  by (induction gi ms d rule: restore_members.induct)
     (auto split: option.splits sum.splits if_splits dest: db_ok_insert_member)

lemma db_ok_restore_pcq: "db_ok d \<Longrightarrow> db_ok (fst (restore_pcq gi pcq d))"
  by (auto simp: restore_pcq_def split: option.splits sum.splits dest: db_ok_upsert_pcq)

lemma db_ok_upsert_group: "db_ok d \<Longrightarrow> upsert_group_named gid name desc d = Inr d' \<Longrightarrow> db_ok d'"
  by (auto simp: upsert_group_named_def db_defs ids_upd_where distinct_upd_where distinct_on_append1
      split: if_splits)

lemma db_ok_restore_group:
  assumes "db_ok d"
  shows "db_ok (fst (restore_group gid g d))"
proof (cases "upsert_group_named gid (trim (bg_name g)) (trim (bg_description g)) d")
  case (Inl e)
  then show ?thesis using assms by (simp add: restore_group_def Let_def)
next
  case (Inr d1)
  have d1: "db_ok d1" using db_ok_upsert_group [OF assms Inr] .
  show ?thesis
  proof (cases "find (\<lambda>x. g_name x = trim (bg_name g)) (groups d1)")
    case None
    then show ?thesis using Inr d1 assms by (simp add: restore_group_def Let_def)
  next
    case (Some x)
    obtain d2 e where r: "restore_members (g_id x) (bg_members g) d1 = (d2, e)" by (metis prod.exhaust)
    have "db_ok d2" using db_ok_restore_members [OF d1, of "g_id x" "bg_members g"] by (simp add: r)
    then show ?thesis
      using Inr Some r assms db_ok_restore_pcq by (cases e) (simp_all add: restore_group_def Let_def)
  qed
qed

lemma db_ok_restoreGroups: "db_ok d \<Longrightarrow> db_ok (fst (restoreGroups gid gs d))"
proof (induction gs arbitrary: d gid)
  case (Cons g gs)
  then show ?case using db_ok_restore_group [of d "gid 0" g] by (auto split: prod.splits option.splits)
qed simp

lemma db_ok_restore_tx: "db_ok d \<Longrightarrow> restore_tx env rp rg ps d = Inr d' \<Longrightarrow> db_ok d'"
  using db_ok_restore_peers [OF db_ok_clear_groups [OF db_ok_clear_peers]]
  by (auto simp: restore_tx_def bindR_eq_Inr split: if_splits)

lemma db_ok_UpsertSystemConfig: "db_ok d \<Longrightarrow> db_ok (UpsertSystemConfig c w d)"
  by (simp add: UpsertSystemConfig_def db_defs)

lemma db_ok_restore_db:
  assumes "db_ok d"
  shows "db_ok (fst (restore_db env dataDir file rp rg d))"
proof (cases "bf_config file")
  case None
  then show ?thesis using assms by (simp add: restore_db_def)
next
  case (Some cfg)
  let ?d1 = "UpsertSystemConfig True cfg d"
  have d1: "db_ok ?d1" using assms by (rule db_ok_UpsertSystemConfig)
  show ?thesis
  proof (cases "restoreServer (re_derive env) dataDir cfg (bf_server file) ?d1")
    case (Inl e)
    then show ?thesis using Some assms d1 by (simp add: restore_db_def Let_def)
  next
    case (Inr d2)
    have d2: "db_ok d2" using db_ok_restoreServer [OF d1 Inr] .
    show ?thesis
    proof (cases "restore_tx env rp rg (bf_peers file) d2")
      case (Inl e)
      then show ?thesis using Some Inr assms d2 by (simp add: restore_db_def Let_def)
    next
      case tx: (Inr d3)
      have "db_ok d3" using db_ok_restore_tx [OF d2 tx] .
      then show ?thesis using Some Inr tx assms db_ok_restoreGroups by (simp add: restore_db_def Let_def)
    qed
  qed
qed

lemma restore_whole:
  assumes "db_ok d"
  shows "db_ok (fst (fst (RestoreBackup run io stamp env dataDir iface file rp rg (d, wd))))"
proof -
  have "db_ok (fst (restore_db env dataDir file rp rg d))" by (rule db_ok_restore_db [OF assms])
  then show ?thesis by (auto simp: RestoreBackup_def Let_def split: prod.splits option.splits)
qed

text \<open>
  Whatever a backup file holds and wherever a restore stops, the database stays whole: after
  \<open>RestoreBackup\<close>, successful or not, every key is unique and every reference is to a row that
  exists.
\<close>

theorem restore_keeps_db_ok:
  assumes "db_ok d"
  shows "db_ok (fst (fst (RestoreBackup run io stamp env dataDir iface file rp rg (d, wd))))"
  using assms by (rule restore_whole)

section \<open>Groups without members\<close>

lemma scan_groups_cases:
  "scan_groups gs rows = (if \<exists>r \<in> set rows. snd (snd r) = None then Inl (ErrNullScan ''username'')
     else Inr (foldl add_group_row gs (map (\<lambda>(n, d, u). (n, d, the u)) rows)))"
  by (induction gs rows rule: scan_groups.induct) (auto split: option.splits)

lemma member_names_None:
  assumes "db_ok d"
  shows "None \<in> set (member_names d gi) \<longleftrightarrow> (\<forall>m \<in> set (members d). m_group m \<noteq> gi)"
proof -
  have "find_user (m_user m) d \<noteq> None" if "m \<in> set (members d)" for m
    using assms that find_present [of "m_user m" u_id "users d"] by (force simp: db_defs find_user_def)
  then show ?thesis by (force simp: member_names_def Let_def filter_empty_conv)
qed

lemma group_rows_None:
  assumes "db_ok d"
  shows "(\<exists>r \<in> set (group_rows d). snd (snd r) = None)
    \<longleftrightarrow> (\<exists>g \<in> set (groups d). \<forall>m \<in> set (members d). m_group m \<noteq> g_id g)"
proof -
  have "(\<exists>r \<in> set (group_rows d). snd (snd r) = None) \<longleftrightarrow> (\<exists>g \<in> set (groups d). None \<in> set (member_names d (g_id g)))"
    by (force simp: group_rows_def)
  then show ?thesis by (simp add: member_names_None [OF assms])
qed

text \<open>
  C37. One empty group blocks every backup: on a configured server, \<open>ExportBackup\<close> succeeds exactly when
  each group has a member; a group without one gives a row whose user name is NULL, and
  scanning it into a string fails.
\<close>

theorem export_fails_on_empty_group:
  assumes "db_ok d" and "sc_config (GetSystemConfig d) = Some w" and "find_server ''wireguard'' d = Some s"
  shows "if \<exists>g \<in> set (groups d). \<forall>m \<in> set (members d). m_group m \<noteq> g_id g
    then ExportBackup stamp d = Inl (ErrNullScan ''username'')
    else \<exists>file. ExportBackup stamp d = Inr file \<and> bf_peers file = exportPeers d \<and> bf_config file = Some w"
  using assms group_rows_None [OF assms(1)]
  by (auto simp: ExportBackup_def exportGroups_def scan_groups_cases)

section \<open>Round trip\<close>

definition tidy :: "string option \<Rightarrow> bool" where
  "tidy s \<longleftrightarrow> (case s of None \<Rightarrow> True | Some x \<Rightarrow> x \<noteq> [] \<and> trim x = x)"

text \<open>A user the program can have stored: named, with a key and addresses, no text padded or empty.\<close>

definition portable :: "vpn_user \<Rightarrow> bool" where
  "portable u \<longleftrightarrow> u_username u \<noteq> [] \<and> trim (u_username u) = u_username u
     \<and> u_public_key u \<noteq> None \<and> u_allowed_ips u \<noteq> None
     \<and> tidy (u_public_key u) \<and> tidy (u_allowed_ips u) \<and> tidy (u_private_key u) \<and> tidy (u_preshared_key u)
     \<and> tidy (u_endpoint u) \<and> tidy (u_last_handshake u) \<and> tidy (u_connected_at u)"

lemma nullStr_null_str: "tidy s \<Longrightarrow> nullStr (null_str s) = s"
  by (auto simp: tidy_def nullStr_def null_str_def split: option.splits)

lemma null_str_nullStr: "tidy s \<Longrightarrow> null_str (nullStr (null_str s)) = null_str s"
  by (simp add: nullStr_null_str)

lemma trim_null_str: "tidy s \<Longrightarrow> trim (null_str s) = null_str s"
  by (auto simp: tidy_def null_str_def split: option.splits)

definition restored :: "string \<Rightarrow> backup_peer \<Rightarrow> vpn_user" where
  "restored i p = peer_row p (user_row i (peer_name p) ''wireguard'')"

lemma portable_name: "portable u \<Longrightarrow> peer_name (to_peer u) = u_username u"
  by (simp add: portable_def peer_name_def to_peer_def)

lemma to_peer_restored:
  assumes "portable u"
  shows "to_peer (restored i (to_peer u)) = to_peer u"
proof -
  have "u_private_key (restored i (to_peer u)) = nullStr (null_str (u_private_key u))"
    by (auto simp: restored_def peer_row_def to_peer_def user_row_def split: option.splits)
  then have "null_str (u_private_key (restored i (to_peer u))) = null_str (u_private_key u)"
    using assms by (simp add: null_str_nullStr portable_def)
  moreover have "u_username (restored i (to_peer u)) = u_username u"
    using portable_name [OF assms] by (simp add: restored_def user_row_def)
  ultimately show ?thesis
    using assms unfolding to_peer_def [of "restored i (to_peer u)"]
    by (simp add: restored_def peer_row_def to_peer_def null_str_nullStr trim_null_str portable_def)
       (simp add: null_str_def)
qed

lemma restorePeer_new:
  assumes "portable u" and "u_username u \<notin> u_username ` set (users d)" and "i \<notin> u_id ` set (users d)"
    and "''wireguard'' \<in> s_id ` set (servers d)"
  shows "restorePeer i (to_peer u) d = Inr (d\<lparr>users := users d @ [restored i (to_peer u)]\<rparr>)"
proof -
  have "trim (bp_public_key (to_peer u)) \<noteq> []" "trim (bp_allowed_ips (to_peer u)) \<noteq> []"
    using assms(1) by (auto simp: portable_def to_peer_def tidy_def null_str_def split: option.splits)
  then show ?thesis using assms by (simp add: restorePeer_def portable_name restored_def Let_def)
qed

fun restored_all :: "(nat \<Rightarrow> string) \<Rightarrow> vpn_user list \<Rightarrow> vpn_user list" where
  "restored_all uid [] = []"
| "restored_all uid (u # us) = restored (uid 0) (to_peer u) # restored_all (uid \<circ> Suc) us"

lemma restored_keys:
  "portable u \<Longrightarrow> u_username (restored i (to_peer u)) = u_username u"
  "u_id (restored i p) = i" "u_server_id (restored i p) = ''wireguard''"
  by (simp_all add: restored_def user_row_def portable_name)

lemma restored_all_maps:
  assumes "\<forall>u \<in> set us. portable u"
  shows "map to_peer (restored_all uid us) = map to_peer us"
    and "map u_username (restored_all uid us) = map u_username us"
    and "\<forall>u \<in> set (restored_all uid us). u_server_id u = ''wireguard''"
  using assms
  by (induction us arbitrary: uid) (auto simp: to_peer_restored restored_keys)

lemma restore_peers_new:
  assumes "\<forall>u \<in> set us. portable u" and "distinct (map u_username us)" and "inj uid"
    and "\<forall>u \<in> set us. u_username u \<notin> u_username ` set (users d)" and "\<forall>i. uid i \<notin> u_id ` set (users d)"
    and "''wireguard'' \<in> s_id ` set (servers d)"
  shows "restore_peers uid (map to_peer us) d = Inr (d\<lparr>users := users d @ restored_all uid us\<rparr>)"
  using assms
proof (induction us arbitrary: d uid)
  case Nil
  then show ?case by simp
next
  case (Cons u us)
  let ?d = "d\<lparr>users := users d @ [restored (uid 0) (to_peer u)]\<rparr>"
  have name: "u_username (restored (uid 0) (to_peer u)) = u_username u" "u_id (restored (uid 0) (to_peer u)) = uid 0"
    using Cons.prems(1) portable_name [of u] by (simp_all add: restored_def user_row_def)
  have "u_username u \<notin> set (map u_username us)" using Cons.prems(2) by simp
  then have ne: "u_username v \<noteq> u_username u" if "v \<in> set us" for v using that by (metis image_eqI set_map)
  have ids: "uid (Suc i) \<noteq> uid 0" for i using Cons.prems(3) by (simp add: inj_eq)
  have "restorePeer (uid 0) (to_peer u) d = Inr ?d" using Cons.prems by (intro restorePeer_new) auto
  moreover have inj: "inj (uid \<circ> Suc)" using Cons.prems(3) by (simp add: inj_compose)
  then have "restore_peers (uid \<circ> Suc) (map to_peer us) ?d = Inr (?d\<lparr>users := users ?d @ restored_all (uid \<circ> Suc) us\<rparr>)"
    using Cons.prems ne ids by (intro Cons.IH ballI allI inj) (auto simp: name)
  ultimately show ?case by simp
qed

lemma sort_key_sorted: "sorted (map f xs) \<Longrightarrow> sort_key f xs = xs"
  by (induction xs) (auto simp: insort_is_Cons)

lemma exportPeers_restored:
  assumes "\<forall>u \<in> set us. portable u" and "sorted (map u_username us)"
    and "wg_users d = restored_all uid us"
  shows "exportPeers d = map to_peer us"
proof -
  have "exportPeers d = map to_peer (restored_all uid us)"
    unfolding exportPeers_def assms(3) using assms(2) restored_all_maps(2) [OF assms(1)] by (simp add: sort_key_sorted)
  then show ?thesis using restored_all_maps(1) [OF assms(1)] by simp
qed

lemma restoreGroups_users: "users (fst (restoreGroups gid gs d)) = users d \<and> sysconf (fst (restoreGroups gid gs d)) = sysconf d \<and> servers (fst (restoreGroups gid gs d)) = servers d"
proof -
  have m: "users (fst (restore_members gi ms d)) = users d \<and> sysconf (fst (restore_members gi ms d)) = sysconf d
      \<and> servers (fst (restore_members gi ms d)) = servers d" for gi ms d
    by (induction gi ms d rule: restore_members.induct)
       (auto simp: insert_member_def split: option.splits sum.splits if_splits)
  have p: "users (fst (restore_pcq gi q d)) = users d \<and> sysconf (fst (restore_pcq gi q d)) = sysconf d
      \<and> servers (fst (restore_pcq gi q d)) = servers d" for gi q d
    by (auto simp: restore_pcq_def upsert_pcq_def split: option.splits sum.splits if_splits)
  have g: "users (fst (restore_group i x d)) = users d \<and> sysconf (fst (restore_group i x d)) = sysconf d
      \<and> servers (fst (restore_group i x d)) = servers d" for i x d
  proof (cases "upsert_group_named i (trim (bg_name x)) (trim (bg_description x)) d")
    case (Inl e)
    then show ?thesis by (simp add: restore_group_def Let_def)
  next
    case (Inr d1)
    have d1: "users d1 = users d" "sysconf d1 = sysconf d" "servers d1 = servers d"
      using Inr by (auto simp: upsert_group_named_def split: if_splits)
    show ?thesis
    proof (cases "find (\<lambda>y. g_name y = trim (bg_name x)) (groups d1)")
      case None
      then show ?thesis using Inr d1 by (simp add: restore_group_def Let_def)
    next
      case (Some y)
      obtain d2 e where r: "restore_members (g_id y) (bg_members x) d1 = (d2, e)" by (metis prod.exhaust)
      have "users d2 = users d" "sysconf d2 = sysconf d" "servers d2 = servers d"
        using m [of "g_id y" "bg_members x" d1] d1 by (simp_all add: r)
      then show ?thesis using Inr Some r p by (cases e) (simp_all add: restore_group_def Let_def)
    qed
  qed
  show ?thesis
  proof (induction gs arbitrary: d gid)
    case (Cons x gs)
    then show ?case using g [of "gid 0" x d] by (auto split: prod.splits option.splits)
  qed simp
qed

text \<open>The address the server's row gets from a backup, and what a restore of the server changes.\<close>

definition restored_host :: "wgconf \<Rightarrow> backup_server \<Rightarrow> string" where
  "restored_host cfg srv = (if trim (w_server_host cfg) = [] then trim (bk_host srv) else trim (w_server_host cfg))"

definition restored_port :: "wgconf \<Rightarrow> backup_server \<Rightarrow> int" where
  "restored_port cfg srv = (if w_server_port cfg = 0 then bk_port srv else w_server_port cfg)"

definition server_replaced :: "(string \<Rightarrow> string option) \<Rightarrow> wgconf \<Rightarrow> backup_server \<Rightarrow> vpn_server option \<Rightarrow> bool" where
  "server_replaced derive cfg srv row \<longleftrightarrow>
     (\<exists>s. row = Some s \<and> s_host s = restored_host cfg srv \<and> s_port s = Some (restored_port cfg srv)
        \<and> (trim (bk_private_key srv) \<noteq> [] \<longrightarrow>
             s_private_key s = Some (trim (bk_private_key srv)) \<and> s_public_key s = derive (trim (bk_private_key srv))))"

lemma find_upd_key:
  assumes "\<And>r. k (f r) = k r"
  shows "find (\<lambda>r. k r = i) (upd_where (\<lambda>r. k r = i) f rs) = map_option f (find (\<lambda>r. k r = i) rs)"
  by (induction rs) (simp_all add: assms)

lemma restoreServer_row:
  assumes "restoreServer derive dataDir cfg srv d = Inr d'" and "''wireguard'' \<in> s_id ` set (servers d)"
  shows "server_replaced derive cfg srv (find_server ''wireguard'' d')"
proof -
  obtain s where s: "find (\<lambda>s. s_id s = ''wireguard'') (servers d) = Some s"
    using find_present [of "''wireguard''" s_id "servers d"] assms(2) by auto
  show ?thesis
    using assms s unfolding restoreServer_def Let_def server_replaced_def restored_host_def restored_port_def find_server_def
    by (auto simp: find_upd_key split: if_split_asm option.split_asm)
qed

lemma restoreServer_rest:
  "restoreServer derive dataDir cfg srv d = Inr d' \<Longrightarrow> d' = d\<lparr>servers := servers d'\<rparr>"
  by (auto simp: restoreServer_def Let_def split: if_splits option.splits)

text \<open>
  C29. What is exported can be restored: a backup exported from one server is restored, peers replaced, over a database that
  has the row of the WireGuard server and no other users than WireGuard's, and the server key of the backup, if any, is
  valid. Then the restored database exports the same peers, with every key, address, quota and counter, and has the same VPN
  configuration, and the server's row has the host, the port and the key pair of the backup, whatever happens to
  the groups and to writing and applying the configuration afterwards. Without the row nothing of this holds: a backup with
  a server key creates none.
\<close>

theorem backup_roundtrip:
  assumes "ExportBackup stamp d = Inr file" and "db_ok d" and "\<forall>u \<in> set (wg_users d). portable u"
    and "find_server ''wireguard'' d = Some s" and "trim (s_host s) \<noteq> []"
    and "trim (null_str (s_private_key s)) \<noteq> [] \<longrightarrow> re_derive env (trim (null_str (s_private_key s))) \<noteq> None"
    and "''wireguard'' \<in> s_id ` set (servers d0)" and "wg_users d0 = users d0"
    and "inj (re_uid env)" and "\<not> re_begin_fails env" and "\<not> re_commit_fails env"
    and "d' = fst (fst (RestoreBackup run io st env dataDir iface file True rg (d0, wd)))"
  shows "exportPeers d' = bf_peers file \<and> exportPeers d' = exportPeers d
    \<and> sc_config (GetSystemConfig d') = sc_config (GetSystemConfig d)
    \<and> server_replaced (re_derive env) (the (sc_config (GetSystemConfig d))) (bf_server file) (find_server ''wireguard'' d')
    \<and> bk_host (bf_server file) = s_host s \<and> bk_private_key (bf_server file) = null_str (s_private_key s)"
proof -
  let ?us = "sort_key u_username (wg_users d)"
  obtain w where w: "sc_config (GetSystemConfig d) = Some w" and bf: "bf_version file = 1" "bf_config file = Some w"
      "bf_peers file = exportPeers d" "bk_host (bf_server file) = s_host s"
      "bk_private_key (bf_server file) = null_str (s_private_key s)"
    using assms(1,4) by (auto simp: ExportBackup_def bindR_eq_Inr split: option.splits)
  define d1 where "d1 = UpsertSystemConfig True w d0"
  have "\<exists>d2. restoreServer (re_derive env) dataDir w (bf_server file) d1 = Inr d2"
    using assms(6) bf(5) unfolding restoreServer_def Let_def by (auto split: option.splits)
  then obtain d2 where d2: "restoreServer (re_derive env) dataDir w (bf_server file) d1 = Inr d2" by blast
  have d2': "users d2 = users d0" "sysconf d2 = sysconf d1" "''wireguard'' \<in> s_id ` set (servers d2)"
    using d2 assms(7)
    by (auto simp: restoreServer_def Let_def d1_def UpsertSystemConfig_def ids_upd_where split: if_splits option.splits)
  let ?d = "clear_groups rg (clear_peers True d2)"
  have all: "\<forall>u \<in> set (users d0). u_server_id u = ''wireguard''" using assms(8) by (auto simp: wg_users_def filter_id_conv)
  have clear: "users ?d = []" "servers ?d = servers d2" "sysconf ?d = sysconf d1"
    using all d2' by (simp_all add: clear_groups_def clear_peers_def Let_def filter_empty_conv)
  have "distinct (map u_username (wg_users d))"
    using assms(2) by (simp add: db_defs distinct_on_def wg_users_def distinct_map_filter)
  then have dist: "distinct (map u_username ?us)"
    by (metis distinct_map distinct_sort inj_on_def set_sort)
  have "restore_peers (re_uid env) (map to_peer ?us) ?d = Inr (?d\<lparr>users := users ?d @ restored_all (re_uid env) ?us\<rparr>)"
    using assms(3,9) dist d2'(3) clear by (intro restore_peers_new) auto
  then have tx: "restore_tx env True rg (bf_peers file) d2
      = Inr (?d\<lparr>users := restored_all (re_uid env) ?us\<rparr>)"
    using assms(10,11) by (simp add: restore_tx_def bf(3) exportPeers_def clear(1))
  define d4 where "d4 = fst (restoreGroups (re_gid env) (bf_groups file) (?d\<lparr>users := restored_all (re_uid env) ?us\<rparr>))"
  have d4: "users d4 = restored_all (re_uid env) ?us" "sysconf d4 = sysconf d1" "servers d4 = servers d2"
    unfolding d4_def using restoreGroups_users clear(2,3) by simp_all
  have "''wireguard'' \<in> s_id ` set (servers d1)" using assms(7) by (simp add: d1_def UpsertSystemConfig_def)
  from restoreServer_row [OF d2 this] have srv: "server_replaced (re_derive env) w (bf_server file) (find_server ''wireguard'' d4)"
    using d4(3) by (simp add: find_server_def)
  have "fst (restore_db env dataDir file True rg d0) = d4"
    using bf(1,2,4) assms(5) d2 tx by (simp add: restore_db_def Let_def d4_def flip: d1_def)
  then have "d' = d4" unfolding assms(12)
    by (auto simp: RestoreBackup_def Let_def split: prod.splits option.splits)
  moreover have port: "\<forall>u \<in> set ?us. portable u" using assms(3) by simp
  have "wg_users d4 = restored_all (re_uid env) ?us"
    using restored_all_maps(3) [OF port] unfolding wg_users_def d4 filter_id_conv by blast
  then have "exportPeers d4 = map to_peer ?us" by (intro exportPeers_restored [OF port]) simp_all
  moreover have "sc_config (GetSystemConfig d4) = Some w"
    using d4(2) by (simp add: GetSystemConfig_def d1_def UpsertSystemConfig_def)
  ultimately show ?thesis using w bf srv by (simp add: exportPeers_def)
qed

section \<open>A failed restore\<close>

definition ex_backup :: backup_file where
  "ex_backup = \<lparr>bf_version = 1, bf_exported_at = [], bf_config = Some ex_conf,
     bf_server = \<lparr>bk_name = ''wg'', bk_protocol = ''wireguard'', bk_host = ''vpn'', bk_port = 51820, bk_private_key = ''K'', bk_public_key = []\<rparr>,
     bf_peers = [to_peer ((user_row ''1'' ''bob'' ''wireguard'')\<lparr>u_public_key := Some ''P'', u_allowed_ips := Some ''10.8.0.2/32''\<rparr>)],
     bf_groups = []\<rparr>"

definition ex_restore_env :: restore_env where
  "ex_restore_env = \<lparr>re_derive = Some, re_uid = (\<lambda>i. replicate i (CHR ''u'')), re_gid = (\<lambda>i. replicate i (CHR ''g'')), re_begin_fails = False, re_commit_fails = False\<rparr>"

text \<open>
  C38. A restore is not atomic: the configuration and the server are replaced before the transaction begins. Whenever a backup
  passes the checks of its version, configuration and host and the restore then fails, at the server key or in the
  transaction of the peers and groups, the database keeps its users, groups, members and presets and has the configuration
  of the backup, marked as set up; and when the server key was valid and there is a server row, this row has the host, the
  port and the keys of the backup.
\<close>

theorem failed_restore_keeps_config:
  assumes "bf_version file = 1" and "bf_config file = Some cfg" and "trim (bk_host (bf_server file)) \<noteq> []"
    and "\<forall>d2. restoreServer (re_derive env) dataDir cfg (bf_server file) (UpsertSystemConfig True cfg d) = Inr d2 \<longrightarrow>
      (\<exists>e. restore_tx env rp rg (bf_peers file) d2 = Inl e)"
    and "restore_db env dataDir file rp rg d = (d', r)"
  shows "r \<noteq> None \<and> GetSystemConfig d' = \<lparr>sc_complete = True, sc_config = Some cfg\<rparr>
    \<and> users d' = users d \<and> groups d' = groups d \<and> members d' = members d \<and> pcqs d' = pcqs d
    \<and> ((trim (bk_private_key (bf_server file)) = [] \<or> re_derive env (trim (bk_private_key (bf_server file))) \<noteq> None)
         \<and> ''wireguard'' \<in> s_id ` set (servers d) \<longrightarrow>
       server_replaced (re_derive env) cfg (bf_server file) (find_server ''wireguard'' d'))"
proof -
  let ?d1 = "UpsertSystemConfig True cfg d" and ?srv = "bf_server file"
  have d1: "GetSystemConfig ?d1 = \<lparr>sc_complete = True, sc_config = Some cfg\<rparr>" "users ?d1 = users d" "groups ?d1 = groups d"
    "members ?d1 = members d" "pcqs ?d1 = pcqs d" "servers ?d1 = servers d"
    by (simp_all add: UpsertSystemConfig_def GetSystemConfig_def)
  show ?thesis
  proof (cases "restoreServer (re_derive env) dataDir cfg ?srv ?d1")
    case (Inl e)
    then have "trim (bk_private_key ?srv) \<noteq> [] \<and> re_derive env (trim (bk_private_key ?srv)) = None"
      by (auto simp: restoreServer_def Let_def split: if_splits option.splits)
    moreover have "d' = ?d1" "r = Some e" using Inl assms by (simp_all add: restore_db_def Let_def)
    ultimately show ?thesis using d1 by simp
  next
    case (Inr d2)
    then obtain e where "restore_tx env rp rg (bf_peers file) d2 = Inl e" using assms(4) by blast
    then have r: "d' = d2" "r = Some e" using Inr assms by (simp_all add: restore_db_def Let_def)
    obtain ss where ss: "d2 = ?d1\<lparr>servers := ss\<rparr>" using restoreServer_rest [OF Inr] by blast
    have "users d2 = users d" "groups d2 = groups d" "members d2 = members d" "pcqs d2 = pcqs d" "sysconf d2 = sysconf ?d1"
      by (simp_all add: ss UpsertSystemConfig_def)
    then show ?thesis using r d1 restoreServer_row [OF Inr] by (simp add: GetSystemConfig_def)
  qed
qed

section \<open>Witnesses\<close>

definition ex_bk_user :: vpn_user where
  "ex_bk_user = (ex_user ''u1'' ''alice'' ''10.8.0.2/32'')\<lparr>u_public_key := Some ''P'', u_remaining_traffic := Some 7\<rparr>"

definition ex_bk_db :: db where
  "ex_bk_db = ex_db\<lparr>users := [ex_bk_user]\<rparr>"

definition ex_io :: write_io where
  "ex_io = \<lparr>io_write_fails = None, io_rename_fails = False\<rparr>"

lemmas ex_bk_defs = ex_bk_db_def ex_db_def ex_bk_user_def ex_user_def user_row_def ex_server_def db_empty_def

lemma ex_bk_ok: "db_ok ex_bk_db" "db_ok (ex_bk_db\<lparr>groups := [\<lparr>g_id = ''g'', g_name = ''staff'', g_description = None\<rparr>]\<rparr>)"
  by (simp_all add: ex_bk_defs db_defs distinct_on_def)

lemma ex_bk_config:
  "sc_config (GetSystemConfig (ex_bk_db\<lparr>groups := gs\<rparr>)) = Some ex_conf"
  "find_server ''wireguard'' (ex_bk_db\<lparr>groups := gs\<rparr>) = Some ex_server"
  "sc_config (GetSystemConfig ex_bk_db) = Some ex_conf" "find_server ''wireguard'' ex_bk_db = Some ex_server"
  by (simp_all add: ex_bk_defs GetSystemConfig_def find_server_def)

lemma restore_keeps_db_ok_witness:
  "db_ok (fst (fst (RestoreBackup ex_run ex_io ''t'' ex_restore_env ''/d'' ''wg0'' ex_backup True True (ex_bk_db, ex_world))))"
  by (rule restore_keeps_db_ok [OF ex_bk_ok(1)])

lemma export_fails_on_empty_group_witness:
  "ExportBackup ''t'' (ex_bk_db\<lparr>groups := [\<lparr>g_id = ''g'', g_name = ''staff'', g_description = None\<rparr>]\<rparr>)
     = Inl (ErrNullScan ''username'')"
  using export_fails_on_empty_group [OF ex_bk_ok(2) ex_bk_config(1,2), of "''t''"]
  by (simp add: ex_bk_db_def ex_db_def db_empty_def)

lemma backup_roundtrip_witness:
  "\<exists>file. ExportBackup ''t'' ex_bk_db = Inr file
     \<and> exportPeers (fst (fst (RestoreBackup ex_run ex_io ''t'' ex_restore_env ''/d'' ''wg0'' file True True (ex_bk_db, ex_world))))
       = [to_peer ex_bk_user]"
proof -
  have t: "trim ''P'' = ''P''" "trim ''10.8.0.2/32'' = ''10.8.0.2/32''" "trim ''alice'' = ''alice''" "trim ''priv'' = ''priv''"
      "trim ''vpn.example.com'' = ''vpn.example.com''"
    by (rule trim_plain, simp add: plain_def ascii_space_def)+
  have wg: "wg_users ex_bk_db = [ex_bk_user]" by (simp add: wg_users_def ex_bk_defs)
  have "portable ex_bk_user" by (simp add: portable_def tidy_def ex_bk_defs t)
  moreover have "exportGroups ex_bk_db = Inr []"
    by (simp add: exportGroups_def group_rows_def ex_bk_defs)
  then obtain b where f: "ExportBackup ''t'' ex_bk_db = Inr b" "bf_peers b = exportPeers ex_bk_db"
    by (simp add: ExportBackup_def ex_bk_config)
  moreover have "exportPeers ex_bk_db = [to_peer ex_bk_user]" by (simp add: exportPeers_def wg)
  moreover have "users ex_bk_db = [ex_bk_user]" "''wireguard'' \<in> s_id ` set (servers ex_bk_db)" by (simp_all add: ex_bk_defs)
  ultimately show ?thesis
    using backup_roundtrip [OF f(1) ex_bk_ok(1) _ ex_bk_config(4) _ _ _ _ _ _ _ refl,
        of ex_restore_env ex_bk_db ex_run ex_io "''t''" "''/d''" "''wg0''" True ex_world]
    by (auto simp: wg ex_server_def null_str_def t ex_restore_env_def inj_def replicate_eq_replicate)
qed

text \<open>A commit that fails after the host of the server was changed.\<close>

definition ex_moved :: backup_file where
  "ex_moved = ex_backup\<lparr>bf_config := Some (ex_conf\<lparr>w_server_host := ''new.example.com''\<rparr>)\<rparr>"

lemma failed_restore_keeps_config_witness:
  "(case restore_db (ex_restore_env\<lparr>re_commit_fails := True\<rparr>) ''/d'' ex_moved True True ex_bk_db of
      (d', r) \<Rightarrow> r \<noteq> None \<and> users d' = [ex_bk_user] \<and> map_option s_host (find_server ''wireguard'' d') = Some ''new.example.com'')
    \<and> map_option s_host (find_server ''wireguard'' ex_bk_db) = Some ''vpn.example.com''"
proof -
  let ?env = "ex_restore_env\<lparr>re_commit_fails := True\<rparr>"
  obtain d' r where r: "restore_db ?env ''/d'' ex_moved True True ex_bk_db = (d', r)" by force
  have t: "trim ''vpn'' = ''vpn''" "trim ''K'' = ''K''" "trim ''new.example.com'' = ''new.example.com''"
    by (rule trim_plain, simp add: plain_def ascii_space_def)+
  have f: "bf_version ex_moved = 1" "bf_config ex_moved = Some (ex_conf\<lparr>w_server_host := ''new.example.com''\<rparr>)"
    "bf_server ex_moved = bf_server ex_backup"
    by (simp_all add: ex_moved_def ex_backup_def)
  have fails: "\<exists>e. restore_tx ?env True True ps d2 = Inl e" for ps d2
    by (cases "restore_peers (re_uid ?env) ps (clear_groups True (clear_peers True d2))")
       (simp_all add: restore_tx_def ex_restore_env_def)
  have h: "trim (bk_host (bf_server ex_moved)) \<noteq> []" by (simp add: f ex_backup_def t)
  have "''wireguard'' \<in> s_id ` set (servers ex_bk_db)" "users ex_bk_db = [ex_bk_user]" by (simp_all add: ex_bk_defs)
  moreover have "re_derive ?env k \<noteq> None" for k by (simp add: ex_restore_env_def)
  ultimately have "r \<noteq> None \<and> users d' = [ex_bk_user]
      \<and> server_replaced (re_derive ?env) (ex_conf\<lparr>w_server_host := ''new.example.com''\<rparr>) (bf_server ex_moved) (find_server ''wireguard'' d')"
    using failed_restore_keeps_config [OF f(1,2) h _ r] fails by simp
  then show ?thesis
    using r ex_bk_config(4) by (auto simp: server_replaced_def restored_host_def t) (simp_all add: ex_server_def)
qed

end
