(* ===== verification/App_Dns.thy ===== *)
theory App_Dns
  imports App_Setup Dns_Manager Backup
begin

text \<open>
  The handlers that steer the resolver and the server (\<open>internal/app/handlers.go\<close>): DNS settings,
  rewrites and domain rules, saving, reloading and restarting WireGuard, and restoring a backup. They run on the
  state of the DNS manager, which holds the database and the machine. Log entries are left out.
\<close>

section \<open>Shared steps\<close>

record 'm dns_app =
  da_env :: "'m app_env"
  da_dns :: dns_env
  da_bin :: string
  da_letter :: "nat \<Rightarrow> bool"

definition applyDNSFromDB :: "'m dns_app \<Rightarrow> 'm dns_sys \<Rightarrow> 'm dns_sys \<times> goerr option" where
  "applyDNSFromDB e s = ApplyFromDB (ae_run (da_env e)) (da_dns e) (da_bin e) s"

text \<open>\<open>reconcilePCQ\<close> and the other steps of the program run on its part of this state.\<close>

definition on_app :: "('m app \<Rightarrow> 'm app) \<Rightarrow> 'm dns_sys \<Rightarrow> 'm dns_sys" where
  "on_app f s = (let a = f \<lparr>ap_db = sy_db s, ap_world = sy_world s\<rparr> in s\<lparr>sy_db := ap_db a, sy_world := ap_world a\<rparr>)"

definition normalizeDNSSection :: "string \<Rightarrow> string" where
  "normalizeDNSSection x =
     (if trim x \<in> {''filtering'', ''rewrites'', ''rules'', ''server''} then trim x else ''filtering'')"

text \<open>\<open>sec\<close> is the parameter \<open>section\<close> of the URL.\<close>

definition dnsSectionFromRequest :: "string \<Rightarrow> request \<Rightarrow> string" where
  "dnsSectionFromRequest sec r =
     (if trim sec \<noteq> [] then normalizeDNSSection (trim sec)
      else if field r ''dns_section'' \<noteq> [] then normalizeDNSSection (field r ''dns_section'')
      else ''filtering'')"

definition dnsRedirect :: "string \<Rightarrow> request \<Rightarrow> string \<Rightarrow> string \<Rightarrow> response" where
  "dnsRedirect sec r kind msg =
     (let tt = (if trim kind = ''error'' then ''danger'' else trim kind); section = dnsSectionFromRequest sec r in
      if rq_htmx r then
        \<lparr>rs_code = 200, rs_location = [], rs_toast = (if trim msg \<noteq> [] then Some (tt, msg) else None), rs_body = section\<rparr>
      else redirect (''/ui/dns'' @ (if trim msg \<noteq> [] then ''?msgType='' @ urlQueryEscape tt @ ''&msg='' @ urlQueryEscape msg else [])
             @ ''#'' @ section))"

section \<open>Numbers in forms\<close>

definition ranged :: "int \<Rightarrow> int \<Rightarrow> int \<Rightarrow> string \<Rightarrow> string \<Rightarrow> int res" where
  "ranged lo hi def err s0 =
     (let s = trim s0 in
      if s = [] then Inr def
      else case atoi s of
        None \<Rightarrow> Inl (ErrMsg err)
      | Some n \<Rightarrow> if n < lo \<or> n > hi then Inl (ErrMsg err) else Inr n)"

definition parseDNSListenPort :: "string \<Rightarrow> int res" where
  "parseDNSListenPort = ranged 1 65535 53 ''DNS listen port must be between 1 and 65535''"

definition parseDNSCacheTTL :: "string \<Rightarrow> int res" where
  "parseDNSCacheTTL = ranged 1 86400 300 ''cache TTL must be between 1 and 86400 seconds''"

definition parseDNSRecordTTL :: "string \<Rightarrow> int res" where
  "parseDNSRecordTTL = ranged 1 2147483647 300 ''TTL must be between 1 and 2147483647''"

section \<open>Settings\<close>

definition switched :: "request \<Rightarrow> string \<Rightarrow> bool" where
  "switched r k \<longleftrightarrow> formValue r k = ''on'' \<or> formValue r k = ''1''"

definition field_or :: "request \<Rightarrow> string \<Rightarrow> string \<Rightarrow> string" where
  "field_or r k def = (if field r k = [] then def else field r k)"

definition host_error :: "string \<Rightarrow> goerr option" where
  "host_error h = (if h = [] then None else case NormalizeDNSHost h of Inl e \<Rightarrow> Some e | Inr _ \<Rightarrow> None)"

definition form_settings :: "request \<Rightarrow> int \<Rightarrow> int \<Rightarrow> dns_settings_row" where
  "form_settings r port ttl =
     \<lparr>ds_enabled = switched r ''dns_enabled'', ds_client_dns_host = field r ''dns_client_dns_host'',
      ds_listen_host = field r ''dns_listen_host'', ds_listen_addr = [], ds_listen_port = port,
      ds_binary = field_or r ''dns_binary'' ''coredns'', ds_upstreams = field_or r ''dns_forward_upstreams'' ''1.1.1.1 1.0.0.1'',
      ds_block_ads = switched r ''dns_block_ads'', ds_blocklist_urls = field r ''dns_blocklist_urls'',
      ds_block_address = field_or r ''dns_block_address'' ''0.0.0.0'', ds_cache_ttl = ttl,
      ds_query_log = switched r ''dns_query_log''\<rparr>"

definition parse_settings :: "request \<Rightarrow> dns_settings_row res" where
  "parse_settings r =
     (if rq_form r = None then Inl (ErrMsg ''Invalid form submission.'')
      else bindR (parseDNSListenPort (formValue r ''dns_listen_port'')) (\<lambda>port.
        bindR (parseDNSCacheTTL (formValue r ''dns_cache_ttl'')) (\<lambda>ttl.
          case host_error (field r ''dns_client_dns_host'') of
            Some e \<Rightarrow> Inl (ErrMsg (''Invalid client DNS address: '' @ errText e))
          | None \<Rightarrow>
              (case host_error (field r ''dns_listen_host'') of
                 Some e \<Rightarrow> Inl (ErrMsg (''Invalid listen address: '' @ errText e))
               | None \<Rightarrow> Inr (form_settings r port ttl)))))"

definition running_message :: "dns_status \<Rightarrow> string \<Rightarrow> string" where
  "running_message st auto =
     ''DNS enabled - CoreDNS running on '' @ dst_listen st
     @ (if dst_pid st > 0 then '' (pid '' @ nat_str (dst_pid st) @ '').'' else ''.'')
     @ (if auto \<noteq> [] then '' Assigned client DNS '' @ auto @ '' automatically.'' else [])"

definition DNSSavePost :: "'m dns_app \<Rightarrow> string \<Rightarrow> request \<Rightarrow> 'm dns_sys \<Rightarrow> 'm dns_sys \<times> response" where
  "DNSSavePost e sec r s =
     (case parse_settings r of
        Inl err \<Rightarrow> (s, dnsRedirect sec r ''error'' (errText err))
      | Inr cfg \<Rightarrow>
          (let (cfg1, generated) = (if ds_enabled cfg then EnsureAutoDNSHost (sy_db s) cfg else (cfg, False));
               auto = (if generated then ds_client_dns_host cfg1 else []) in
           case (if ds_enabled cfg then ResolveDNSListenAddress (sy_db s) cfg1 else Inr []) of
             Inl err \<Rightarrow> (s, dnsRedirect sec r ''error'' (''Cannot enable DNS: '' @ errText err))
           | Inr listen \<Rightarrow>
               (case applyDNSFromDB e (s\<lparr>sy_db := UpsertDNSSettings (cfg1\<lparr>ds_listen_addr := listen\<rparr>) (sy_db s)\<rparr>) of
                  (s', Some err) \<Rightarrow> (s', dnsRedirect sec r ''warning'' (''Settings saved, but CoreDNS failed: '' @ errText err))
                | (s', None) \<Rightarrow>
                    (s', if \<not> ds_enabled cfg then dnsRedirect sec r ''success'' ''DNS disabled - settings saved and CoreDNS stopped.''
                         else if dst_running (Status (sy_mgr s')) then dnsRedirect sec r ''success'' (running_message (Status (sy_mgr s')) auto)
                         else dnsRedirect sec r ''warning'' ''DNS enabled in config, but CoreDNS is not running. Check the error below.''))))"

section \<open>Rewrites and rules\<close>

definition applied :: "'m dns_app \<Rightarrow> (string \<Rightarrow> response) \<Rightarrow> response \<Rightarrow> 'm dns_sys \<Rightarrow> 'm dns_sys \<times> response" where
  "applied e bad good s =
     (case applyDNSFromDB e s of (s', Some err) \<Rightarrow> (s', bad (errText err)) | (s', None) \<Rightarrow> (s', good))"

definition DNSRecordAddPost :: "'m dns_app \<Rightarrow> string \<Rightarrow> request \<Rightarrow> 'm dns_sys \<Rightarrow> 'm dns_sys \<times> response" where
  "DNSRecordAddPost e sec r s =
     (if rq_form r = None then (s, dnsRedirect sec r ''error'' ''Invalid form submission.'')
      else case parseDNSRecordTTL (formValue r ''record_ttl'') of
        Inl err \<Rightarrow> (s, dnsRedirect sec r ''error'' (errText err))
      | Inr ttl \<Rightarrow>
          (let rec = \<lparr>r_id = [], r_name = formValue r ''record_name'', r_type = formValue r ''record_type'',
                 r_value = formValue r ''record_value'', r_ttl = ttl, r_enabled = True\<rparr> in
           case ValidateDNSRewrite (da_letter e) rec of
             Some err \<Rightarrow> (s, dnsRedirect sec r ''error'' (errText err))
           | None \<Rightarrow>
               (case InsertDNSRecord (ae_ids (da_env e) 0) rec (sy_db s) of
                  Inl _ \<Rightarrow> (s, dnsRedirect sec r ''error'' ''Could not add DNS rewrite.'')
                | Inr (ins, d') \<Rightarrow>
                    applied e (\<lambda>m. dnsRedirect sec r ''warning'' (''Rewrite added, but CoreDNS failed to reload: '' @ m))
                      (dnsRedirect sec r ''success''
                        (''Rewrite added: '' @ r_name ins @ '' -> '' @ r_value ins @ '' ('' @ r_type ins @ '').''))
                      (s\<lparr>sy_db := d'\<rparr>))))"

definition DNSRecordDeletePost :: "'m dns_app \<Rightarrow> string \<Rightarrow> request \<Rightarrow> 'm dns_sys \<Rightarrow> 'm dns_sys \<times> response" where
  "DNSRecordDeletePost e sec r s =
     (if trim (rq_id r) = [] then (s, dnsRedirect sec r ''error'' ''Record id is required.'')
      else case DeleteDNSRecord (trim (rq_id r)) (sy_db s) of
        Inl err \<Rightarrow> (s, dnsRedirect sec r ''error''
          (if err = ErrNoRows then ''DNS rewrite not found.'' else ''Could not delete DNS rewrite.''))
      | Inr d' \<Rightarrow>
          applied e (\<lambda>m. dnsRedirect sec r ''warning'' (''Rewrite deleted, but CoreDNS failed to reload: '' @ m))
            (dnsRedirect sec r ''success'' ''DNS rewrite deleted.'') (s\<lparr>sy_db := d'\<rparr>))"

definition DNSDomainRuleAddPost :: "'m dns_app \<Rightarrow> string \<Rightarrow> request \<Rightarrow> 'm dns_sys \<Rightarrow> 'm dns_sys \<times> response" where
  "DNSDomainRuleAddPost e sec r s =
     (if rq_form r = None then (s, dnsRedirect sec r ''error'' ''Invalid form submission.'')
      else
        (let rule = \<lparr>dr_id = [], dr_domain = formValue r ''rule_domain'', dr_type = formValue r ''rule_type'', dr_enabled = True\<rparr> in
         case ValidateDNSDomainRule (da_letter e) rule of
           Some err \<Rightarrow> (s, dnsRedirect sec r ''error'' (errText err))
         | None \<Rightarrow>
             (case InsertDNSDomainRule (da_letter e) (ae_ids (da_env e) 0) rule (sy_db s) of
                Inl _ \<Rightarrow> (s, dnsRedirect sec r ''error'' ''Could not add domain rule.'')
              | Inr (ins, d') \<Rightarrow>
                  applied e (\<lambda>m. dnsRedirect sec r ''warning'' (''Rule added, but CoreDNS failed to reload: '' @ m))
                    (dnsRedirect sec r ''success''
                      (''Domain '' @ dr_domain ins @ '' ('' @ (if dr_type ins = ''allow'' then ''allowed'' else ''blocked'') @ '').''))
                    (s\<lparr>sy_db := d'\<rparr>))))"

definition DNSDomainRuleDeletePost :: "'m dns_app \<Rightarrow> string \<Rightarrow> request \<Rightarrow> 'm dns_sys \<Rightarrow> 'm dns_sys \<times> response" where
  "DNSDomainRuleDeletePost e sec r s =
     (if trim (rq_id r) = [] then (s, dnsRedirect sec r ''error'' ''Rule id is required.'')
      else case DeleteDNSDomainRule (trim (rq_id r)) (sy_db s) of
        Inl err \<Rightarrow> (s, dnsRedirect sec r ''error''
          (if err = ErrNoRows then ''Domain rule not found.'' else ''Could not delete domain rule.''))
      | Inr d' \<Rightarrow>
          applied e (\<lambda>m. dnsRedirect sec r ''warning'' (''Rule deleted, but CoreDNS failed to reload: '' @ m))
            (dnsRedirect sec r ''success'' ''Domain rule deleted.'') (s\<lparr>sy_db := d'\<rparr>))"

definition DNSReloadPost :: "'m dns_app \<Rightarrow> string \<Rightarrow> request \<Rightarrow> 'm dns_sys \<Rightarrow> 'm dns_sys \<times> response" where
  "DNSReloadPost e sec r s =
     (case applyDNSFromDB e s of
        (s', Some err) \<Rightarrow> (s', dnsRedirect sec r ''warning'' (''CoreDNS reload failed: '' @ errText err))
      | (s', None) \<Rightarrow>
          (s', dnsRedirect sec r ''success''
             (if ds_enabled (GetDNSSettings (sy_db s')) then ''CoreDNS reloaded from saved settings.''
              else ''DNS is disabled - CoreDNS stopped.'')))"

section \<open>Any sequence of requests\<close>

text \<open>The effect of one request in an environment: its clock, identifiers, failing files and programs.\<close>

inductive dns_request :: "'m dns_app \<Rightarrow> 'm dns_sys \<Rightarrow> 'm dns_sys \<Rightarrow> bool" for e where
  rewrite_add: "dns_request e s (fst (DNSRecordAddPost e sec r s))"
| rewrite_delete: "dns_request e s (fst (DNSRecordDeletePost e sec r s))"
| rule_add: "dns_request e s (fst (DNSDomainRuleAddPost e sec r s))"
| rule_delete: "dns_request e s (fst (DNSDomainRuleDeletePost e sec r s))"
| dns_save: "dns_request e s (fst (DNSSavePost e sec r s))"
| dns_reload: "dns_request e s (fst (DNSReloadPost e sec r s))"

text \<open>
  A request of a run comes in an environment of its own; what all of them share is the table of letters of Unicode.
\<close>

definition next_dns_request :: "(nat \<Rightarrow> bool) \<Rightarrow> 'm dns_sys \<Rightarrow> 'm dns_sys \<Rightarrow> bool" where
  "next_dns_request uni s t \<longleftrightarrow> (\<exists>e. da_letter e = uni \<and> dns_request e s t)"

definition records_render :: "(nat \<Rightarrow> bool) \<Rightarrow> db \<Rightarrow> bool" where
  "records_render uni d \<longleftrightarrow> list_all (value_valid uni) (dns_records d)"

lemma stopLocked_db [simp]: "sy_db (stopLocked s) = sy_db s"
  by (simp add: stopLocked_def)

lemma fail_db [simp]: "sy_db (fst (fail e s)) = sy_db s"
  by (simp add: fail_def)

lemma launch_db [simp]: "sy_db (fst (launch env listen corefile s)) = sy_db s"
  by (simp add: launch_def Let_def fail_def)

lemma write_db [simp]: "sy_db (fst (write_and_launch env cfg records rules listen hp s)) = sy_db s"
  by (simp add: write_and_launch_def Let_def fail_def split: prod.split sum.split option.split)

lemma Stop_db [simp]: "sy_db (Stop run s) = sy_db s"
  by (simp add: Stop_def Let_def split: prod.split)

lemma Start_db [simp]: "sy_db (fst (Start run env cfg records rules s)) = sy_db s"
proof -
  obtain wd e where "EnsureDNSInterfaceAlias run (dm_data (sy_mgr (stopLocked s))) (dm_iface (sy_mgr (stopLocked s))) (sy_db s) cfg
      (sy_world (stopLocked s)) = (wd, e)" by force
  then show ?thesis by (cases e) (simp_all add: Start_def Let_def split: sum.split)
qed

lemma ManagerApply_db [simp]: "sy_db (fst (ManagerApply run env cfg records rules s)) = sy_db s"
  by (simp add: ManagerApply_def)

lemma apply_dns_records [simp]: "dns_records (sy_db (fst (applyDNSFromDB e s))) = dns_records (sy_db s)"
proof -
  define c where "c = (if trim (ds_binary (GetDNSSettings (sy_db s))) = [] then (GetDNSSettings (sy_db s))\<lparr>ds_binary := or_default (da_bin e) ''coredns''\<rparr>
      else GetDNSSettings (sy_db s))"
  obtain wd iface where a: "activeInterface (ae_run (da_env e)) (wg_conf_path (dm_data (sy_mgr s))) (dm_iface (sy_mgr s)) (sy_world s)
      = (wd, iface)" by force
  obtain c1 g where g: "EnsureAutoDNSHost (sy_db s) c = (c1, g)" by force
  show ?thesis
    by (simp add: applyDNSFromDB_def ApplyFromDB_def Let_def a g UpsertDNSSettings_def split: sum.split flip: c_def)
qed

lemma applied_dns_records [simp]: "dns_records (sy_db (fst (applied e bad good s))) = dns_records (sy_db s)"
proof -
  obtain s' er where a: "applyDNSFromDB e s = (s', er)" by force
  then have "dns_records (sy_db s') = dns_records (sy_db s)" using apply_dns_records [of e s] by simp
  then show ?thesis using a by (cases er) (simp_all add: applied_def)
qed

lemma known_type: "NormalizeDNSRecordType t = Inr u \<Longrightarrow> NormalizeDNSRecordType u = Inr u"
  by (auto simp: NormalizeDNSRecordType_def Let_def DNSRecordTypes_def trim_plain plain_def ascii_space_def toUpper_def
      upper_chr_def split: if_splits)

lemma inserted_renders:
  assumes "InsertDNSRecord i r d = Inr (ins, d')" and "ValidateDNSRewrite uni r = None" and "records_render uni d"
  shows "records_render uni d'"
  using assms validated_value [OF assms(2)] known_type
  by (auto simp: InsertDNSRecord_def bindR_eq_Inr records_render_def value_valid_def Let_def split: if_splits sum.splits)

lemma deleted_renders: "DeleteDNSRecord i d = Inr d' \<Longrightarrow> records_render uni d \<Longrightarrow> records_render uni d'"
  by (auto simp: DeleteDNSRecord_def records_render_def Let_def list_all_iff split: if_splits)

lemma same_records: "dns_records d' = dns_records d \<Longrightarrow> records_render uni d' = records_render uni d"
  by (simp add: records_render_def)

lemma rule_records: "InsertDNSDomainRule uni i r d = Inr (ins, d') \<Longrightarrow> dns_records d' = dns_records d"
  "DeleteDNSDomainRule i d = Inr d' \<Longrightarrow> dns_records d' = dns_records d"
  by (auto simp: InsertDNSDomainRule_def DeleteDNSDomainRule_def Let_def split: if_splits sum.splits option.splits)

text \<open>What saving the settings does to the state: nothing, or the form is stored and applied.\<close>

lemma save_state:
  obtains "fst (DNSSavePost e sec r s) = s"
  | cfg where "parse_settings r = Inr cfg"
      and "\<exists>h l. fst (DNSSavePost e sec r s)
        = fst (applyDNSFromDB e (s\<lparr>sy_db := UpsertDNSSettings (cfg\<lparr>ds_client_dns_host := h, ds_listen_addr := l\<rparr>) (sy_db s)\<rparr>))"
proof (cases "parse_settings r")
  case (Inl err)
  then show ?thesis by (intro that(1)) (simp add: DNSSavePost_def)
next
  case cfg: (Inr cfg)
  obtain c g where c: "EnsureAutoDNSHost (sy_db s) cfg = (c, g)" by force
  then have c': "c = cfg\<lparr>ds_client_dns_host := ds_client_dns_host c\<rparr>"
    by (auto simp: EnsureAutoDNSHost_def Let_def split: if_splits)
  let ?s = "\<lambda>c l. s\<lparr>sy_db := UpsertDNSSettings (c\<lparr>ds_listen_addr := l\<rparr>) (sy_db s)\<rparr>"
  let ?t = "\<lambda>h l. s\<lparr>sy_db := UpsertDNSSettings (cfg\<lparr>ds_client_dns_host := h, ds_listen_addr := l\<rparr>) (sy_db s)\<rparr>"
  have fin: "?s c l = ?t (ds_client_dns_host c) l" for l by (subst c') simp
  have fin': "?s cfg l = ?t (ds_client_dns_host cfg) l" for l by simp
  show ?thesis
  proof (cases "ds_enabled cfg")
    case True
    show ?thesis
    proof (cases "ResolveDNSListenAddress (sy_db s) c")
      case (Inl err)
      then show ?thesis using cfg c True by (intro that(1)) (simp add: DNSSavePost_def Let_def)
    next
      case (Inr l)
      obtain s' er where a: "applyDNSFromDB e (?s c l) = (s', er)" by force
      have "fst (DNSSavePost e sec r s) = s'"
        using cfg c True Inr a by (cases er) (simp_all add: DNSSavePost_def Let_def)
      then have "fst (DNSSavePost e sec r s) = fst (applyDNSFromDB e (?t (ds_client_dns_host c) l))" using a by (simp only: fin fst_conv)
      then show ?thesis by (intro that(2) [OF cfg] exI)
    qed
  next
    case False
    obtain s' er where a: "applyDNSFromDB e (?s cfg []) = (s', er)" by force
    have "fst (DNSSavePost e sec r s) = s'"
      using cfg False a by (cases er) (simp_all add: DNSSavePost_def Let_def)
    then have "fst (DNSSavePost e sec r s) = fst (applyDNSFromDB e (?t (ds_client_dns_host cfg) []))" using a by (simp only: fin' fst_conv)
    then show ?thesis by (intro that(2) [OF cfg] exI)
  qed
qed

lemma save_records: "dns_records (sy_db (fst (DNSSavePost e sec r s))) = dns_records (sy_db s)"
  by (rule save_state [of e sec r s]) (auto simp: UpsertDNSSettings_def)

lemma zone_renders:
  assumes "\<forall>r \<in> set rs. value_valid uni r"
  shows "\<exists>body. WriteZoneFile zone ttl rs = Inr body"
proof -
  have "\<exists>ls. zone_lines z t rs = Inr ls" for z t
    using assms
  proof (induction rs)
    case (Cons r rs)
    then show ?case using formatZoneLine_valid [of uni r z t "r_name r"] by auto
  qed simp
  then obtain ls where "zone_lines (trim_suffix (trim zone) ''.'') (if ttl \<le> 0 then 300 else ttl) rs = Inr ls" by blast
  then show ?thesis by (simp add: WriteZoneFile_def Let_def)
qed

definition only_io :: "fs \<times> 'a res \<Rightarrow> bool" where
  "only_io p \<longleftrightarrow> (case snd p of Inr _ \<Rightarrow> True | Inl e \<Rightarrow> (\<exists>what. e = ErrIO what))"

lemma write_zones_io:
  assumes "\<forall>x \<in> set es. value_valid uni (snd x)"
  shows "only_io (write_zones env dir es zs f)"
proof (induction zs arbitrary: f)
  case (Cons z zs)
  let ?file = "path_join dir (z @ ''.db'')"
  obtain body where body: "WriteZoneFile z 300 (in_zone es z) = Inr body"
    using zone_renders [of "in_zone es z" uni z 300] assms by (auto simp: in_zone_def)
  obtain f2 r where w: "write_zones env dir es zs (f(?file \<mapsto> body)) = (f2, r)" by force
  have "only_io (f2, r)" using Cons.IH [of "f(?file \<mapsto> body)"] unfolding w .
  then have "only_io (f2, bindR r (\<lambda>bs. Inr ((z, ?file) # bs)))" by (cases r) (simp_all add: only_io_def)
  then show ?case
    by (simp add: body write_file_def Let_def w del: append.simps fun_upd_apply) (simp add: only_io_def)
qed (simp add: only_io_def)

lemma value_valid_name [simp]: "value_valid uni (r\<lparr>r_name := n\<rparr>) = value_valid uni r"
  by (simp add: value_valid_def cong: sum.case_cong)

lemma entries_valid: "list_all (value_valid uni) rs \<Longrightarrow> x \<in> set (zone_entries rs) \<Longrightarrow> value_valid uni (snd x)"
  by (auto simp: zone_entries_def list_all_iff Let_def split: prod.splits if_splits)

lemma rewrites_io:
  assumes "list_all (value_valid uni) records"
  shows "only_io (prepareRewriteZones env dir records f)"
proof -
  have "only_io (case write_zones env d (zone_entries records) zs f of (f2, r) \<Rightarrow> (f2, bindR r (\<lambda>bs. Inr (h, bs))))" for d zs f and h :: string
    using write_zones_io [of "zone_entries records" uni env d zs f] entries_valid [OF assms]
    by (auto simp: only_io_def split: prod.split sum.splits)
  then show ?thesis by (auto simp: prepareRewriteZones_def Let_def write_file_def only_io_def split: if_splits)
qed

text \<open>The settings in use: a port that exists and a cache of at most a day.\<close>

definition settings_ranged :: "db \<Rightarrow> bool" where
  "settings_ranged d \<longleftrightarrow> (let c = GetDNSSettings d in
     1 \<le> ds_listen_port c \<and> ds_listen_port c \<le> 65535 \<and> 1 \<le> ds_cache_ttl c \<and> ds_cache_ttl c \<le> 86400)"

lemma upsert_ranged [simp]:
  "settings_ranged (UpsertDNSSettings c d) \<longleftrightarrow> ds_listen_port c \<le> 65535 \<and> ds_cache_ttl c \<le> 86400"
  by (simp add: settings_ranged_def UpsertDNSSettings_def GetDNSSettings_def DefaultDNSSettings_def Let_def)

lemma same_settings: "dns_settings d' = dns_settings d \<Longrightarrow> settings_ranged d' = settings_ranged d"
  by (simp add: settings_ranged_def GetDNSSettings_def)

lemma auto_ranges: "EnsureAutoDNSHost d c = (c', g) \<Longrightarrow> ds_listen_port c' = ds_listen_port c \<and> ds_cache_ttl c' = ds_cache_ttl c"
  by (auto simp: EnsureAutoDNSHost_def Let_def split: if_splits)

lemma apply_ranged:
  assumes "settings_ranged (sy_db s)"
  shows "settings_ranged (sy_db (fst (applyDNSFromDB e s)))"
proof -
  define c where "c = (if trim (ds_binary (GetDNSSettings (sy_db s))) = [] then (GetDNSSettings (sy_db s))\<lparr>ds_binary := or_default (da_bin e) ''coredns''\<rparr>
      else GetDNSSettings (sy_db s))"
  have r: "ds_listen_port c \<le> 65535" "ds_cache_ttl c \<le> 86400"
    using assms by (simp_all add: c_def settings_ranged_def Let_def)
  obtain wd iface where a: "activeInterface (ae_run (da_env e)) (wg_conf_path (dm_data (sy_mgr s))) (dm_iface (sy_mgr s)) (sy_world s)
      = (wd, iface)" by force
  obtain c1 g where g: "EnsureAutoDNSHost (sy_db s) c = (c1, g)" by force
  show ?thesis
    using assms r auto_ranges [OF g]
    by (simp add: applyDNSFromDB_def ApplyFromDB_def Let_def a g split: sum.split flip: c_def)
qed

lemma applied_db: "sy_db (fst (applied e bad good s)) = sy_db (fst (applyDNSFromDB e s))"
proof -
  obtain s' er where a: "applyDNSFromDB e s = (s', er)" by force
  then show ?thesis by (cases er) (simp_all add: applied_def)
qed

lemma ranged_bounds: "ranged lo hi def err s = Inr n \<Longrightarrow> lo \<le> def \<and> def \<le> hi \<Longrightarrow> lo \<le> n \<and> n \<le> hi"
  by (auto simp: ranged_def Let_def split: if_splits option.splits)

lemma form_ranges: "parse_settings r = Inr c \<Longrightarrow> ds_listen_port c \<le> 65535 \<and> ds_cache_ttl c \<le> 86400"
  by (auto simp: parse_settings_def bindR_eq_Inr form_settings_def parseDNSListenPort_def parseDNSCacheTTL_def
      dest!: ranged_bounds split: if_splits option.splits)

text \<open>What a request keeps of the database.\<close>

definition dns_ok :: "(nat \<Rightarrow> bool) \<Rightarrow> db \<Rightarrow> bool" where
  "dns_ok uni d \<longleftrightarrow> records_render uni d \<and> settings_ranged d"

lemma apply_dns_ok: "dns_ok uni (sy_db s) \<Longrightarrow> dns_ok uni (sy_db (fst (applyDNSFromDB e s)))"
  by (simp add: dns_ok_def apply_ranged records_render_def)

lemma applied_dns_ok [intro]: "dns_ok uni (sy_db s) \<Longrightarrow> dns_ok uni (sy_db (fst (applied e bad good s)))"
  by (simp add: applied_db apply_dns_ok)

lemma table_settings:
  "InsertDNSRecord i r d = Inr (ins, d') \<Longrightarrow> dns_settings d' = dns_settings d"
  "DeleteDNSRecord i d = Inr d' \<Longrightarrow> dns_settings d' = dns_settings d"
  "InsertDNSDomainRule uni i q d = Inr (rins, d') \<Longrightarrow> dns_settings d' = dns_settings d"
  "DeleteDNSDomainRule i d = Inr d' \<Longrightarrow> dns_settings d' = dns_settings d"
  by (auto simp: InsertDNSRecord_def DeleteDNSRecord_def InsertDNSDomainRule_def DeleteDNSDomainRule_def Let_def bindR_eq_Inr
      split: if_splits sum.splits option.splits)

lemma tables_dns_ok:
  "InsertDNSRecord i r d = Inr (ins, d') \<Longrightarrow> ValidateDNSRewrite uni r = None \<Longrightarrow> dns_ok uni d \<Longrightarrow> dns_ok uni d'"
  "DeleteDNSRecord i d = Inr d' \<Longrightarrow> dns_ok uni d \<Longrightarrow> dns_ok uni d'"
  "InsertDNSDomainRule uni i q d = Inr (rins, d') \<Longrightarrow> dns_ok uni d \<Longrightarrow> dns_ok uni d'"
  "DeleteDNSDomainRule i d = Inr d' \<Longrightarrow> dns_ok uni d \<Longrightarrow> dns_ok uni d'"
     apply (metis dns_ok_def inserted_renders same_settings table_settings(1))
    apply (metis dns_ok_def deleted_renders same_settings table_settings(2))
   apply (metis dns_ok_def rule_records(1) same_records same_settings table_settings(3))
  apply (metis dns_ok_def rule_records(2) same_records same_settings table_settings(4))
  done

lemma request_dns_ok:
  assumes "dns_request e s t" and "dns_ok (da_letter e) (sy_db s)"
  shows "dns_ok (da_letter e) (sy_db t)"
  using assms(1)
proof (cases rule: dns_request.cases)
  case (rewrite_add sec r)
  with assms(2) show ?thesis
    by (auto simp: DNSRecordAddPost_def Let_def split: sum.split option.split intro!: applied_dns_ok)
       (auto intro: tables_dns_ok(1))
next
  case (rewrite_delete sec r)
  with assms(2) show ?thesis
    by (auto simp: DNSRecordDeletePost_def split: sum.split intro!: applied_dns_ok) (auto intro: tables_dns_ok(2))
next
  case (rule_add sec r)
  with assms(2) show ?thesis
    by (auto simp: DNSDomainRuleAddPost_def Let_def split: sum.split option.split intro!: applied_dns_ok)
       (auto intro: tables_dns_ok(3))
next
  case (rule_delete sec r)
  with assms(2) show ?thesis
    by (auto simp: DNSDomainRuleDeletePost_def split: sum.split intro!: applied_dns_ok) (auto intro: tables_dns_ok(4))
next
  case (dns_save sec r)
  show ?thesis
  proof (rule save_state [of e sec r s])
    assume "fst (DNSSavePost e sec r s) = s"
    then show ?thesis using dns_save assms(2) by simp
  next
    fix cfg
    assume cfg: "parse_settings r = Inr cfg"
      and "\<exists>h l. fst (DNSSavePost e sec r s)
        = fst (applyDNSFromDB e (s\<lparr>sy_db := UpsertDNSSettings (cfg\<lparr>ds_client_dns_host := h, ds_listen_addr := l\<rparr>) (sy_db s)\<rparr>))"
    then obtain h l where t: "t = fst (applyDNSFromDB e
        (s\<lparr>sy_db := UpsertDNSSettings (cfg\<lparr>ds_client_dns_host := h, ds_listen_addr := l\<rparr>) (sy_db s)\<rparr>))"
      using dns_save by blast
    have "dns_ok (da_letter e) (UpsertDNSSettings (cfg\<lparr>ds_client_dns_host := h, ds_listen_addr := l\<rparr>) (sy_db s))"
      using form_ranges [OF cfg] assms(2) by (simp add: dns_ok_def) (simp add: records_render_def UpsertDNSSettings_def)
    then show ?thesis unfolding t by (intro apply_dns_ok) simp
  qed
next
  case (dns_reload sec r)
  obtain s' er where a: "applyDNSFromDB e s = (s', er)" by force
  then have "dns_ok (da_letter e) (sy_db s')" using apply_dns_ok [OF assms(2), of e] by simp
  then show ?thesis using a dns_reload by (cases er) (simp_all add: DNSReloadPost_def)
qed

interpretation dns_reqs: kept_by_steps "next_dns_request uni" "\<lambda>s. dns_ok uni (sy_db s)" for uni
  by unfold_locales (auto simp: next_dns_request_def dest: request_dns_ok)

text \<open>
  C18. However rewrites, rules and settings are requested, the rewrites can be written and the settings are in
  range: after any sequence of DNS requests, each with the identifiers, files and programs of its own moment, from a database
  that is in this state, an empty one for instance, building the zone files of the stored rewrites fails only when a file operation fails, never because of a record, and the
  listen port and the cache time in use are ones the resolver accepts.
\<close>

theorem dns_requests_stay_renderable:
  assumes "(next_dns_request uni)\<^sup>*\<^sup>* s t" and "dns_ok uni (sy_db s)"
  shows "only_io (prepareRewriteZones env dir (ListDNSRecords (sy_db t)) f)
     \<and> 1 \<le> ds_listen_port (GetDNSSettings (sy_db t)) \<and> ds_listen_port (GetDNSSettings (sy_db t)) \<le> 65535
     \<and> 1 \<le> ds_cache_ttl (GetDNSSettings (sy_db t)) \<and> ds_cache_ttl (GetDNSSettings (sy_db t)) \<le> 86400"
proof -
  have ok: "dns_ok uni (sy_db t)"
    using assms by (rule dns_reqs.steps_keep)
  then have "list_all (value_valid uni) (ListDNSRecords (sy_db t))"
    by (simp add: dns_ok_def records_render_def ListDNSRecords_def list_all_iff)
  then show ?thesis using ok rewrites_io by (simp add: dns_ok_def settings_ranged_def Let_def)
qed

definition ex_dns_app :: "argv list dns_app" where
  "ex_dns_app = \<lparr>da_env = ex_app_env, da_dns = ex_env, da_bin = ''coredns'', da_letter = (\<lambda>_. False)\<rparr>"

definition ex_rewrite_request :: request where
  "ex_rewrite_request = \<lparr>rq_form = Some [(''record_name'', [''mail.vpn'']), (''record_type'', [''TXT'']), (''record_value'', [''hello''])],
     rq_id = [], rq_user = [], rq_htmx = False\<rparr>"

definition ex_dns_sys :: "argv list dns_sys" where
  "ex_dns_sys = \<lparr>sy_mgr = NewManager ''/data'' ''coredns'' ''wg0'', sy_world = \<lparr>wd_fs = (\<lambda>_. None), wd_machine = []\<rparr>, sy_db = ex_db,
     sy_procs = {}, sy_pid = 1\<rparr>"

lemma ex_rewrite_valid: "ValidateDNSRewrite (\<lambda>_. False) \<lparr>r_id = [], r_name = ''mail.vpn'', r_type = ''TXT'',
     r_value = ''hello'', r_ttl = 300, r_enabled = True\<rparr> = None"
  by code_simp

definition ex_second_app :: "argv list dns_app" where
  "ex_second_app = ex_dns_app\<lparr>da_env := ex_app_env\<lparr>ae_ids := (\<lambda>_. ''new2'')\<rparr>\<rparr>"

definition ex_two_rewrites :: "argv list dns_sys" where
  "ex_two_rewrites = fst (DNSRecordAddPost ex_second_app [] ex_rewrite_request
     (fst (DNSRecordAddPost ex_dns_app [] ex_rewrite_request ex_dns_sys)))"

lemma ex_rewrite_added:
  assumes "rq_form r = rq_form ex_rewrite_request" and "ae_ids (da_env e) 0 \<notin> r_id ` set (dns_records (sy_db s))"
    and "da_letter e = (\<lambda>_. False)"
  shows "length (dns_records (sy_db (fst (DNSRecordAddPost e [] r s)))) = Suc (length (dns_records (sy_db s)))"
proof -
  have "NormalizeDNSRecordType ''TXT'' = Inr ''TXT''" by code_simp
  then show ?thesis
    using assms by (simp add: DNSRecordAddPost_def ex_rewrite_request_def parseDNSRecordTTL_def ranged_def formValue_def formValues_def
        ex_rewrite_valid InsertDNSRecord_def Let_def)
qed

lemma dns_requests_stay_renderable_witness:
  "length (dns_records (sy_db ex_two_rewrites)) = 2
   \<and> only_io (prepareRewriteZones ex_env ''/data/dns'' (ListDNSRecords (sy_db ex_two_rewrites)) (\<lambda>_. None))"
proof -
  let ?s = "fst (DNSRecordAddPost ex_dns_app [] ex_rewrite_request ex_dns_sys)"
  have l: "da_letter ex_dns_app = (\<lambda>_. False)" "da_letter ex_second_app = (\<lambda>_. False)" "dns_records (sy_db ex_dns_sys) = []"
    "ae_ids (da_env ex_dns_app) 0 = ''new''" "ae_ids (da_env ex_second_app) 0 = ''new2''"
    by (simp_all add: ex_second_app_def ex_dns_app_def ex_dns_sys_def ex_db_def db_empty_def ex_app_env_def)
  have one: "length (dns_records (sy_db ?s)) = 1" using ex_rewrite_added [of ex_rewrite_request ex_dns_app ex_dns_sys] l by simp
  have "r_id ` set (dns_records (sy_db ?s)) = {''new''}"
  proof -
    have "NormalizeDNSRecordType ''TXT'' = Inr ''TXT''" by code_simp
    then show ?thesis
      by (simp add: DNSRecordAddPost_def ex_rewrite_request_def parseDNSRecordTTL_def ranged_def formValue_def formValues_def
          ex_rewrite_valid ex_dns_app_def InsertDNSRecord_def Let_def ex_dns_sys_def ex_db_def db_empty_def ex_app_env_def)
  qed
  then have two: "length (dns_records (sy_db ex_two_rewrites)) = 2"
    using ex_rewrite_added [of ex_rewrite_request ex_second_app ?s] l one by (simp add: ex_two_rewrites_def)
  have "next_dns_request (\<lambda>_. False) ex_dns_sys ?s" "next_dns_request (\<lambda>_. False) ?s ex_two_rewrites"
    using l rewrite_add unfolding next_dns_request_def ex_two_rewrites_def by blast+
  then have run: "(next_dns_request (\<lambda>_. False))\<^sup>*\<^sup>* ex_dns_sys ex_two_rewrites" by (meson converse_rtranclp_into_rtranclp r_into_rtranclp)
  have "dns_ok (\<lambda>_. False) (sy_db ex_dns_sys)"
    by (simp add: dns_ok_def records_render_def settings_ranged_def GetDNSSettings_def DefaultDNSSettings_def
        ex_dns_sys_def ex_db_def db_empty_def Let_def)
  from dns_requests_stay_renderable [OF run this] two show ?thesis by blast
qed

end
