(* ===== verification/Backup_Crypto.thy ===== *)
theory Backup_Crypto
  imports Backup
begin

text \<open>
  The archive of a backup: \<open>internal/wireguard/backup_crypto.go\<close> and the two functions of
  \<open>backup.go\<close> that build and read it. Base64 is written out. What is drawn and what is
  computed elsewhere is a record of parameters: the two random draws, the key derivation scrypt and
  AES-GCM, and the JSON texts of an envelope and of a backup file. Bytes are characters.
\<close>

section \<open>Base64\<close>

definition b64_alphabet :: string where
  "b64_alphabet = ''ABCDEFGHIJKLMNOPQRSTUVWXYZabcdefghijklmnopqrstuvwxyz0123456789+/''"

definition b64_char :: "nat \<Rightarrow> char" where
  "b64_char n =
     (if n < 26 then char_of (65 + n) else if n < 52 then char_of (97 + (n - 26))
      else if n < 62 then char_of (48 + (n - 52)) else if n = 62 then CHR ''+'' else CHR ''/'')"

definition b64_val :: "char \<Rightarrow> nat option" where
  "b64_val c = (let n = of_char c :: nat in
     if 65 \<le> n \<and> n \<le> 90 then Some (n - 65) else if 97 \<le> n \<and> n \<le> 122 then Some (n - 97 + 26)
     else if 48 \<le> n \<and> n \<le> 57 then Some (n - 48 + 52)
     else if c = CHR ''+'' then Some 62 else if c = CHR ''/'' then Some 63 else None)"

fun EncodeToString :: "string \<Rightarrow> string" where
  "EncodeToString [] = []"
| "EncodeToString [a] =
     (let x = of_char a :: nat in [b64_char (x div 4), b64_char (x mod 4 * 16), CHR ''='', CHR ''=''])"
| "EncodeToString [a, b] =
     (let x = of_char a :: nat; y = of_char b in
      [b64_char (x div 4), b64_char (x mod 4 * 16 + y div 16), b64_char (y mod 16 * 4), CHR ''=''])"
| "EncodeToString (a # b # c # s) =
     (let x = of_char a :: nat; y = of_char b; z = of_char c in
      [b64_char (x div 4), b64_char (x mod 4 * 16 + y div 16), b64_char (y mod 16 * 4 + z div 64), b64_char (z mod 64)]
      @ EncodeToString s)"

text \<open>Three bytes from four values; bits past a byte are dropped.\<close>

definition b64_bytes :: "nat \<Rightarrow> nat \<Rightarrow> nat \<Rightarrow> nat \<Rightarrow> string" where
  "b64_bytes p q r s = [char_of (p * 4 + q div 16), char_of (q mod 16 * 16 + r div 4), char_of (r mod 4 * 64 + s)]"

fun b64_quads :: "string \<Rightarrow> string option" where
  "b64_quads [] = Some []"
| "b64_quads (a # b # c # d # s) =
     (case (b64_val a, b64_val b) of
        (Some p, Some q) \<Rightarrow>
          (if c = CHR ''='' \<and> d = CHR ''='' then (if s = [] then Some (take 1 (b64_bytes p q 0 0)) else None)
           else case b64_val c of
             None \<Rightarrow> None
           | Some r \<Rightarrow>
               (if d = CHR ''='' then (if s = [] then Some (take 2 (b64_bytes p q r 0)) else None)
                else case b64_val d of
                  None \<Rightarrow> None
                | Some t \<Rightarrow> map_option (\<lambda>u. b64_bytes p q r t @ u) (b64_quads s)))
      | _ \<Rightarrow> None)"
| "b64_quads _ = None"

text \<open>Line breaks are skipped.\<close>

definition DecodeString :: "string \<Rightarrow> string option" where
  "DecodeString s = b64_quads (filter (\<lambda>c. c \<noteq> chr_nl \<and> c \<noteq> CHR 0x0D) s)"

lemma b64_val_char: "n < 64 \<Longrightarrow> b64_val (b64_char n) = Some n"
  by (auto simp: b64_char_def b64_val_def Let_def)

lemma b64_char_plain: "n < 64 \<Longrightarrow> b64_char n \<noteq> CHR ''='' \<and> b64_char n \<noteq> chr_nl \<and> b64_char n \<noteq> CHR 0x0D"
  using b64_val_char [of n] by (auto simp: b64_val_def)

lemma alphabet_chars: "map b64_char [0..<64] = b64_alphabet"
  by code_simp

lemma byte_small: "(of_char c :: nat) < 256"
  by (rule nat_of_char_less_256)

lemma byte_split:
  fixes x y z :: nat
  assumes "x < 256" "y < 256" "z < 256"
  shows "x div 4 < 64" "x mod 4 * 16 < 64" "x mod 4 * 16 + y div 16 < 64" "y mod 16 * 4 < 64" "y mod 16 * 4 + z div 64 < 64"
  using assms by auto

lemmas byte_parts = byte_split [OF byte_small byte_small byte_small]

lemma carry: "m < n \<Longrightarrow> (k * n + m) div n = k \<and> (k * n + m) mod n = (m :: nat)"
  by simp

lemma b64_bytes_back:
  assumes "x < 256" "y < 256" "z < (256 :: nat)"
  shows "b64_bytes (x div 4) (x mod 4 * 16 + y div 16) (y mod 16 * 4 + z div 64) (z mod 64)
    = [char_of x, char_of y, char_of z]"
proof -
  have 1: "(x mod 4 * 16 + y div 16) div 16 = x mod 4" "(x mod 4 * 16 + y div 16) mod 16 = y div 16"
    using carry [of "y div 16" 16 "x mod 4"] assms by auto
  have 2: "(y mod 16 * 4 + z div 64) div 4 = y mod 16" "(y mod 16 * 4 + z div 64) mod 4 = z div 64"
    using carry [of "z div 64" 4 "y mod 16"] assms by auto
  show ?thesis unfolding b64_bytes_def 1 2 by simp
qed

lemma quads_back: "b64_quads (EncodeToString s) = Some s"
proof (induction s rule: EncodeToString.induct)
  case (2 a)
  define x where "x = (of_char a :: nat)"
  have x: "x < 256" "char_of x = a" by (simp_all add: x_def byte_small)
  have lt: "x div 4 < 64" "x mod 4 * 16 < 64" using x by auto
  show ?case using b64_bytes_back [of x 0 0] x
    by (simp add: b64_val_char [OF lt(1)] b64_val_char [OF lt(2)] flip: x_def)
next
  case (3 a b)
  define x y where "x = (of_char a :: nat)" and "y = (of_char b :: nat)"
  have x: "x < 256" "char_of x = a" "y < 256" "char_of y = b" by (simp_all add: x_def y_def byte_small)
  have lt: "x div 4 < 64" "x mod 4 * 16 + y div 16 < 64" "y mod 16 * 4 < 64" using x by auto
  show ?case using b64_bytes_back [of x y 0] x b64_char_plain [OF lt(3)]
    by (simp add: b64_val_char [OF lt(1)] b64_val_char [OF lt(2)] b64_val_char [OF lt(3)] flip: x_def y_def)
next
  case (4 a b c s)
  define x y z where "x = (of_char a :: nat)" and "y = (of_char b :: nat)" and "z = (of_char c :: nat)"
  have x: "x < 256" "char_of x = a" "y < 256" "char_of y = b" "z < 256" "char_of z = c"
    by (simp_all add: x_def y_def z_def byte_small)
  have lt: "x div 4 < 64" "x mod 4 * 16 + y div 16 < 64" "y mod 16 * 4 + z div 64 < 64" "z mod 64 < 64" using x by auto
  show ?case using b64_bytes_back [of x y z] x b64_char_plain [OF lt(3)] b64_char_plain [OF lt(4)] 4
    by (simp add: b64_val_char [OF lt(1)] b64_val_char [OF lt(2)] b64_val_char [OF lt(3)] b64_val_char [OF lt(4)]
        flip: x_def y_def z_def)
qed simp

lemma encode_no_break: "\<forall>c \<in> set (EncodeToString s). c \<noteq> chr_nl \<and> c \<noteq> CHR 0x0D"
  by (induction s rule: EncodeToString.induct) (simp_all add: Let_def b64_char_plain byte_parts)

lemma DecodeString_Encode: "DecodeString (EncodeToString s) = Some s"
  using encode_no_break [of s] by (simp add: DecodeString_def quads_back filter_id_conv [THEN iffD2])

section \<open>Envelopes\<close>

record envelope =
  ev_format :: string
  ev_kdf :: string
  ev_cipher :: string
  ev_n :: int
  ev_r :: int
  ev_p :: int
  ev_salt :: string
  ev_nonce :: string
  ev_ciphertext :: string

text \<open>
  What the code calls. \<open>cr_probe\<close> decodes only the format and the ciphertext of a text, empty where the
  text has no such key.
\<close>

record crypto =
  cr_salt :: "string option"
  cr_nonce :: "string option"
  cr_scrypt :: "string \<Rightarrow> string \<Rightarrow> int \<Rightarrow> int \<Rightarrow> int \<Rightarrow> nat \<Rightarrow> string res"
  cr_seal :: "string \<Rightarrow> string \<Rightarrow> string \<Rightarrow> string"
  cr_open :: "string \<Rightarrow> string \<Rightarrow> string \<Rightarrow> string option"
  cr_marshal :: "envelope \<Rightarrow> string"
  cr_unmarshal :: "string \<Rightarrow> envelope option"
  cr_probe :: "string \<Rightarrow> (string \<times> string) option"
  cr_file_text :: "backup_file \<Rightarrow> string"
  cr_file_of :: "string \<Rightarrow> backup_file option"

definition encryptedBackupFormat :: string where
  "encryptedBackupFormat = ''netplug-encrypted-backup-v1''"

definition ValidateBackupPassword :: "string \<Rightarrow> goerr option" where
  "ValidateBackupPassword pw =
     (if trim pw = [] then None
      else if length (trim pw) < 4 then Some (ErrMsg ''backup password must be at least 4 characters'')
      else if length (trim pw) > 256 then Some (ErrMsg ''backup password must be at most 256 characters'')
      else None)"

definition IsEncryptedBackupEnvelope :: "crypto \<Rightarrow> string \<Rightarrow> bool" where
  "IsEncryptedBackupEnvelope c text =
     (case cr_probe c text of
        None \<Rightarrow> False
      | Some (fmt, ct) \<Rightarrow> fmt = encryptedBackupFormat \<and> trim ct \<noteq> [])"

text \<open>\<open>aes.NewCipher\<close> takes keys of three lengths; \<open>cipher.NewGCM\<close> takes every AES cipher.\<close>

definition new_gcm :: "string \<Rightarrow> string res" where
  "new_gcm key = (if length key \<in> {16, 24, 32} then Inr key else Inl (ErrMsg ''crypto/aes: invalid key size''))"

definition seal_envelope :: "crypto \<Rightarrow> string \<Rightarrow> string \<Rightarrow> string \<Rightarrow> string \<Rightarrow> envelope" where
  "seal_envelope c salt nonce key body =
     \<lparr>ev_format = encryptedBackupFormat, ev_kdf = ''scrypt'', ev_cipher = ''aes-256-gcm'', ev_n = 16384, ev_r = 8, ev_p = 1,
      ev_salt = EncodeToString salt, ev_nonce = EncodeToString nonce, ev_ciphertext = EncodeToString (cr_seal c key nonce body)\<rparr>"

definition EncryptBackupPayload :: "crypto \<Rightarrow> string \<Rightarrow> string \<Rightarrow> string res" where
  "EncryptBackupPayload c body pw0 =
     (let pw = trim pw0 in
      if pw = [] then Inl (ErrMsg ''backup password is required for encryption'')
      else case ValidateBackupPassword pw of
        Some e \<Rightarrow> Inl e
      | None \<Rightarrow>
          (case cr_salt c of
             None \<Rightarrow> Inl (ErrIO ''rand'')
           | Some salt \<Rightarrow>
               bindR (cr_scrypt c pw salt 16384 8 1 32) (\<lambda>raw. bindR (new_gcm raw) (\<lambda>key.
                 case cr_nonce c of
                   None \<Rightarrow> Inl (ErrIO ''rand'')
                 | Some nonce \<Rightarrow> Inr (cr_marshal c (seal_envelope c salt nonce key body))))))"

definition decoded :: "(string \<Rightarrow> bool) \<Rightarrow> string \<Rightarrow> string \<Rightarrow> string res" where
  "decoded ok err s = (case DecodeString s of None \<Rightarrow> Inl (ErrMsg err) | Some b \<Rightarrow> if ok b then Inr b else Inl (ErrMsg err))"

definition open_envelope :: "crypto \<Rightarrow> envelope \<Rightarrow> string \<Rightarrow> string res" where
  "open_envelope c ev pw =
     (if ev_format ev \<noteq> encryptedBackupFormat then Inl (ErrMsg ''not an encrypted backup file'')
      else if ev_kdf ev \<noteq> ''scrypt'' \<or> ev_cipher ev \<noteq> ''aes-256-gcm''
        then Inl (ErrMsg ''unsupported backup encryption parameters'')
      else if ev_n ev < 8192 \<or> ev_r ev < 1 \<or> ev_p ev < 1
        then Inl (ErrMsg ''backup was created with incompatible encryption settings'')
      else
        bindR (decoded (\<lambda>b. b \<noteq> []) ''invalid backup salt'' (ev_salt ev)) (\<lambda>salt.
        bindR (decoded (\<lambda>b. length b = 12) ''invalid backup nonce'' (ev_nonce ev)) (\<lambda>nonce.
        bindR (decoded (\<lambda>b. b \<noteq> []) ''invalid backup ciphertext'' (ev_ciphertext ev)) (\<lambda>ct.
        bindR (cr_scrypt c pw salt (ev_n ev) (ev_r ev) (ev_p ev) 32) (\<lambda>raw.
        bindR (new_gcm raw) (\<lambda>key.
          case cr_open c key nonce ct of
            None \<Rightarrow> Inl (ErrMsg ''incorrect backup password or corrupted backup file'')
          | Some body \<Rightarrow> Inr body))))))"

definition DecryptBackupPayload :: "crypto \<Rightarrow> string \<Rightarrow> string \<Rightarrow> string res" where
  "DecryptBackupPayload c text pw0 =
     (let pw = trim pw0 in
      if pw = [] then Inl (ErrMsg ''backup password is required for encrypted backups'')
      else case ValidateBackupPassword pw of
        Some e \<Rightarrow> Inl e
      | None \<Rightarrow>
          (case cr_unmarshal c text of
             None \<Rightarrow> Inl (ErrMsg ''invalid encrypted backup file'')
           | Some ev \<Rightarrow> open_envelope c ev pw))"

section \<open>Archives\<close>

definition ExportBackupArchive :: "crypto \<Rightarrow> string \<Rightarrow> db \<Rightarrow> string \<Rightarrow> string res" where
  "ExportBackupArchive c stamp d pw0 =
     bindR (ExportBackup stamp d) (\<lambda>file.
       (let body = cr_file_text c file; pw = trim pw0 in
        if pw = [] then Inr body
        else case ValidateBackupPassword pw of
          Some e \<Rightarrow> Inl e
        | None \<Rightarrow> EncryptBackupPayload c body pw))"

definition ParseBackupArchive :: "crypto \<Rightarrow> string \<Rightarrow> string \<Rightarrow> backup_file res" where
  "ParseBackupArchive c text0 pw =
     (let text = trim text0 in
      if text = [] then Inl (ErrMsg ''backup file is empty'')
      else
        bindR (if IsEncryptedBackupEnvelope c text then DecryptBackupPayload c text pw else Inr text) (\<lambda>body.
          case cr_file_of c body of
            None \<Rightarrow> Inl (ErrMsg ''invalid backup file'')
          | Some file \<Rightarrow>
              if bf_version file \<noteq> 1 then Inl (ErrMsg (''unsupported backup version '' @ itoa (bf_version file))) else Inr file))"

section \<open>An archive reads back\<close>

text \<open>
  The documented behaviour of what is called. JSON keeps strings of printable ASCII characters and drops
  nothing of an envelope; scrypt returns as many bytes as it was asked for; AES-GCM opens what it sealed, and
  a sealed text has a tag; a draw has the length that was asked for.
\<close>

definition printable :: "string \<Rightarrow> bool" where
  "printable s \<longleftrightarrow> list_all (\<lambda>c. 32 < (of_char c :: nat) \<and> of_char c < (127 :: nat)) s"

definition printable_envelope :: "envelope \<Rightarrow> bool" where
  "printable_envelope ev \<longleftrightarrow> list_all printable [ev_format ev, ev_kdf ev, ev_cipher ev, ev_salt ev, ev_nonce ev, ev_ciphertext ev]
     \<and> list_all int64_ok [ev_n ev, ev_r ev, ev_p ev]"

definition json_keeps :: "crypto \<Rightarrow> bool" where
  "json_keeps c \<longleftrightarrow> (\<forall>ev. printable_envelope ev \<longrightarrow>
     cr_unmarshal c (cr_marshal c ev) = Some ev \<and> cr_probe c (cr_marshal c ev) = Some (ev_format ev, ev_ciphertext ev)
     \<and> trim (cr_marshal c ev) = cr_marshal c ev \<and> cr_marshal c ev \<noteq> [])"

definition crypto_contract :: "crypto \<Rightarrow> bool" where
  "crypto_contract c \<longleftrightarrow>
     (\<forall>s. cr_salt c = Some s \<longrightarrow> length s = 32) \<and> (\<forall>s. cr_nonce c = Some s \<longrightarrow> length s = 12)
   \<and> (\<forall>pw s n r p len k. cr_scrypt c pw s n r p len = Inr k \<longrightarrow> length k = len)
   \<and> (\<forall>k n m. length k = 32 \<and> length n = 12 \<longrightarrow> cr_open c k n (cr_seal c k n m) = Some m \<and> cr_seal c k n m \<noteq> [])"

text \<open>A backup whose text is read back, and has none of the keys of an envelope.\<close>

definition json_keeps_file :: "crypto \<Rightarrow> backup_file \<Rightarrow> bool" where
  "json_keeps_file c f \<longleftrightarrow>
     cr_file_of c (cr_file_text c f) = Some f \<and> cr_probe c (cr_file_text c f) = Some ([], [])
     \<and> trim (cr_file_text c f) = cr_file_text c f \<and> cr_file_text c f \<noteq> []"

lemma b64_printable: "n < 64 \<Longrightarrow> 32 < (of_char (b64_char n) :: nat) \<and> of_char (b64_char n) < (127 :: nat)"
  by (auto simp: b64_char_def)

lemma encode_printable: "printable (EncodeToString s)"
  unfolding printable_def
  by (induction s rule: EncodeToString.induct) (simp_all add: Let_def b64_printable byte_parts)

lemma printable_trim: "printable s \<Longrightarrow> trim s = s"
  by (rule trim_plain) (auto simp: printable_def list_all_iff plain_def ascii_space_def)

lemma encode_Nil: "EncodeToString s = [] \<longleftrightarrow> s = []"
  by (cases s rule: EncodeToString.cases) (simp_all add: Let_def)

lemma sealed_printable: "printable_envelope (seal_envelope c salt nonce key body)"
  by (simp add: printable_envelope_def seal_envelope_def encode_printable) (simp add: printable_def encryptedBackupFormat_def int64_ok_def)

lemma open_sealed:
  assumes "crypto_contract c" and "cr_salt c = Some salt" and "cr_nonce c = Some nonce"
    and "cr_scrypt c pw salt 16384 8 1 32 = Inr key"
  shows "open_envelope c (seal_envelope c salt nonce key body) pw = Inr body"
proof -
  have len: "length salt = 32" "length nonce = 12" "length key = 32" using assms unfolding crypto_contract_def by blast+
  then have "salt \<noteq> []" by auto
  moreover have "cr_open c key nonce (cr_seal c key nonce body) = Some body \<and> cr_seal c key nonce body \<noteq> []"
    using assms(1) len unfolding crypto_contract_def by blast
  ultimately show ?thesis
    by (simp add: open_envelope_def seal_envelope_def decoded_def DecodeString_Encode len assms(4) new_gcm_def)
qed

lemma sealed_opens:
  assumes "json_keeps c" and "crypto_contract c" and "EncryptBackupPayload c body pw = Inr text" and "trim pw' = trim pw"
  shows "IsEncryptedBackupEnvelope c text \<and> trim text = text \<and> text \<noteq> [] \<and> DecryptBackupPayload c text pw' = Inr body"
proof -
  from assms(3) obtain salt key nonce where p: "trim pw \<noteq> []" "ValidateBackupPassword (trim pw) = None"
    "cr_salt c = Some salt" "cr_scrypt c (trim pw) salt 16384 8 1 32 = Inr key" "cr_nonce c = Some nonce"
    "text = cr_marshal c (seal_envelope c salt nonce key body)"
    by (auto simp: EncryptBackupPayload_def Let_def bindR_eq_Inr new_gcm_def split: if_splits option.splits)
  let ?ev = "seal_envelope c salt nonce key body"
  have j: "cr_unmarshal c text = Some ?ev" "cr_probe c text = Some (ev_format ?ev, ev_ciphertext ?ev)" "trim text = text" "text \<noteq> []"
    using assms(1) sealed_printable p(6) unfolding json_keeps_def by auto
  have len: "length nonce = 12" "length key = 32" using assms(2) p(4,5) unfolding crypto_contract_def by blast+
  then have "cr_seal c key nonce body \<noteq> []" using assms(2) unfolding crypto_contract_def by blast
  then have "IsEncryptedBackupEnvelope c text"
    by (simp add: IsEncryptedBackupEnvelope_def j(2) seal_envelope_def printable_trim [OF encode_printable] encode_Nil)
  moreover have "DecryptBackupPayload c text pw' = Inr body"
    using p j(1) open_sealed [OF assms(2) p(3,5,4)] assms(4) by (simp add: DecryptBackupPayload_def)
  ultimately show ?thesis using j(3,4) by simp
qed

text \<open>
  C12. An archive reads back: what \<open>ExportBackupArchive\<close> writes is read by \<open>ParseBackupArchive\<close> as
  exactly the exported backup, without encryption whatever password is then given, and with encryption for
  the same password up to surrounding white space, while no password is refused. It rests on the
  documented behaviour of JSON, scrypt and AES-GCM; the Base64 coding in between is proved.
\<close>

theorem archive_reads_back:
  assumes "json_keeps c" and "crypto_contract c" and "ExportBackup stamp d = Inr file" and "json_keeps_file c file"
    and "ExportBackupArchive c stamp d pw = Inr text" and "trim pw = [] \<or> trim pw' = trim pw"
  shows "ParseBackupArchive c text pw' = Inr file
    \<and> (trim pw \<noteq> [] \<longrightarrow>
         ParseBackupArchive c text [] = Inl (ErrMsg ''backup password is required for encrypted backups''))"
proof -
  have v: "bf_version file = 1" using assms(3) by (auto simp: ExportBackup_def bindR_eq_Inr split: option.splits)
  have f: "cr_file_of c (cr_file_text c file) = Some file" "cr_probe c (cr_file_text c file) = Some ([], [])"
    "trim (cr_file_text c file) = cr_file_text c file" "cr_file_text c file \<noteq> []"
    using assms(4) unfolding json_keeps_file_def by blast+
  show ?thesis
  proof (cases "trim pw = []")
    case True
    then have "text = cr_file_text c file" using assms(3,5) by (simp add: ExportBackupArchive_def)
    then show ?thesis
      using True f v by (simp add: ParseBackupArchive_def IsEncryptedBackupEnvelope_def encryptedBackupFormat_def)
  next
    case False
    then have e: "EncryptBackupPayload c (cr_file_text c file) (trim pw) = Inr text"
      using assms(3,5) by (simp add: ExportBackupArchive_def Let_def split: option.splits)
    have "trim pw' = trim (trim pw)" using False assms(6) by simp
    from sealed_opens [OF assms(1,2) e this] f v False show ?thesis
      by (simp add: ParseBackupArchive_def) (simp add: DecryptBackupPayload_def)
  qed
qed

text \<open>An instance: fields between blanks for JSON, a marked copy for sealing.\<close>

definition ex_marshal :: "envelope \<Rightarrow> string" where
  "ex_marshal ev = join '' '' [''{'', ev_format ev, ev_kdf ev, ev_cipher ev, itoa (ev_n ev), itoa (ev_r ev), itoa (ev_p ev),
     ev_salt ev, ev_nonce ev, ev_ciphertext ev, ''}'']"

definition ex_unmarshal :: "string \<Rightarrow> envelope option" where
  "ex_unmarshal s =
     (case split_on (CHR '' '') s of
        [_, f, k, ci, n, r, p, sa, no, ct, _] \<Rightarrow>
          (case (atoi n, atoi r, atoi p) of
             (Some n, Some r, Some p) \<Rightarrow> Some \<lparr>ev_format = f, ev_kdf = k, ev_cipher = ci, ev_n = n, ev_r = r, ev_p = p,
               ev_salt = sa, ev_nonce = no, ev_ciphertext = ct\<rparr>
           | _ \<Rightarrow> None)
      | _ \<Rightarrow> None)"

definition ex_crypto :: "backup_file \<Rightarrow> crypto" where
  "ex_crypto f = \<lparr>cr_salt = Some (replicate 32 (CHR ''s'')), cr_nonce = Some (replicate 12 (CHR ''n'')),
     cr_scrypt = (\<lambda>pw s n r p len. Inr (replicate len (CHR ''k''))), cr_seal = (\<lambda>k n m. CHR ''t'' # m),
     cr_open = (\<lambda>k n ct. if ct = [] then None else Some (tl ct)), cr_marshal = ex_marshal, cr_unmarshal = ex_unmarshal,
     cr_probe = (\<lambda>t. case ex_unmarshal t of None \<Rightarrow> Some ([], []) | Some ev \<Rightarrow> Some (ev_format ev, ev_ciphertext ev)),
     cr_file_text = (\<lambda>_. ''{}''), cr_file_of = (\<lambda>_. Some f)\<rparr>"

lemma no_blank: "printable s \<Longrightarrow> CHR '' '' \<notin> set s"
  by (auto simp: printable_def list_all_iff)

lemma itoa_no_blank: "CHR '' '' \<notin> set (itoa i)"
  using nat_str_is_digit [of "CHR '' ''"] by (auto simp: itoa_def is_digit_def)

lemma ex_json_keeps: "json_keeps (ex_crypto f)"
  unfolding json_keeps_def
proof (intro allI impI)
  fix ev assume p: "printable_envelope ev"
  let ?fs = "[''{'', ev_format ev, ev_kdf ev, ev_cipher ev, itoa (ev_n ev), itoa (ev_r ev), itoa (ev_p ev),
     ev_salt ev, ev_nonce ev, ev_ciphertext ev, ''}'']"
  have nb: "\<forall>w \<in> set ?fs. CHR '' '' \<notin> set w"
    using p by (simp add: printable_envelope_def no_blank itoa_no_blank)
  have "split_on (CHR '' '') (ex_marshal ev) = ?fs"
    unfolding ex_marshal_def by (rule split_on_join [OF _ nb]) simp
  then have "ex_unmarshal (ex_marshal ev) = Some ev"
    using p by (simp add: ex_unmarshal_def atoi_itoa printable_envelope_def)
  moreover have "trim (ex_marshal ev) = ex_marshal ev"
    by (rule trim_trimmed, rule trimmed_plain_ends) (simp_all add: ex_marshal_def plain_def ascii_space_def)
  moreover have "ex_marshal ev \<noteq> []" by (simp add: ex_marshal_def)
  ultimately show "cr_unmarshal (ex_crypto f) (cr_marshal (ex_crypto f) ev) = Some ev
      \<and> cr_probe (ex_crypto f) (cr_marshal (ex_crypto f) ev) = Some (ev_format ev, ev_ciphertext ev)
      \<and> trim (cr_marshal (ex_crypto f) ev) = cr_marshal (ex_crypto f) ev \<and> cr_marshal (ex_crypto f) ev \<noteq> []"
    by (simp add: ex_crypto_def)
qed

lemma ex_crypto_contract: "crypto_contract (ex_crypto f)"
  by (auto simp: crypto_contract_def ex_crypto_def)

lemma ex_keeps_file: "json_keeps_file (ex_crypto f) f"
proof -
  have "trim ''{}'' = ''{}''" by (rule trim_plain) (simp add: plain_def ascii_space_def)
  moreover have "ex_unmarshal ''{}'' = None" by (simp add: ex_unmarshal_def)
  ultimately show ?thesis by (simp add: json_keeps_file_def ex_crypto_def)
qed

lemma archive_reads_back_witness:
  "\<exists>file text. ExportBackup ''t'' ex_bk_db = Inr file \<and> ExportBackupArchive (ex_crypto file) ''t'' ex_bk_db ''pass'' = Inr text
     \<and> ParseBackupArchive (ex_crypto file) text '' pass'' = Inr file"
proof -
  have "exportGroups ex_bk_db = Inr []" by (simp add: exportGroups_def group_rows_def ex_bk_defs)
  then obtain b where f: "ExportBackup ''t'' ex_bk_db = Inr b" by (simp add: ExportBackup_def ex_bk_config)
  have t: "trim ''pass'' = ''pass''" by (rule trim_plain) (simp add: plain_def ascii_space_def)
  then have t': "trim '' pass'' = ''pass''" by (simp add: trim_blank_Cons ascii_space_def)
  obtain arch where e: "ExportBackupArchive (ex_crypto b) ''t'' ex_bk_db ''pass'' = Inr arch"
    by (simp add: ExportBackupArchive_def f t ValidateBackupPassword_def EncryptBackupPayload_def ex_crypto_def new_gcm_def)
  from archive_reads_back [OF ex_json_keeps ex_crypto_contract f ex_keeps_file e, of "'' pass''"] t t' f e
  show ?thesis by auto
qed

end
