(* ===== verification/App_Server.thy ===== *)
theory App_Server
  imports App_Dns Backup_Crypto
begin

text \<open>
  The handlers that save, reload and restart the WireGuard server and those that write and read a
  backup (\<open>internal/app/handlers.go\<close>). They run on the state of the DNS manager, since CoreDNS is
  started again after the interface. A decoded JSON body is an argument; headers other than those the code looks
  at are left out.
\<close>

section \<open>Saving, reloading and restarting\<close>

definition wireguard_form :: "request \<Rightarrow> wgconf" where
  "wireguard_form r =
     \<lparr>w_enabled = True, w_server_host = field r ''server_host'', w_server_port = mustAtoi (formValue r ''server_port'') 51820,
      w_server_address = field r ''server_address'', w_client_range = field r ''client_address_range'', w_dns = field r ''dns'',
      w_mtu = mustAtoi (formValue r ''mtu'') 1420, w_keepalive = mustAtoi (formValue r ''persistent_keepalive'') 25,
      w_allowed_ips = field r ''allowed_ips'', w_pre_up = formValue r ''pre_up'', w_pre_down = formValue r ''pre_down'',
      w_post_up = formValue r ''post_up'', w_post_down = formValue r ''post_down''\<rparr>"

definition with_state :: "db \<times> 'm world \<Rightarrow> 'm dns_sys \<Rightarrow> 'm dns_sys" where
  "with_state p s = s\<lparr>sy_db := fst p, sy_world := snd p\<rparr>"

definition applyDNSAfterWireGuard :: "'m dns_app \<Rightarrow> save_result \<Rightarrow> 'm dns_sys \<Rightarrow> 'm dns_sys \<times> save_result" where
  "applyDNSAfterWireGuard e res s =
     (if \<not> sr_applied res then (s, res)
      else case applyDNSFromDB e s of
        (s', Some _) \<Rightarrow> (s', res)
      | (s', None) \<Rightarrow>
          (s', if dst_running (Status (sy_mgr s')) then res\<lparr>sr_text := sr_text res @ '' CoreDNS started.''\<rparr> else res))"

definition at_wireguard :: "string \<Rightarrow> string \<Rightarrow> response" where
  "at_wireguard kind msg = redirect (''/ui/wireguard?msgType='' @ urlQueryEscape kind @ ''&msg='' @ urlQueryEscape msg)"

text \<open>The common end of the three handlers.\<close>

definition wireguard_done :: "'m dns_app \<Rightarrow> save_result res \<Rightarrow> 'm dns_sys \<Rightarrow> 'm dns_sys \<times> response" where
  "wireguard_done e out s =
     (case out of
        Inl err \<Rightarrow> (s, at_wireguard ''error'' (errText err))
      | Inr res \<Rightarrow>
          (case applyDNSAfterWireGuard e res (on_app (reconcilePCQ (da_env e)) s) of
             (s', res') \<Rightarrow> (s', at_wireguard (sr_type res') (sr_text res'))))"

definition save_state_of :: "'m dns_app \<Rightarrow> wgconf \<Rightarrow> string \<Rightarrow> 'm dns_sys \<Rightarrow> (db \<times> 'm world) \<times> save_result res" where
  "save_state_of e cfg key s =
     (let env = da_env e in
      SaveWireGuardState (ae_run env) (ae_io env) (ae_tmp_fails env) (ae_stamp env) (ae_derive env) (ae_data env)
        (ae_iface env) cfg key (sy_db s, sy_world s))"

definition WireGuardSavePost :: "'m dns_app \<Rightarrow> request \<Rightarrow> 'm dns_sys \<Rightarrow> 'm dns_sys \<times> response" where
  "WireGuardSavePost e r s =
     (if rq_form r = None then (s, httpError 400 ''bad form'')
      else case save_state_of e (wireguard_form r) (field r ''server_private_key'') s of
        (p, out) \<Rightarrow> wireguard_done e out (with_state p s))"

definition WireGuardReloadPost :: "'m dns_app \<Rightarrow> 'm dns_sys \<Rightarrow> 'm dns_sys \<times> response" where
  "WireGuardReloadPost e s =
     (let env = da_env e in
      case ReloadWireGuard (ae_run env) (ae_io env) (ae_tmp_fails env) (ae_stamp env) (ae_data env) (ae_iface env)
             (sy_db s) (sy_world s) of
        (wd, out) \<Rightarrow> wireguard_done e out (s\<lparr>sy_world := wd\<rparr>))"

definition WireGuardRestartPost :: "'m dns_app \<Rightarrow> 'm dns_sys \<Rightarrow> 'm dns_sys \<times> response" where
  "WireGuardRestartPost e s =
     (let env = da_env e in
      case RestartWireGuard (ae_run env) (ae_io env) (ae_stamp env) (ae_data env) (ae_iface env) (sy_db s) (sy_world s) of
        (wd, out) \<Rightarrow> wireguard_done e out (s\<lparr>sy_world := wd\<rparr>))"

text \<open>
  The body of the API request is the configuration and the key, None when it is not JSON. The answer is the
  message and the two flags of the result.
\<close>

definition json_error :: "string \<Rightarrow> string" where
  "json_error msg = (let quoted = (\<lambda>x. [CHR 0x22] @ x @ [CHR 0x22]) in ''{'' @ quoted ''error'' @ '':'' @ quoted msg @ ''}'')"

definition WireGuardAPIPut ::
  "'m dns_app \<Rightarrow> (wgconf \<times> string) option \<Rightarrow> 'm dns_sys \<Rightarrow> 'm dns_sys \<times> (response + string \<times> bool \<times> bool)" where
  "WireGuardAPIPut e payload s =
     (case payload of
        None \<Rightarrow> (s, Inl (httpError 400 (json_error ''bad json'')))
      | Some (cfg, key) \<Rightarrow>
          (case save_state_of e cfg key s of
             (p, Inl _) \<Rightarrow> (with_state p s, Inl (httpError 500 (json_error ''save failed'')))
           | (p, Inr res) \<Rightarrow>
               (on_app (reconcilePCQ (da_env e)) (with_state p s), Inr (sr_text res, sr_wrote res, sr_applied res))))"

section \<open>Backups\<close>

text \<open>
  The answer with an error is the message, as JSON or in the target of a redirection.
  A request for a backup: whether it wants JSON by its own header or by its content type, the password
  of a JSON body, None when the body does not decode, and the form. The file of a restore is an upload.
\<close>

record backup_request =
  br_json_header :: bool
  br_json_type :: bool
  br_json_password :: "string option"
  br_form :: request

definition wireguardBackupError :: "backup_request \<Rightarrow> string \<Rightarrow> nat \<Rightarrow> response" where
  "wireguardBackupError q msg code =
     (if br_json_header q then httpError code msg
      else redirect (''/ui/backup?msgType=error&msg='' @ urlQueryEscape msg))"

definition parseWireGuardBackupPassword :: "backup_request \<Rightarrow> string res" where
  "parseWireGuardBackupPassword q =
     (if br_json_header q \<or> br_json_type q then
        (case br_json_password q of None \<Rightarrow> Inl (ErrMsg ''invalid backup request'') | Some pw \<Rightarrow> Inr (trim pw))
      else if rq_form (br_form q) = None then Inl (ErrMsg ''invalid backup request'')
      else Inr (field (br_form q) ''backup_password''))"

definition WireGuardBackupPost :: "crypto \<Rightarrow> string \<Rightarrow> backup_request \<Rightarrow> db \<Rightarrow> response" where
  "WireGuardBackupPost c stamp q d =
     (case parseWireGuardBackupPassword q of
        Inl e \<Rightarrow> wireguardBackupError q (errText e) 400
      | Inr pw \<Rightarrow>
          (case (if pw \<noteq> [] then ValidateBackupPassword pw else None) of
             Some e \<Rightarrow> wireguardBackupError q (errText e) 400
           | None \<Rightarrow>
               (case ExportBackupArchive c stamp d pw of
                  Inl e \<Rightarrow> wireguardBackupError q (errText e) 500
                | Inr archive \<Rightarrow> \<lparr>rs_code = 200, rs_location = [], rs_toast = None, rs_body = archive\<rparr>)))"

definition at_backup :: "string \<Rightarrow> string \<Rightarrow> response" where
  "at_backup kind msg = redirect (''/ui/backup?msgType='' @ kind @ ''&msg='' @ urlQueryEscape msg)"

definition read_upload :: "crypto \<Rightarrow> request \<Rightarrow> upload \<Rightarrow> backup_file res" where
  "read_upload c r file =
     (if rq_form r = None then Inl (ErrMsg ''Invalid backup upload.'')
      else case file of
        NoFile \<Rightarrow> Inl (ErrMsg ''Backup file is required.'')
      | Unreadable \<Rightarrow> Inl (ErrMsg ''Could not read backup file.'')
      | Content raw \<Rightarrow> ParseBackupArchive c (take (32 * 2 ^ 20) raw) (field r ''backup_password''))"

definition WireGuardRestorePost ::
  "crypto \<Rightarrow> restore_env \<Rightarrow> 'm app_env \<Rightarrow> request \<Rightarrow> upload \<Rightarrow> 'm app \<Rightarrow> 'm app \<times> response" where
  "WireGuardRestorePost c renv env r file st =
     (case read_upload c r file of
        Inl e \<Rightarrow> (st, at_backup ''error'' (errText e))
      | Inr b \<Rightarrow>
          (case RestoreBackup (ae_run env) (ae_io env) (ae_stamp env) renv (ae_data env) (ae_iface env) b
                  (formValue r ''replace_peers'' = ''on'') (formValue r ''replace_groups'' = ''on'')
                  (ap_db st, ap_world st) of
             ((d, wd), Some e) \<Rightarrow> (st\<lparr>ap_db := d, ap_world := wd\<rparr>, at_backup ''error'' (errText e))
           | ((d, wd), None) \<Rightarrow>
               (reconcilePCQ env (st\<lparr>ap_db := d, ap_world := wd\<rparr>),
                at_backup ''success'' ''Backup restored and WireGuard restarted.'')))"

end
