(* ===== verification/App_Config.thy ===== *)
theory App_Config
  imports Go_Time
begin

text \<open>
  What the process reads at its start and what the templates print: the environment
  (\<open>internal/app/config.go\<close>), the revision of the build (\<open>internal/version/version.go\<close>) and the helpers of the
  views (\<open>internal/view/view.go\<close>, \<open>format.go\<close>). The environment, the build's metadata and the answer of \<open>git\<close>
  are arguments.
\<close>

section \<open>Configuration\<close>

record config =
  cf_http_addr :: string
  cf_data_dir :: string
  cf_db_path :: string
  cf_cookie_secure :: bool
  cf_interface :: string
  cf_interval :: int
  cf_pcq_disabled :: bool
  cf_debug :: bool
  cf_coredns :: string
  cf_root :: string

definition env_or :: "(string \<Rightarrow> string) \<Rightarrow> string \<Rightarrow> string \<Rightarrow> string" where
  "env_or getenv key fallback = (if getenv key \<noteq> [] then getenv key else fallback)"

definition parseBool :: "string \<Rightarrow> bool option" where
  "parseBool s =
     (if s \<in> {''1'', ''t'', ''T'', ''true'', ''TRUE'', ''True''} then Some True
      else if s \<in> {''0'', ''f'', ''F'', ''false'', ''FALSE'', ''False''} then Some False
      else None)"

definition envBoolFlexible :: "(string \<Rightarrow> string) \<Rightarrow> string \<Rightarrow> bool \<Rightarrow> bool" where
  "envBoolFlexible getenv key fallback =
     (let v = trim (toLower (getenv key)) in
      if v = [] then fallback
      else if v \<in> {''1'', ''true'', ''yes'', ''on''} then True
      else if v \<in> {''0'', ''false'', ''no'', ''off''} then False
      else case parseBool v of None \<Rightarrow> fallback | Some b \<Rightarrow> b)"

definition cookie_secure :: "string \<Rightarrow> bool res" where
  "cookie_secure v =
     (if v = [] then Inr False
      else case parseBool v of None \<Rightarrow> Inl (ErrMsg ''COOKIE_SECURE must be true/false'') | Some b \<Rightarrow> Inr b)"

definition sync_interval :: "string \<Rightarrow> int res" where
  "sync_interval v =
     (if v = [] then Inr 30
      else case atoi v of
        None \<Rightarrow> Inl (ErrMsg ''WIREGUARD_SYNC_INTERVAL_SEC must be a positive integer'')
      | Some n \<Rightarrow>
          if n \<le> 0 then Inl (ErrMsg ''WIREGUARD_SYNC_INTERVAL_SEC must be a positive integer'') else Inr n)"

definition LoadConfig :: "string option \<Rightarrow> (string \<Rightarrow> string) \<Rightarrow> config res" where
  "LoadConfig cwd getenv =
     (case cwd of
        None \<Rightarrow> Inl (ErrIO ''getwd'')
      | Some root \<Rightarrow>
          (let dataDir = env_or getenv ''DATA_DIR'' (path_join root ''sandbox/data'') in
           bindR (cookie_secure (getenv ''COOKIE_SECURE'')) (\<lambda>secure.
           bindR (sync_interval (getenv ''WIREGUARD_SYNC_INTERVAL_SEC'')) (\<lambda>interval.
             Inr \<lparr>cf_http_addr = env_or getenv ''HTTP_ADDR'' '':8080'', cf_data_dir = dataDir,
                  cf_db_path = env_or getenv ''SQLITE_PATH'' (path_join dataDir ''netplug.sqlite''),
                  cf_cookie_secure = secure, cf_interface = env_or getenv ''WG_INTERFACE'' ''wg0'', cf_interval = interval,
                  cf_pcq_disabled = envBoolFlexible getenv ''NETPLUG_PCQ_DISABLE'' False,
                  cf_debug = envBoolFlexible getenv ''NETPLUG_DEBUG'' False,
                  cf_coredns = env_or getenv ''COREDNS_BIN'' ''coredns'', cf_root = root\<rparr>))))"

definition DatabaseDSN :: "config \<Rightarrow> string" where
  "DatabaseDSN c = cf_db_path c @ ''?_busy_timeout=5000&_journal_mode=WAL&_foreign_keys=on''"

text \<open>The period of the ticker of the synchronisation, in nanoseconds; \<open>time.NewTicker\<close> panics unless it is positive.\<close>

definition ticker_period :: "int \<Rightarrow> int" where
  "ticker_period interval = i64 (interval * 1000000000)"

section \<open>The revision\<close>

record build_info =
  bi_settings :: "(string \<times> string) list"
  bi_main :: string

definition hex_lower_digit :: "char \<Rightarrow> bool" where
  "hex_lower_digit c \<longleftrightarrow> is_digit c \<or> (97 \<le> (of_char c :: nat) \<and> (of_char c :: nat) \<le> 102)"

definition hex_any_digit :: "char \<Rightarrow> bool" where
  "hex_any_digit c \<longleftrightarrow> hex_lower_digit c \<or> (65 \<le> (of_char c :: nat) \<and> (of_char c :: nat) \<le> 70)"

definition isLikelyGitCommitHash :: "string \<Rightarrow> bool" where
  "isLikelyGitCommitHash s \<longleftrightarrow> (length s = 40 \<or> length s = 12) \<and> list_all hex_any_digit s"

definition revisionFromGit :: "string option \<Rightarrow> string" where
  "revisionFromGit out =
     (case out of None \<Rightarrow> [] | Some o1 \<Rightarrow> if isLikelyGitCommitHash (trim o1) then trim o1 else [])"

definition lastCut :: "char \<Rightarrow> string \<Rightarrow> string option" where
  "lastCut c s = (if c \<in> set s then Some (rev (takeWhile (\<lambda>x. x \<noteq> c) (rev s))) else None)"

definition pseudoVersionAbbrevCommit :: "string \<Rightarrow> string" where
  "pseudoVersionAbbrevCommit modVersion =
     (let v = trim modVersion in
      if v = [] \<or> v = ''(devel)'' then []
      else case lastCut (CHR ''-'') v of
        None \<Rightarrow> []
      | Some cand0 \<Rightarrow>
          (let cand = (case cutAt (CHR ''+'') cand0 of None \<Rightarrow> cand0 | Some (a, _) \<Rightarrow> a) in
           if length cand = 12 \<and> list_all hex_lower_digit cand then cand else []))"

definition computeRevisionWithoutCommit :: "build_info option \<Rightarrow> string option \<Rightarrow> string" where
  "computeRevisionWithoutCommit info git =
     (let vcs = (case info of None \<Rightarrow> []
            | Some b \<Rightarrow> (case map_of (bi_settings b) ''vcs.revision'' of None \<Rightarrow> [] | Some v \<Rightarrow> trim v));
          pseudo = (case info of None \<Rightarrow> [] | Some b \<Rightarrow> pseudoVersionAbbrevCommit (bi_main b)) in
      if vcs \<noteq> [] then vcs
      else if revisionFromGit git \<noteq> [] then revisionFromGit git
      else if pseudo \<noteq> [] then pseudo
      else if (case info of None \<Rightarrow> False | Some b \<Rightarrow> trim (bi_main b) = ''(devel)'') then ''devel''
      else ''unknown'')"

text \<open>The memo is part of the state: the first answer computed is kept.\<close>

definition Revision :: "string \<Rightarrow> build_info option \<Rightarrow> string option \<Rightarrow> string option \<Rightarrow> string option \<times> string" where
  "Revision commit info git memo =
     (if trim commit \<noteq> [] then (memo, trim commit)
      else case memo of
        Some r \<Rightarrow> (memo, r)
      | None \<Rightarrow> (let r = computeRevisionWithoutCommit info git in (Some r, r)))"

definition RevisionShort :: "string \<Rightarrow> string" where
  "RevisionShort r = (if r = ''unknown'' then r else if length r > 7 then take 7 r else r)"

definition looksLikeTag :: "string \<Rightarrow> bool" where
  "looksLikeTag s \<longleftrightarrow> length s \<ge> 2 \<and> s ! 0 = CHR ''v'' \<and> CHR ''.'' \<in> set s"

definition Display :: "string \<Rightarrow> string" where
  "Display r = (if r = ''unknown'' then r else if looksLikeTag r then r else RevisionShort r)"

section \<open>What the templates print\<close>

text \<open>\<open>%.1f\<close> and \<open>%.2f\<close> of a counter divided by a power of 1024, exact for counters below \<open>2 ^ 53\<close>.\<close>

definition fixed_point :: "nat \<Rightarrow> nat \<Rightarrow> nat \<Rightarrow> string" where
  "fixed_point places n d =
     (let t = round_even (n * 10 ^ places) d in
      nat_str (t div 10 ^ places) @ ''.''
        @ (if places = 2 then pad2 (t mod 100) else [digit (t mod 10)]))"

definition humanBytes :: "int \<Rightarrow> string" where
  "humanBytes n =
     (if n < 1024 then itoa n @ '' B''
      else if n < 1024 ^ 2 then fixed_point 1 (nat n) 1024 @ '' KiB''
      else if n < 1024 ^ 3 then fixed_point 1 (nat n) (1024 ^ 2) @ '' MiB''
      else if n < 1024 ^ 4 then fixed_point 2 (nat n) (1024 ^ 3) @ '' GiB''
      else fixed_point 2 (nat n) (1024 ^ 4) @ '' TiB'')"

definition addInt64 :: "int \<Rightarrow> int \<Rightarrow> int" where
  "addInt64 a b = i64 (a + b)"

record crumb =
  cr_label :: string
  cr_href :: string
  cr_current :: bool

text \<open>
  \<open>strings.ToUpper\<close> of the first byte of a segment: a byte outside ASCII is no character by itself and becomes
  U+FFFD.
\<close>

definition upper_byte :: "char \<Rightarrow> string" where
  "upper_byte c =
     (if (of_char c :: nat) < 128 then [upper_chr c] else map char_of [0xEF :: nat, 0xBF, 0xBD])"

definition titleize :: "string \<Rightarrow> string" where
  "titleize s = join '' '' (map (\<lambda>p. case p of [] \<Rightarrow> [] | c # t \<Rightarrow> upper_byte c @ t) (split_on (CHR ''-'') s))"

fun crumbs_from :: "string \<Rightarrow> string list \<Rightarrow> crumb list" where
  "crumbs_from cur [] = []"
| "crumbs_from cur (s # ss) =
     (if s = ''ui'' then crumbs_from cur ss
      else \<lparr>cr_label = titleize s, cr_href = cur @ ''/'' @ s, cr_current = False\<rparr> # crumbs_from (cur @ ''/'' @ s) ss)"

definition breadcrumbs :: "string \<Rightarrow> crumb list" where
  "breadcrumbs path =
     (let p = (if trim path = [] then ''/'' else trim path);
          cs = \<lparr>cr_label = ''Overview'', cr_href = ''/ui'', cr_current = False\<rparr>
            # crumbs_from ''/ui'' (filter (\<lambda>s. s \<noteq> []) (split_on (CHR ''/'') p)) in
      butlast cs @ [(last cs)\<lparr>cr_current := True\<rparr>])"

section \<open>The interval\<close>

text \<open>
  The interval of the synchronisation: whatever the environment holds, an accepted interval is a
  positive \<open>int\<close>. The period of the ticker is that many seconds up to 9223372036; the next number is accepted too, and its
  period wraps around to a negative one, with which \<open>time.NewTicker\<close> panics.
\<close>

theorem accepted_interval:
  assumes "LoadConfig cwd getenv = Inr c"
  shows "0 < cf_interval c \<and> int64_ok (cf_interval c)
    \<and> (cf_interval c \<le> 9223372036 \<longrightarrow> ticker_period (cf_interval c) = cf_interval c * 1000000000)
    \<and> (cf_interval c = 9223372037 \<longrightarrow> ticker_period (cf_interval c) < 0)"
proof -
  have s: "sync_interval (getenv ''WIREGUARD_SYNC_INTERVAL_SEC'') = Inr (cf_interval c)"
  proof (cases "sync_interval (getenv ''WIREGUARD_SYNC_INTERVAL_SEC'')")
    case (Inl e)
    then show ?thesis
      using assms by (cases cwd; cases "cookie_secure (getenv ''COOKIE_SECURE'')") (simp_all add: LoadConfig_def)
  next
    case (Inr n)
    then have "cf_interval c = n"
      using assms by (cases cwd; cases "cookie_secure (getenv ''COOKIE_SECURE'')") (auto simp: LoadConfig_def Let_def)
    then show ?thesis using Inr by simp
  qed
  then have pos: "0 < cf_interval c" "int64_ok (cf_interval c)"
    using atoi_int64 by (auto simp: sync_interval_def int64_ok_def split: if_splits option.splits)
  have "ticker_period (cf_interval c) = cf_interval c * 1000000000" if "cf_interval c \<le> 9223372036"
    unfolding ticker_period_def using pos that by (intro i64_small) simp_all
  moreover have "ticker_period 9223372037 < 0" by (simp add: ticker_period_def i64_def)
  ultimately show ?thesis using pos by auto
qed

lemma accepted_interval_witness:
  "(let c = projr (LoadConfig (Some ''/srv'') (\<lambda>k. if k = ''WIREGUARD_SYNC_INTERVAL_SEC'' then ''9223372037'' else [])) in
    cf_interval c = 9223372037 \<and> ticker_period (cf_interval c) < 0)"
proof -
  let ?env = "\<lambda>k. if k = ''WIREGUARD_SYNC_INTERVAL_SEC'' then ''9223372037'' else []"
  have "sync_interval ''9223372037'' = Inr 9223372037"
    by (simp add: sync_interval_def atoi_def parse_sint_def parse_nat_def is_digit_def dec_val_def digit_val_def int64_ok_def)
  then have "\<exists>c. LoadConfig (Some ''/srv'') ?env = Inr c \<and> cf_interval c = 9223372037"
    by (simp add: LoadConfig_def cookie_secure_def Let_def)
  then obtain c where c: "LoadConfig (Some ''/srv'') ?env = Inr c" "cf_interval c = 9223372037" by blast
  then show ?thesis using accepted_interval [OF c(1)] by simp
qed

end
