(* ===== verification/App_Program.thy ===== *)
theory App_Program
  imports App_Server App_Config
begin

text \<open>
  The program as a whole: every request, every synchronisation and every event of the resolver process as a step
  on one state, and what they all keep of the database.
\<close>

section \<open>Steps\<close>

text \<open>
  A step runs in an environment of its own: clock, identifiers, failing files and programs differ from
  request to request. \<open>ss\<close> are the sessions at that time.
\<close>

inductive program_step :: "'m dns_sys \<Rightarrow> 'm dns_sys \<Rightarrow> bool" where
  user_request: "f \<in> {UserCreatePost, UserUpdatePost, UserDeletePost, UserTogglePost} \<Longrightarrow>
    program_step s (on_app (\<lambda>a. fst (f env r a)) s)"
| group_request: "f \<in> {GroupCreatePost, GroupDeletePost, GroupMemberAddPost, GroupMemberBulkAddPost, GroupMemberRemovePost,
      GroupPCQSavePost, GroupPCQTogglePost} \<Longrightarrow>
    program_step s (on_app (\<lambda>a. fst (f env r a)) s)"
| setup_request: "program_step s (on_app (\<lambda>a. si_app (fst (SetupWireGuardPost env tok r \<lparr>si_app = a, si_sessions = ss\<rparr>))) s)"
| import_request:
    "program_step s (on_app (\<lambda>a. si_app (fst (SetupWireGuardImportPost env tok r files wfail \<lparr>si_app = a, si_sessions = ss\<rparr>))) s)"
| admin_request: "insert_admin i name hash (sy_db s) = Inr d \<Longrightarrow> program_step s (s\<lparr>sy_db := d\<rparr>)"
| resolver_request: "dns_request e s t \<Longrightarrow> program_step s t"
| resolver_event: "dns_step run s t \<Longrightarrow> program_step s t"
| save_request: "program_step s (fst (WireGuardSavePost e r s))"
| put_request: "program_step s (fst (WireGuardAPIPut e payload s))"
| reload_request: "program_step s (fst (WireGuardReloadPost e s))"
| restart_request: "program_step s (fst (WireGuardRestartPost e s))"
| restore_request: "program_step s (on_app (\<lambda>a. fst (WireGuardRestorePost c renv env r file a)) s)"
| sync_tick: "syncOnce run flt wgi interval uuid sql_now now unix (sy_world s, sy_db s) = ((wd, d), out) \<Longrightarrow>
    program_step s (s\<lparr>sy_world := wd, sy_db := d\<rparr>)"

section \<open>The schema\<close>

lemma on_app_db: "sy_db (on_app f s) = ap_db (f \<lparr>ap_db = sy_db s, ap_world = sy_world s\<rparr>)"
  by (simp add: on_app_def Let_def)

lemma updated_row_keys: "u_id (updated_row r a k u) = u_id u" "u_server_id (updated_row r a k u) = u_server_id u"
  by (simp_all add: updated_row_def)

lemma user_request_db_ok:
  assumes "f \<in> {UserCreatePost, UserUpdatePost, UserDeletePost, UserTogglePost}" and "db_ok (ap_db a)"
  shows "db_ok (ap_db (fst (f env r a)))"
proof -
  consider "f = UserCreatePost" | "f = UserUpdatePost" | "f = UserDeletePost" | "f = UserTogglePost" using assms(1) by blast
  then show ?thesis
  proof cases
    case 1
    then show ?thesis using assms(2) by (auto simp: UserCreatePost_db intro: db_ok_insert_user split: sum.split)
  next
    case 2
    then show ?thesis using assms(2)
      by (auto simp: UserUpdatePost_db updated_row_keys intro: db_ok_update_user split: sum.split option.split)
  next
    case 3
    then show ?thesis using assms(2) by (simp add: UserDeletePost_db db_ok_delete_user)
  next
    case 4
    then show ?thesis using assms(2) by (auto simp: UserTogglePost_db intro: db_ok_update_user split: sum.split)
  qed
qed

lemma add_members_db_ok: "db_ok d \<Longrightarrow> add_members g us d n = (d', k) \<Longrightarrow> db_ok d'"
  by (induction g us d n rule: add_members.induct) (auto intro: db_ok_insert_member split: if_splits sum.splits)

lemma toggled_db_ok:
  assumes "db_ok d"
  shows "db_ok (d\<lparr>pcqs := upd_where (\<lambda>x. q_group x = i) (\<lambda>x. x\<lparr>q_disabled := b\<rparr>) (pcqs d)\<rparr>)"
proof -
  let ?qs = "upd_where (\<lambda>x. q_group x = i) (\<lambda>x. x\<lparr>q_disabled := b\<rparr>) (pcqs d)"
  have "distinct_on q_group ?qs" using assms by (auto simp: db_defs)
  moreover have "\<forall>q \<in> set ?qs. q_group q \<in> g_id ` set (groups d)"
    using assms by (intro ball_upd_where) (auto simp: db_defs)
  ultimately show ?thesis using assms by (simp add: db_defs)
qed

lemma group_request_db_ok:
  assumes "f \<in> {GroupCreatePost, GroupDeletePost, GroupMemberAddPost, GroupMemberBulkAddPost, GroupMemberRemovePost,
      GroupPCQSavePost, GroupPCQTogglePost}" and ok: "db_ok (ap_db a)"
  shows "db_ok (ap_db (fst (f env r a)))"
proof -
  consider "f = GroupCreatePost" | "f = GroupDeletePost" | "f = GroupMemberAddPost" | "f = GroupMemberBulkAddPost"
    | "f = GroupMemberRemovePost" | "f = GroupPCQSavePost" | "f = GroupPCQTogglePost" using assms(1) by blast
  then show ?thesis
  proof cases
    case 1
    then show ?thesis using ok by (auto simp: GroupCreatePost_def intro: db_ok_insert_group split: sum.split)
  next
    case 2
    then show ?thesis using ok by (simp add: GroupDeletePost_def Let_def db_ok_delete_group)
  next
    case 3
    then show ?thesis using ok by (auto simp: GroupMemberAddPost_def Let_def intro: db_ok_insert_member split: sum.split)
  next
    case 4
    then show ?thesis using ok
      by (auto simp: GroupMemberBulkAddPost_def Let_def intro: add_members_db_ok split: prod.split option.split)
  next
    case 5
    then show ?thesis using ok by (simp add: GroupMemberRemovePost_def Let_def db_ok_delete_member)
  next
    case 6
    then show ?thesis using ok
      by (auto simp: GroupPCQSavePost_def Let_def intro: db_ok_upsert_pcq db_ok_delete_pcq split: sum.split)
  next
    case 7
    then show ?thesis using ok by (auto simp: GroupPCQTogglePost_def Let_def intro: toggled_db_ok split: option.split)
  qed
qed

lemma store_setup_db_ok:
  assumes "db_ok d"
  shows "db_ok (store_setup dir c d)"
proof -
  let ?d = "UpsertSystemConfig True (conf_of c) d"
  have ok: "db_ok ?d" by (rule db_ok_UpsertSystemConfig [OF assms])
  show ?thesis
  proof (cases "''wireguard'' \<in> s_id ` set (servers ?d)")
    case True
    let ?ss = "upd_where (\<lambda>s. s_id s = ''wireguard'') (\<lambda>_. server_row dir c) (servers ?d)"
    have "s_id ` set ?ss = s_id ` set (servers ?d)" by (rule image_upd_where) (simp add: server_row_def)
    moreover have "distinct_on s_id ?ss" using ok by (auto simp: db_defs server_row_def)
    ultimately show ?thesis using ok True by (simp add: store_setup_def UpsertWireGuardServer_def db_ok_servers)
  next
    case False
    then show ?thesis using ok
      by (simp add: store_setup_def UpsertWireGuardServer_def)
         (intro db_ok_servers, auto simp: server_row_def distinct_on_append1 db_defs)
  qed
qed

lemma import_peer_db_ok:
  assumes "db_ok d" and "import_peer i p d = Inr d'"
  shows "db_ok d'"
proof (cases "trim (qp_public_key p) = [] \<or> trim (qp_allowed_ips p) = []")
  case True
  then show ?thesis using assms by (simp add: import_peer_def)
next
  case False
  then have "''wireguard'' \<in> s_id ` set (servers d)" and "i \<notin> u_id ` set (users d)"
    using assms(2) by (auto simp: import_peer_def Let_def split: if_splits)
  note upsert = db_ok_upsert_named [OF assms(1) this(2,1), of "imported_row p" "import_name p"]
  then show ?thesis using assms(2) False by (auto simp: import_peer_def imported_row_def Let_def split: if_splits)
qed

lemma import_peers_db_ok: "db_ok d \<Longrightarrow> db_ok (fst (importPeersAsUsers ids ps d))"
  by (induction ps arbitrary: ids d) (auto dest: import_peer_db_ok split: sum.split)

lemma import_parsed_db_ok:
  assumes "db_ok (ap_db st)"
  shows "db_ok (ap_db (fst (import_parsed env r files wfail q ps st)))"
proof -
  have i: "db_ok d'" if "importPeersAsUsers ids ps (store_setup dir c (ap_db st)) = (d', e)" for ids dir c d' e
    using import_peers_db_ok [OF store_setup_db_ok [OF assms], of ids ps dir c] that by simp
  show ?thesis
    using assms by (auto simp: import_parsed_def Let_def intro: i split: sum.split option.split prod.split)
qed

lemma setup_db_ok:
  assumes "db_ok (ap_db (si_app s))"
  shows "db_ok (ap_db (si_app (fst (SetupWireGuardPost env tok r s))))"
    and "db_ok (ap_db (si_app (fst (SetupWireGuardImportPost env tok r files wfail s))))"
proof -
  have b: "db_ok (ap_db x)" if "bring_up env (a\<lparr>ap_db := store_setup dir c (ap_db (si_app s))\<rparr>) = (x, y)" for a dir c x y
    using ap_db_bring_up [of env "a\<lparr>ap_db := store_setup dir c (ap_db (si_app s))\<rparr>"] store_setup_db_ok [OF assms, of dir c] that by simp
  have i: "db_ok (ap_db x)" if "import_parsed env r files wfail q ps (si_app s) = (x, y)" for q ps x y
    using import_parsed_db_ok [OF assms, of env r files wfail q ps] that by simp
  show "db_ok (ap_db (si_app (fst (SetupWireGuardPost env tok r s))))"
    using assms by (auto simp: SetupWireGuardPost_def Let_def intro: b split: sum.split option.split prod.split)
  show "db_ok (ap_db (si_app (fst (SetupWireGuardImportPost env tok r files wfail s))))"
    using assms by (auto simp: SetupWireGuardImportPost_def Let_def intro: i split: sum.split option.split prod.split upload.split)
qed

lemma insert_admin_db_ok: "db_ok d \<Longrightarrow> insert_admin i n h d = Inr d' \<Longrightarrow> db_ok d'"
  by (auto simp: insert_admin_def db_defs distinct_on_append1 split: if_splits)

section \<open>The resolver's part\<close>

text \<open>Settings do not matter for the schema, records and rules have keys of their own.\<close>

lemma db_ok_dns [simp]:
  "db_ok (d\<lparr>dns_settings := x\<rparr>) = db_ok d" "db_ok (UpsertDNSSettings c d) = db_ok d" "db_ok (d\<lparr>sysconf := y\<rparr>) = db_ok d"
  by (simp_all add: db_defs UpsertDNSSettings_def)

lemma dns_tables_db_ok:
  "InsertDNSRecord i r d = Inr (ins, d') \<Longrightarrow> db_ok d \<Longrightarrow> db_ok d'"
  "DeleteDNSRecord i d = Inr d' \<Longrightarrow> db_ok d \<Longrightarrow> db_ok d'"
  "InsertDNSDomainRule uni i q d = Inr (rins, d') \<Longrightarrow> db_ok d \<Longrightarrow> db_ok d'"
  "DeleteDNSDomainRule i d = Inr d' \<Longrightarrow> db_ok d \<Longrightarrow> db_ok d'"
  by (auto simp: InsertDNSRecord_def DeleteDNSRecord_def InsertDNSDomainRule_def DeleteDNSDomainRule_def Let_def bindR_eq_Inr
      db_defs distinct_on_append1 split: if_splits sum.splits option.splits)

lemma apply_db: "\<exists>x. sy_db (fst (applyDNSFromDB e s)) = (sy_db s)\<lparr>dns_settings := x\<rparr>"
proof -
  define c where "c = (if trim (ds_binary (GetDNSSettings (sy_db s))) = [] then (GetDNSSettings (sy_db s))\<lparr>ds_binary := or_default (da_bin e) ''coredns''\<rparr>
      else GetDNSSettings (sy_db s))"
  obtain wd iface where a: "activeInterface (ae_run (da_env e)) (wg_conf_path (dm_data (sy_mgr s))) (dm_iface (sy_mgr s)) (sy_world s)
      = (wd, iface)" by force
  obtain c1 g where g: "EnsureAutoDNSHost (sy_db s) c = (c1, g)" by force
  have "sy_db (fst (applyDNSFromDB e s)) = sy_db s \<or> sy_db (fst (applyDNSFromDB e s)) = UpsertDNSSettings c1 (sy_db s)"
    by (simp add: applyDNSFromDB_def ApplyFromDB_def Let_def a g split: sum.split flip: c_def)
  then show ?thesis
  proof
    assume "sy_db (fst (applyDNSFromDB e s)) = sy_db s"
    then have "sy_db (fst (applyDNSFromDB e s)) = (sy_db s)\<lparr>dns_settings := dns_settings (sy_db s)\<rparr>" by simp
    then show ?thesis by blast
  next
    assume "sy_db (fst (applyDNSFromDB e s)) = UpsertDNSSettings c1 (sy_db s)"
    then show ?thesis unfolding UpsertDNSSettings_def by blast
  qed
qed

lemma apply_schema [simp]: "db_ok (sy_db (fst (applyDNSFromDB e s))) = db_ok (sy_db s)"
  using apply_db [of e s] by auto

lemma applied_schema [simp]: "db_ok (sy_db (fst (applied e bad good s))) = db_ok (sy_db s)"
  by (simp add: applied_db)

lemma dns_request_db_ok:
  assumes "dns_request e s t" and "db_ok (sy_db s)"
  shows "db_ok (sy_db t)"
  using assms(1)
proof (cases rule: dns_request.cases)
  case (rewrite_add sec r)
  with assms(2) show ?thesis
    by (auto simp: DNSRecordAddPost_def Let_def intro: dns_tables_db_ok(1) split: sum.split option.split)
next
  case (rewrite_delete sec r)
  with assms(2) show ?thesis
    by (auto simp: DNSRecordDeletePost_def intro: dns_tables_db_ok(2) split: sum.split)
next
  case (rule_add sec r)
  with assms(2) show ?thesis
    by (auto simp: DNSDomainRuleAddPost_def Let_def intro: dns_tables_db_ok(3) split: sum.split option.split)
next
  case (rule_delete sec r)
  with assms(2) show ?thesis
    by (auto simp: DNSDomainRuleDeletePost_def intro: dns_tables_db_ok(4) split: sum.split)
next
  case (dns_save sec r)
  with assms(2) show ?thesis by (cases rule: save_state [of e sec r s]) auto
next
  case (dns_reload sec r)
  obtain s' er where a: "applyDNSFromDB e s = (s', er)" by force
  then have "db_ok (sy_db s')" using apply_schema [of e s] assms(2) by simp
  then show ?thesis using a dns_reload by (cases er) (simp_all add: DNSReloadPost_def)
qed

lemma dns_step_db: "dns_step run s t \<Longrightarrow> sy_db t = sy_db s"
  by (induction rule: dns_step.induct) (simp_all add: watchProcess_def Let_def)

section \<open>The server's part\<close>

lemma on_app_reconcile [simp]: "sy_db (on_app (reconcilePCQ env) s) = sy_db s"
  by (simp add: on_app_db)

lemma after_schema [simp]: "db_ok (sy_db (fst (applyDNSAfterWireGuard e res s))) = db_ok (sy_db s)"
proof -
  obtain s' er where a: "applyDNSFromDB e s = (s', er)" by force
  then have "db_ok (sy_db s') = db_ok (sy_db s)" using apply_schema [of e s] by simp
  then show ?thesis using a by (cases er) (simp_all add: applyDNSAfterWireGuard_def)
qed

lemma done_schema [simp]: "db_ok (sy_db (fst (wireguard_done e out s))) = db_ok (sy_db s)"
proof (cases out)
  case (Inr res)
  obtain s' res' where a: "applyDNSAfterWireGuard e res (on_app (reconcilePCQ (da_env e)) s) = (s', res')" by force
  then have "db_ok (sy_db s') = db_ok (sy_db s)" using after_schema [of e res "on_app (reconcilePCQ (da_env e)) s"] by simp
  then show ?thesis by (simp add: wireguard_done_def Inr a)
qed (simp add: wireguard_done_def)

lemma upsert_server_db_ok:
  assumes "upsertServerFromConfig derive cfg key d = Inr d'" and "db_ok d"
  shows "db_ok d'"
proof -
  have "db_ok (d\<lparr>servers := upd_where P f (servers d)\<rparr>)" if "\<And>s. s_id (f s) = s_id s" for P f
    using assms(2) that by (intro db_ok_servers) (simp_all add: distinct_upd_where ids_upd_where db_defs)
  then show ?thesis using assms(1) by (auto simp: upsertServerFromConfig_def split: if_splits option.splits)
qed

lemma saved_db_ok:
  assumes "save_state_of e cfg key s = ((d', wd'), out)" and "db_ok (sy_db s)"
  shows "db_ok d'"
proof (cases out)
  case (Inl err)
  have "d' = UpsertSystemConfig True (cfg\<lparr>w_enabled := True\<rparr>) (sy_db s)"
    using SaveWireGuardState_failed [OF assms(1) [unfolded save_state_of_def Let_def Inl]] by blast
  then show ?thesis using db_ok_UpsertSystemConfig [OF assms(2)] by simp
next
  case (Inr x)
  show ?thesis
    using SaveWireGuardState_db(1) [OF assms(1) [unfolded save_state_of_def Let_def Inr]]
      db_ok_UpsertSystemConfig [OF assms(2)] by (rule upsert_server_db_ok)
qed

lemma wireguard_requests_db_ok:
  assumes "db_ok (sy_db s)"
  shows "db_ok (sy_db (fst (WireGuardSavePost e r s)))" "db_ok (sy_db (fst (WireGuardAPIPut e payload s)))"
    "db_ok (sy_db (fst (WireGuardReloadPost e s)))" "db_ok (sy_db (fst (WireGuardRestartPost e s)))"
proof -
  note saved = saved_db_ok [OF _ assms]
  show "db_ok (sy_db (fst (WireGuardSavePost e r s)))"
    using assms by (auto simp: WireGuardSavePost_def with_state_def intro: saved split: prod.split)
  show "db_ok (sy_db (fst (WireGuardAPIPut e payload s)))"
    using assms by (auto simp: WireGuardAPIPut_def with_state_def intro: saved split: prod.split sum.split option.split)
  show "db_ok (sy_db (fst (WireGuardReloadPost e s)))"
    using assms by (simp add: WireGuardReloadPost_def Let_def split: prod.split)
  show "db_ok (sy_db (fst (WireGuardRestartPost e s)))"
    using assms by (simp add: WireGuardRestartPost_def Let_def split: prod.split)
qed

section \<open>Backups and synchronisation\<close>

lemma restore_request_db_ok:
  assumes "db_ok (ap_db a)"
  shows "db_ok (ap_db (fst (WireGuardRestorePost c renv env r file a)))"
proof (cases "read_upload c r file")
  case (Inr b)
  let ?p = "formValue r ''replace_peers'' = ''on''" and ?g = "formValue r ''replace_groups'' = ''on''"
  obtain d wd e where res: "RestoreBackup (ae_run env) (ae_io env) (ae_stamp env) renv (ae_data env) (ae_iface env) b ?p ?g
      (ap_db a, ap_world a) = ((d, wd), e)" by (metis prod.collapse)
  then have "db_ok d" using restore_whole [OF assms] by (metis fst_conv)
  then show ?thesis using Inr res by (cases e) (simp_all add: WireGuardRestorePost_def)
qed (simp add: WireGuardRestorePost_def assms)

section \<open>One resolver\<close>

lemma dns_inv_fields [simp]:
  "dns_inv (s\<lparr>sy_db := d\<rparr>) = dns_inv s" "dns_inv (s\<lparr>sy_world := w\<rparr>) = dns_inv s" "dns_inv (on_app f s) = dns_inv s"
  "dns_inv (with_state p s) = dns_inv s"
  by (simp_all add: dns_inv_def on_app_def Let_def with_state_def)

lemma apply_resolver:
  assumes "dns_inv s"
  shows "dns_inv (fst (applyDNSFromDB e s))"
proof -
  obtain wd iface where a: "activeInterface (ae_run (da_env e)) (wg_conf_path (dm_data (sy_mgr s))) (dm_iface (sy_mgr s)) (sy_world s)
      = (wd, iface)" by force
  have m: "dns_inv (fst (ManagerApply run env cfg records rules t))" if "dns_inv t" for run env cfg records rules t
    using dns_inv_step [OF apply_step] that by blast
  show ?thesis
    using assms by (simp add: applyDNSFromDB_def ApplyFromDB_def Let_def a m dns_inv_Stop split: prod.split sum.split)
qed

lemma applied_resolver: "dns_inv s \<Longrightarrow> dns_inv (fst (applied e bad good s))"
  using apply_resolver [of s e] by (cases "applyDNSFromDB e s") (simp add: applied_def split: option.split)

lemma applied_split: "applyDNSFromDB e s = (s', x) \<Longrightarrow> dns_inv s \<Longrightarrow> dns_inv s'"
  using apply_resolver [of s e] by simp

lemma dns_request_resolver:
  assumes "dns_request e s t" and "dns_inv s"
  shows "dns_inv t"
  using assms(1)
proof (cases rule: dns_request.cases)
  case (dns_save sec r)
  with assms(2) show ?thesis by (cases rule: save_state [of e sec r s]) (auto intro!: apply_resolver)
next
  case (dns_reload sec r)
  obtain s' er where a: "applyDNSFromDB e s = (s', er)" by force
  from applied_split [OF this assms(2)] show ?thesis using a dns_reload by (cases er) (simp_all add: DNSReloadPost_def)
next
  case (rewrite_add sec r)
  with assms(2) show ?thesis by (auto simp: DNSRecordAddPost_def Let_def intro!: applied_resolver split: sum.split option.split)
next
  case (rewrite_delete sec r)
  with assms(2) show ?thesis by (auto simp: DNSRecordDeletePost_def intro!: applied_resolver split: sum.split)
next
  case (rule_add sec r)
  with assms(2) show ?thesis by (auto simp: DNSDomainRuleAddPost_def Let_def intro!: applied_resolver split: sum.split option.split)
next
  case (rule_delete sec r)
  with assms(2) show ?thesis by (auto simp: DNSDomainRuleDeletePost_def intro!: applied_resolver split: sum.split)
qed

lemma after_resolver:
  assumes "dns_inv s"
  shows "dns_inv (fst (applyDNSAfterWireGuard e res s))"
proof -
  obtain s' er where a: "applyDNSFromDB e s = (s', er)" by force
  from applied_split [OF this assms] show ?thesis using a assms by (cases er) (simp_all add: applyDNSAfterWireGuard_def)
qed

lemma done_resolver: "dns_inv s \<Longrightarrow> dns_inv (fst (wireguard_done e out s))"
  using after_resolver [of "on_app (reconcilePCQ (da_env e)) s" e]
  by (auto simp: wireguard_done_def split: sum.split prod.split) (metis fst_conv)

lemma wireguard_requests_resolver:
  assumes "dns_inv s"
  shows "dns_inv (fst (WireGuardSavePost e r s))" "dns_inv (fst (WireGuardAPIPut e payload s))"
    "dns_inv (fst (WireGuardReloadPost e s))" "dns_inv (fst (WireGuardRestartPost e s))"
  using assms
  by (simp_all add: WireGuardSavePost_def WireGuardAPIPut_def WireGuardReloadPost_def WireGuardRestartPost_def Let_def done_resolver
      split: prod.split sum.split option.split)

section \<open>What every step keeps\<close>

definition sound :: "'m dns_sys \<Rightarrow> bool" where
  "sound s \<longleftrightarrow> db_ok (sy_db s) \<and> dns_inv s"

lemma program_step_sound: "program_step s t \<Longrightarrow> sound s \<Longrightarrow> sound t"
proof (induction rule: program_step.induct)
  case (sync_tick run flt wgi interval uuid sql_now now unix s wd d out)
  then show ?case using syncOnce_outcome [OF sync_tick(1)] by (simp add: sound_def)
next
  case (admin_request i name hash s d)
  then show ?case using insert_admin_db_ok by (auto simp: sound_def)
qed (simp_all add: sound_def on_app_db user_request_db_ok group_request_db_ok setup_db_ok dns_request_db_ok
      dns_step_db dns_request_resolver dns_inv_step wireguard_requests_db_ok wireguard_requests_resolver restore_request_db_ok)

interpretation program: kept_by_steps program_step sound
  by unfold_locales (rule program_step_sound)

section \<open>The start of the process\<close>

text \<open>
  \<open>main\<close> in \<open>cmd/netplug/main.go\<close>: read the configuration, open the database and create the first
  administrator, make the manager of the resolver, and when WireGuard is set up bring the interface, its queues and the
  resolver up. What fails there is logged only. \<open>lrun\<close> runs the commands of the live status.
\<close>

definition start_wireguard :: "'m dns_app \<Rightarrow> 'm Syncer.exec \<Rightarrow> 'm dns_sys \<Rightarrow> 'm dns_sys" where
  "start_wireguard e lrun s =
     (let env = da_env e;
          (m, loaded) = LoadWireGuardState lrun (sy_db s) (ae_iface env) (wd_machine (sy_world s));
          s1 = s\<lparr>sy_world := (sy_world s)\<lparr>wd_machine := m\<rparr>\<rparr> in
      case loaded of
        Inl _ \<Rightarrow> s1
      | Inr _ \<Rightarrow>
          (case ReloadWireGuard (ae_run env) (ae_io env) (ae_tmp_fails env) (ae_stamp env) (ae_data env) (ae_iface env)
                  (sy_db s1) (sy_world s1) of
             (wd, Inl _) \<Rightarrow> s1\<lparr>sy_world := wd\<rparr>
           | (wd, Inr res) \<Rightarrow>
               if \<not> sr_applied res then s1\<lparr>sy_world := wd\<rparr>
               else fst (applyDNSFromDB e (on_app (reconcilePCQ env) (s1\<lparr>sy_world := wd\<rparr>)))))"

definition configured :: "config \<Rightarrow> 'm dns_app \<Rightarrow> 'm dns_app" where
  "configured c e =
     e\<lparr>da_env := (da_env e)\<lparr>ae_data := cf_data_dir c, ae_iface := cf_interface c, ae_pcq_disabled := cf_pcq_disabled c\<rparr>,
       da_bin := cf_coredns c\<rparr>"

definition boot ::
  "string option \<Rightarrow> (string \<Rightarrow> string) \<Rightarrow> auth_env \<Rightarrow> string \<Rightarrow> 'm dns_app \<Rightarrow> 'm Syncer.exec \<Rightarrow> db \<Rightarrow> 'm world \<Rightarrow> 'm dns_sys res" where
  "boot cwd getenv au i e lrun d wd =
     bindR (LoadConfig cwd getenv) (\<lambda>c.
       case BootstrapAdmin au i (getenv ''BOOTSTRAP_ADMIN_USERNAME'') (getenv ''BOOTSTRAP_ADMIN_PASSWORD'') d of
         (_, Some err) \<Rightarrow> Inl err
       | (d', None) \<Rightarrow>
           Inr (start_wireguard (configured c e) lrun
             \<lparr>sy_mgr = NewManager (cf_data_dir c) (cf_coredns c) (cf_interface c), sy_world = wd, sy_db = d',
              sy_procs = {}, sy_pid = 1\<rparr>))"

lemma sound_fields [simp]:
  "sound (on_app (reconcilePCQ env) s) = sound s" "sound (s\<lparr>sy_world := w\<rparr>) = sound s"
  by (simp_all add: sound_def)

lemma apply_sound: "sound s \<Longrightarrow> sound (fst (applyDNSFromDB e s))"
  by (simp add: sound_def apply_resolver)

lemma start_wireguard_sound: "sound s \<Longrightarrow> sound (start_wireguard e lrun s)"
  by (simp add: start_wireguard_def Let_def apply_sound split: prod.split sum.split)

lemma bootstrap_db_ok: "BootstrapAdmin au i n pw d = (d', x) \<Longrightarrow> db_ok d \<Longrightarrow> db_ok d'"
  using insert_admin_db_ok by (auto simp: BootstrapAdmin_def split: if_splits option.splits sum.splits)

lemma boot_sound:
  assumes "boot cwd getenv au i e lrun d wd = Inr s" and "db_ok d"
  shows "sound s"
proof -
  obtain d' x where b: "BootstrapAdmin au i (getenv ''BOOTSTRAP_ADMIN_USERNAME'') (getenv ''BOOTSTRAP_ADMIN_PASSWORD'') d = (d', x)"
    by force
  obtain c where c: "LoadConfig cwd getenv = Inr c" using assms(1) by (cases "LoadConfig cwd getenv") (simp_all add: boot_def)
  have "s = start_wireguard (configured c e) lrun \<lparr>sy_mgr = NewManager (cf_data_dir c) (cf_coredns c) (cf_interface c),
      sy_world = wd, sy_db = d', sy_procs = {}, sy_pid = 1\<rparr>"
    using assms(1) by (cases x) (simp_all add: boot_def c b)
  then show ?thesis using bootstrap_db_ok [OF b assms(2)]
    by (simp add: start_wireguard_sound sound_def [of "\<lparr>sy_mgr = _, sy_world = _, sy_db = _, sy_procs = _, sy_pid = _\<rparr>"]
        dns_inv_def NewManager_def)
qed

text \<open>
  C5. From the start of the process on, whatever happens, the program stays sound: after any sequence of requests,
  synchronisations and events of the resolver process, each in an environment of its own and each ending well or not, every key of
  every table is unique and every reference leads to a row, when that was so in the database the process found; and at most the
  one CoreDNS process is alive whose command the manager holds.
\<close>

theorem program_stays_sound:
  assumes "boot cwd getenv au i e lrun d wd = Inr s" and "program_step\<^sup>*\<^sup>* s t" and "db_ok d"
  shows "db_ok (sy_db t) \<and> sy_procs t \<subseteq> set_option (dm_cmd (sy_mgr t)) \<and> (dm_running (sy_mgr t) \<longleftrightarrow> dm_cmd (sy_mgr t) \<noteq> None)"
  using program.steps_keep [OF assms(2) boot_sound [OF assms(1,3)]] by (simp add: sound_def dns_inv_def)

definition ex_booted :: "argv list dns_sys res" where
  "ex_booted = boot (Some ''/srv'') (\<lambda>_. []) \<lparr>au_hash = (\<lambda>_. None), au_match = (\<lambda>_ _. False)\<rparr> ''a1'' ex_dns_app
     (\<lambda>_ m. (m, NotFound)) ex_db \<lparr>wd_fs = (\<lambda>_. None), wd_machine = []\<rparr>"

lemma program_stays_sound_witness:
  "\<exists>s. ex_booted = Inr s
    \<and> db_ok (sy_db (on_app (\<lambda>a. fst (UserDeletePost ex_app_env ex_request a))
        (on_app (\<lambda>a. fst (UserCreatePost ex_app_env ex_request a)) s)))"
proof -
  have "cookie_secure [] = Inr False" "sync_interval [] = Inr 30" by (simp_all add: cookie_secure_def sync_interval_def)
  then have "\<exists>c. LoadConfig (Some ''/srv'') (\<lambda>_. []) = Inr c" by (simp add: LoadConfig_def Let_def)
  then obtain s where s: "ex_booted = Inr s" by (auto simp: ex_booted_def boot_def BootstrapAdmin_def)
  have steps: "program_step\<^sup>*\<^sup>* s (on_app (\<lambda>a. fst (UserDeletePost ex_app_env ex_request a))
       (on_app (\<lambda>a. fst (UserCreatePost ex_app_env ex_request a)) s))"
    using user_request [of UserCreatePost s ex_app_env ex_request]
      user_request [of UserDeletePost "on_app (\<lambda>a. fst (UserCreatePost ex_app_env ex_request a)) s" ex_app_env ex_request]
    by (meson converse_rtranclp_into_rtranclp insertI1 insertI2 r_into_rtranclp)
  have "db_ok ex_db"
    by (simp add: ex_db_def ex_user_def user_row_def ex_server_def db_empty_def db_defs distinct_on_def)
  from program_stays_sound [OF s [unfolded ex_booted_def] steps this] s show ?thesis by blast
qed

section \<open>What the form checks\<close>

lemma apply_sysconf [simp]: "sysconf (sy_db (fst (applyDNSFromDB e s))) = sysconf (sy_db s)"
  using apply_db [of e s] by auto

lemma after_sysconf [simp]: "sysconf (sy_db (fst (applyDNSAfterWireGuard e res s))) = sysconf (sy_db s)"
proof -
  obtain s' er where a: "applyDNSFromDB e s = (s', er)" by force
  then have "sysconf (sy_db s') = sysconf (sy_db s)" using apply_sysconf [of e s] by simp
  then show ?thesis using a by (cases er) (simp_all add: applyDNSAfterWireGuard_def)
qed

lemma done_sysconf [simp]: "sysconf (sy_db (fst (wireguard_done e out s))) = sysconf (sy_db s)"
proof (cases out)
  case (Inr res)
  obtain s' res' where a: "applyDNSAfterWireGuard e res (on_app (reconcilePCQ (da_env e)) s) = (s', res')" by force
  then have "sysconf (sy_db s') = sysconf (sy_db s)" using after_sysconf [of e res "on_app (reconcilePCQ (da_env e)) s"] by simp
  then show ?thesis by (simp add: wireguard_done_def Inr a)
qed (simp add: wireguard_done_def)

lemma saved_sysconf:
  assumes "save_state_of e cfg key s = ((d', wd'), out)"
  shows "sysconf d' = Some \<lparr>sc_complete = True, sc_config = Some (cfg\<lparr>w_enabled := True\<rparr>)\<rparr>"
proof (cases out)
  case (Inl err)
  have "d' = UpsertSystemConfig True (cfg\<lparr>w_enabled := True\<rparr>) (sy_db s)"
    using SaveWireGuardState_failed [OF assms [unfolded save_state_of_def Let_def Inl]] by blast
  then show ?thesis by (simp add: UpsertSystemConfig_def)
next
  case (Inr x)
  show ?thesis
    using SaveWireGuardState_db(1) [OF assms [unfolded save_state_of_def Let_def Inr]]
    by (auto simp: upsertServerFromConfig_def UpsertSystemConfig_def split: if_splits option.splits)
qed

text \<open>
  The form of the server is not checked as the form of set-up is: a positive number is stored as the port
  whatever its size, also one above 65535 for which set-up answers with an error; and everything else, also a keepalive of
  zero, which switches it off, becomes the default.
\<close>

theorem save_form_unchecked:
  assumes "rq_form r \<noteq> None" and "field r ''server_port'' = itoa n" and "field r ''persistent_keepalive'' = ''0''"
    and "65535 < n" and "int64_ok n"
  shows "(\<exists>err. parseWireGuardSetupForm r = Inl err)
    \<and> (\<exists>w. sc_config (GetSystemConfig (sy_db (fst (WireGuardSavePost e r s)))) = Some w
        \<and> w_server_port w = n \<and> w_keepalive w = 25)"
proof -
  have "parseWireGuardSetupForm r = Inl (ErrMsg ''server port must be a number between 1 and 65535'')"
    using assms(2,4,5) by (simp add: parseWireGuardSetupForm_def atoi_itoa Let_def)
  moreover obtain d' wd' out where a: "save_state_of e (wireguard_form r) (field r ''server_private_key'') s = ((d', wd'), out)"
    by (metis prod.collapse)
  have "sysconf (sy_db (fst (WireGuardSavePost e r s))) = sysconf d'"
    using assms(1) by (auto simp: WireGuardSavePost_def a with_state_def)
  then have "sysconf (sy_db (fst (WireGuardSavePost e r s)))
      = Some \<lparr>sc_complete = True, sc_config = Some ((wireguard_form r)\<lparr>w_enabled := True\<rparr>)\<rparr>"
    using saved_sysconf [OF a] by simp
  moreover have "w_server_port (wireguard_form r) = n"
    using assms(2,4,5) by (simp add: wireguard_form_def mustAtoi_def field_def [symmetric] atoi_itoa)
  moreover have "atoi ''0'' = Some 0"
    by (simp add: atoi_def parse_sint_def parse_nat_def is_digit_def dec_val_def digit_val_def int64_ok_def)
  then have "w_keepalive (wireguard_form r) = 25"
    using assms(3) by (simp add: wireguard_form_def mustAtoi_def field_def [symmetric])
  ultimately show ?thesis by (simp add: GetSystemConfig_def)
qed

lemma save_form_unchecked_witness:
  "(let r = \<lparr>rq_form = Some [(''server_port'', [itoa 70000]), (''persistent_keepalive'', [''0''])], rq_id = [], rq_user = [], rq_htmx = False\<rparr> in
    \<exists>w. sc_config (GetSystemConfig (sy_db (fst (WireGuardSavePost ex_dns_app r ex_dns_sys)))) = Some w \<and> w_server_port w = 70000)"
proof -
  let ?r = "\<lparr>rq_form = Some [(''server_port'', [itoa 70000]), (''persistent_keepalive'', [''0''])], rq_id = [], rq_user = [], rq_htmx = False\<rparr>"
  have "trim (itoa 70000) = itoa 70000" using itoa_plain by (intro trim_plain) blast
  moreover have "trim ''0'' = ''0''" by (rule trim_plain) (simp add: plain_def ascii_space_def)
  ultimately have "field ?r ''server_port'' = itoa 70000" "field ?r ''persistent_keepalive'' = ''0''"
    by (simp_all add: field_def formValue_def formValues_def)
  from save_form_unchecked [OF _ this, of ex_dns_app ex_dns_sys] show ?thesis by (auto simp: int64_ok_def)
qed


section \<open>The end of the process\<close>

text \<open>
  After a signal \<open>main\<close> lets the requests finish, for ten seconds at most, which are taken to be enough, and returns; its deferred calls stop the synchronisation and the
  resolver. When serving fails, for one because the port is taken, \<open>log.Fatalf\<close> exits at once, without the deferred calls.
\<close>

datatype ending = Interrupted | ServeFailed

definition main_ends :: "'m run \<Rightarrow> ending \<Rightarrow> 'm dns_sys \<Rightarrow> 'm dns_sys" where
  "main_ends run e s = (case e of Interrupted \<Rightarrow> Stop run s | ServeFailed \<Rightarrow> s)"

text \<open>
  C10. A process that a signal ends leaves no resolver behind and the database as it was, whatever it did since its start. One
  that ends because serving failed leaves the resolver it has just started running.
\<close>

theorem resolver_at_the_end:
  assumes "boot cwd getenv au i e lrun d wd = Inr s" and "program_step\<^sup>*\<^sup>* s t" and "db_ok d"
  shows "sy_procs (main_ends run Interrupted t) = {} \<and> sy_db (main_ends run Interrupted t) = sy_db t
    \<and> (\<forall>renv cfg records rules u. ManagerApply run renv cfg records rules t = (u, None) \<and> ds_enabled cfg \<longrightarrow>
         sy_procs (main_ends run Interrupted u) = {} \<and> sy_procs (main_ends run ServeFailed u) = {sy_pid t})"
proof -
  have t: "dns_inv t" using program.steps_keep [OF assms(2) boot_sound [OF assms(1,3)]] by (simp add: sound_def)
  have stop: "sy_procs (Stop run v) = {}" "sy_db (Stop run v) = sy_db v" if "dns_inv v" for v
    using dns_inv_stopLocked [OF that] by (simp_all add: Stop_def Let_def stopLocked_def split: prod.split)
  have "dns_inv u \<and> sy_procs u = {sy_pid t}"
    if "ManagerApply run renv cfg records rules t = (u, None)" "ds_enabled cfg" for renv cfg records rules u
  proof
    show "sy_procs u = {sy_pid t}"
      using that start_ends_Start [OF t, of run renv cfg records rules] by (simp add: ManagerApply_def start_ends_def)
    show "dns_inv u" using dns_inv_step [OF apply_step [of run t renv cfg records rules] t] that by simp
  qed
  then show ?thesis using stop t by (auto simp: main_ends_def)
qed

lemma resolver_at_the_end_witness:
  "\<exists>s. ex_booted = Inr s \<and> sy_procs (main_ends (ae_run ex_app_env) Interrupted s) = {}"
proof -
  have "cookie_secure [] = Inr False" "sync_interval [] = Inr 30" by (simp_all add: cookie_secure_def sync_interval_def)
  then have "\<exists>c. LoadConfig (Some ''/srv'') (\<lambda>_. []) = Inr c" by (simp add: LoadConfig_def Let_def)
  then obtain s where s: "ex_booted = Inr s" by (auto simp: ex_booted_def boot_def BootstrapAdmin_def)
  have "db_ok ex_db"
    by (simp add: ex_db_def ex_user_def user_row_def ex_server_def db_empty_def db_defs distinct_on_def)
  from resolver_at_the_end [OF s [unfolded ex_booted_def] rtranclp.rtrancl_refl this] s show ?thesis by blast
qed

end
