(* ===== verification/Store_Schema.thy ===== *)
theory Store_Schema
  imports Prelude
begin

text \<open>
  The catalogue of the database and the statements that bring it up to date when the process starts
  (\<open>internal/db/migrate.go\<close>, \<open>schema_patches.go\<close>). The baseline runs in a transaction and is
  noted by the hash of its text; the patches run at every start, and an \<open>ALTER TABLE\<close> that fails is
  taken for a column that is already there. Rows are the matter of \<open>Store\<close>. The hash of the text and
  the failures of SQLite that do not follow from the catalogue are arguments.
\<close>

section \<open>Catalogue\<close>

datatype affinity = Text | Integer

datatype default = TextDefault string | IntDefault int | Now

record column =
  co_type :: affinity
  co_null :: bool
  co_default :: "default option"

text \<open>\<open>tb_refs\<close> are the foreign keys, all of them with \<open>ON DELETE CASCADE\<close>.\<close>

record table_def =
  tb_columns :: "(string \<times> column) list"
  tb_key :: "string list"
  tb_unique :: "string list"
  tb_refs :: "(string \<times> string) list"

datatype stmt =
    CreateTable string table_def
  | CreateIndex string string string
  | AddColumn string string column
  | DropTable string
  | DropIndex string

text \<open>An index has a name, a table and a column; \<open>sf_applied\<close> are the rows of \<open>schema_migrations\<close>.\<close>

record catalogue =
  sf_tables :: "(string \<times> table_def) list"
  sf_indexes :: "(string \<times> string \<times> string) list"
  sf_applied :: "string list"

abbreviation table_of :: "catalogue \<Rightarrow> string \<Rightarrow> table_def option" where
  "table_of f \<equiv> map_of (sf_tables f)"

definition has_column :: "catalogue \<Rightarrow> string \<Rightarrow> string \<Rightarrow> bool" where
  "has_column f t c \<longleftrightarrow> (case table_of f t of None \<Rightarrow> False | Some tb \<Rightarrow> c \<in> fst ` set (tb_columns tb))"

definition add_column :: "string \<Rightarrow> string \<Rightarrow> column \<Rightarrow> catalogue \<Rightarrow> catalogue" where
  "add_column t c k f = f\<lparr>sf_tables :=
     map (\<lambda>(n, tb). (n, if n = t then tb\<lparr>tb_columns := tb_columns tb @ [(c, k)]\<rparr> else tb)) (sf_tables f)\<rparr>"

text \<open>
  What SQLite does with a statement. \<open>IF NOT EXISTS\<close> and \<open>IF EXISTS\<close> make a statement without an object
  to create or to drop succeed; a dropped table takes its indexes along.
\<close>

definition exec_stmt :: "(stmt \<Rightarrow> goerr option) \<Rightarrow> stmt \<Rightarrow> catalogue \<Rightarrow> catalogue \<times> goerr option" where
  "exec_stmt bad s f =
     (case bad s of
        Some e \<Rightarrow> (f, Some e)
      | None \<Rightarrow>
          (case s of
             CreateTable t tb \<Rightarrow>
               (if table_of f t \<noteq> None then (f, None) else (f\<lparr>sf_tables := sf_tables f @ [(t, tb)]\<rparr>, None))
           | CreateIndex i t c \<Rightarrow>
               (if i \<in> fst ` set (sf_indexes f) then (f, None)
                else if table_of f t = None then (f, Some (ErrMsg ''no such table''))
                else if \<not> has_column f t c then (f, Some (ErrMsg ''no such column''))
                else (f\<lparr>sf_indexes := sf_indexes f @ [(i, t, c)]\<rparr>, None))
           | AddColumn t c k \<Rightarrow>
               (if table_of f t = None then (f, Some (ErrMsg ''no such table''))
                else if has_column f t c then (f, Some (ErrMsg ''duplicate column name''))
                else (add_column t c k f, None))
           | DropTable t \<Rightarrow>
               (f\<lparr>sf_tables := filter (\<lambda>(n, _). n \<noteq> t) (sf_tables f),
                  sf_indexes := filter (\<lambda>(_, n, _). n \<noteq> t) (sf_indexes f)\<rparr>, None)
           | DropIndex i \<Rightarrow> (f\<lparr>sf_indexes := filter (\<lambda>(n, _). n \<noteq> i) (sf_indexes f)\<rparr>, None)))"

text \<open>One \<open>Exec\<close> of several statements stops at the first that fails.\<close>

fun exec_all :: "(stmt \<Rightarrow> goerr option) \<Rightarrow> stmt list \<Rightarrow> catalogue \<Rightarrow> catalogue \<times> goerr option" where
  "exec_all bad [] f = (f, None)"
| "exec_all bad (s # ss) f =
     (case exec_stmt bad s f of (f', Some e) \<Rightarrow> (f', Some e) | (f', None) \<Rightarrow> exec_all bad ss f')"

text \<open>Statements whose errors are dropped.\<close>

definition exec_ignored :: "(stmt \<Rightarrow> goerr option) \<Rightarrow> stmt list \<Rightarrow> catalogue \<Rightarrow> catalogue" where
  "exec_ignored bad ss f = foldl (\<lambda>f s. fst (exec_stmt bad s f)) f ss"

section \<open>The baseline\<close>

definition key_column :: "string \<Rightarrow> string \<times> column" where
  "key_column c = (c, \<lparr>co_type = Text, co_null = True, co_default = None\<rparr>)"

definition null_column :: "affinity \<Rightarrow> string \<Rightarrow> string \<times> column" where
  "null_column a c = (c, \<lparr>co_type = a, co_null = True, co_default = None\<rparr>)"

definition full_column :: "affinity \<Rightarrow> string \<Rightarrow> string \<times> column" where
  "full_column a c = (c, \<lparr>co_type = a, co_null = False, co_default = None\<rparr>)"

definition int_column :: "int \<Rightarrow> string \<Rightarrow> string \<times> column" where
  "int_column n c = (c, \<lparr>co_type = Integer, co_null = False, co_default = Some (IntDefault n)\<rparr>)"

definition text_column :: "string \<Rightarrow> string \<Rightarrow> string \<times> column" where
  "text_column v c = (c, \<lparr>co_type = Text, co_null = False, co_default = Some (TextDefault v)\<rparr>)"

definition time_column :: "string \<Rightarrow> string \<times> column" where
  "time_column c = (c, \<lparr>co_type = Text, co_null = False, co_default = Some Now\<rparr>)"

lemmas column_defs = key_column_def null_column_def full_column_def int_column_def text_column_def time_column_def

definition stamped :: "(string \<times> column) list \<Rightarrow> (string \<times> column) list" where
  "stamped cs = cs @ [time_column ''created_at'', time_column ''updated_at'']"

definition schema_migrations_table :: table_def where
  "schema_migrations_table =
     \<lparr>tb_columns = [key_column ''id'', time_column ''applied_at''], tb_key = [''id''], tb_unique = [], tb_refs = []\<rparr>"

definition system_config_table :: table_def where
  "system_config_table =
     \<lparr>tb_columns = stamped [key_column ''id'', int_column 0 ''is_setup_complete'', null_column Text ''vpn_configuration''],
      tb_key = [''id''], tb_unique = [], tb_refs = []\<rparr>"

definition smtp_config_table :: table_def where
  "smtp_config_table =
     \<lparr>tb_columns = stamped [key_column ''id'', full_column Text ''host'', full_column Integer ''port'', full_column Text ''username'',
        full_column Text ''password'', text_column ''TLS'' ''encryption'', full_column Text ''from_name'',
        full_column Text ''from_email'', int_column 0 ''enabled''],
      tb_key = [''id''], tb_unique = [], tb_refs = []\<rparr>"

definition users_table :: table_def where
  "users_table =
     \<lparr>tb_columns = stamped [key_column ''id'', full_column Text ''username'', null_column Text ''display_name'',
        null_column Text ''email'', full_column Text ''password'', text_column ''admin'' ''role'',
        int_column 0 ''otp_enabled'', null_column Text ''otp_secret''],
      tb_key = [''id''], tb_unique = [''username''], tb_refs = []\<rparr>"

definition sessions_table :: table_def where
  "sessions_table =
     \<lparr>tb_columns = [key_column ''token'', full_column Text ''user_id'', full_column Text ''expires_at''],
      tb_key = [''token''], tb_unique = [], tb_refs = [(''user_id'', ''users'')]\<rparr>"

definition vpn_servers_table :: table_def where
  "vpn_servers_table =
     \<lparr>tb_columns = stamped [key_column ''id'', full_column Text ''name'', full_column Text ''protocol'', full_column Text ''host'',
        null_column Integer ''port'', null_column Text ''config_path'', int_column 1 ''is_active'',
        null_column Text ''private_key'', null_column Text ''public_key''],
      tb_key = [''id''], tb_unique = [], tb_refs = []\<rparr>"

definition vpn_users_table :: table_def where
  "vpn_users_table =
     \<lparr>tb_columns = stamped [key_column ''id'', full_column Text ''username'', null_column Text ''common_name'',
        null_column Text ''allowed_ips'', null_column Text ''endpoint'', null_column Text ''last_handshake'',
        null_column Text ''private_key'', null_column Text ''public_key'', null_column Text ''preshared_key'',
        int_column 0 ''bytes_received'', int_column 0 ''bytes_sent'', int_column 0 ''prev_bytes_received'',
        int_column 0 ''prev_bytes_sent'', int_column 0 ''bytes_received_rate'', int_column 0 ''bytes_sent_rate'',
        int_column 0 ''total_bytes_received'', int_column 0 ''total_bytes_sent'', null_column Integer ''remaining_days'',
        null_column Integer ''remaining_traffic_bytes'', null_column Text ''last_day_check'', null_column Text ''connected_at'',
        int_column 0 ''is_connected'', int_column 1 ''is_enabled'', full_column Text ''server_id'', null_column Text ''peer_icon''],
      tb_key = [''id''], tb_unique = [''username''], tb_refs = [(''server_id'', ''vpn_servers'')]\<rparr>"

definition bandwidth_snapshots_table :: table_def where
  "bandwidth_snapshots_table =
     \<lparr>tb_columns = [key_column ''id'', time_column ''timestamp'', full_column Integer ''download_rate'',
        full_column Integer ''upload_rate'', time_column ''created_at''],
      tb_key = [''id''], tb_unique = [], tb_refs = []\<rparr>"

definition schemaSQL :: "stmt list" where
  "schemaSQL =
     [CreateTable ''schema_migrations'' schema_migrations_table,
      CreateTable ''system_config'' system_config_table,
      CreateTable ''smtp_config'' smtp_config_table,
      CreateTable ''users'' users_table,
      CreateTable ''sessions'' sessions_table,
      CreateIndex ''idx_sessions_user_id'' ''sessions'' ''user_id'',
      CreateTable ''vpn_servers'' vpn_servers_table,
      CreateTable ''vpn_users'' vpn_users_table,
      CreateIndex ''idx_vpn_users_server_id'' ''vpn_users'' ''server_id'',
      CreateIndex ''idx_vpn_users_is_connected'' ''vpn_users'' ''is_connected'',
      CreateIndex ''idx_vpn_users_public_key'' ''vpn_users'' ''public_key'',
      CreateTable ''bandwidth_snapshots'' bandwidth_snapshots_table,
      CreateIndex ''idx_bandwidth_snapshots_timestamp'' ''bandwidth_snapshots'' ''timestamp'']"

text \<open>
  \<open>mf_query\<close> is an error of the query other than a missing table; a missing table and a missing row both
  mean that the baseline was not applied. What fails after \<open>Begin\<close> rolls the transaction back.
\<close>

record migrate_faults =
  mf_query :: "goerr option"
  mf_begin :: "goerr option"
  mf_insert :: "goerr option"
  mf_commit :: "goerr option"

definition Migrate :: "(stmt \<Rightarrow> goerr option) \<Rightarrow> migrate_faults \<Rightarrow> string \<Rightarrow> catalogue \<Rightarrow> catalogue \<times> goerr option" where
  "Migrate bad mf ident f =
     (case mf_query mf of
        Some e \<Rightarrow> (f, Some e)
      | None \<Rightarrow>
          if table_of f ''schema_migrations'' \<noteq> None \<and> ident \<in> set (sf_applied f) then (f, None)
          else (case mf_begin mf of
             Some e \<Rightarrow> (f, Some e)
           | None \<Rightarrow>
               (case exec_all bad schemaSQL f of
                  (_, Some e) \<Rightarrow> (f, Some e)
                | (f', None) \<Rightarrow>
                    (case mf_insert mf of
                       Some e \<Rightarrow> (f, Some e)
                     | None \<Rightarrow>
                         (case mf_commit mf of
                            Some e \<Rightarrow> (f, Some e)
                          | None \<Rightarrow> (f'\<lparr>sf_applied := sf_applied f' @ [ident]\<rparr>, None))))))"

section \<open>The patches\<close>

definition vpn_groups_table :: table_def where
  "vpn_groups_table =
     \<lparr>tb_columns = stamped [key_column ''id'', full_column Text ''name'', null_column Text ''description''],
      tb_key = [''id''], tb_unique = [''name''], tb_refs = []\<rparr>"

definition vpn_group_members_table :: table_def where
  "vpn_group_members_table =
     \<lparr>tb_columns = [full_column Text ''group_id'', full_column Text ''vpn_user_id'', time_column ''created_at''],
      tb_key = [''group_id'', ''vpn_user_id''], tb_unique = [],
      tb_refs = [(''group_id'', ''vpn_groups''), (''vpn_user_id'', ''vpn_users'')]\<rparr>"

definition vpn_group_pcq_table :: table_def where
  "vpn_group_pcq_table =
     \<lparr>tb_columns = stamped [key_column ''group_id'', null_column Integer ''download_limit_kbps'',
        null_column Integer ''upload_limit_kbps'', null_column Integer ''burst_download_kbps'',
        null_column Integer ''burst_upload_kbps'', text_column ''dual'' ''pcq_classifier'', int_column 0 ''is_disabled''],
      tb_key = [''group_id''], tb_unique = [], tb_refs = [(''group_id'', ''vpn_groups'')]\<rparr>"

definition group_patch :: "stmt list" where
  "group_patch =
     [CreateTable ''vpn_groups'' vpn_groups_table,
      CreateTable ''vpn_group_members'' vpn_group_members_table,
      CreateIndex ''idx_vpn_group_members_user'' ''vpn_group_members'' ''vpn_user_id'',
      DropIndex ''idx_vpn_group_firewall_rules_group'',
      DropTable ''vpn_group_firewall_rules'',
      CreateTable ''vpn_group_pcq'' vpn_group_pcq_table]"

definition new_column :: "string \<Rightarrow> string \<times> column \<Rightarrow> stmt" where
  "new_column t ck = AddColumn t (fst ck) (snd ck)"

definition group_columns :: "stmt list" where
  "group_columns = [new_column ''vpn_group_pcq'' (int_column 0 ''is_disabled'')]"

definition dns_settings_table :: table_def where
  "dns_settings_table =
     \<lparr>tb_columns = stamped [key_column ''id'', int_column 0 ''enabled'', text_column ''0.0.0.0:53'' ''listen_addr'',
        text_column ''1.1.1.1 1.0.0.1'' ''forward_upstreams''],
      tb_key = [''id''], tb_unique = [], tb_refs = []\<rparr>"

definition dns_columns :: "stmt list" where
  "dns_columns =
     [new_column ''dns_settings'' (int_column 53 ''listen_port''),
      new_column ''dns_settings'' (text_column ''coredns'' ''core_dns_bin''),
      new_column ''dns_settings'' (text_column [] ''listen_host''),
      new_column ''dns_settings'' (text_column ''vpn.local'' ''local_zone''),
      new_column ''dns_settings'' (int_column 300 ''local_zone_ttl'')]"

definition dns_records_table :: table_def where
  "dns_records_table =
     \<lparr>tb_columns = stamped [key_column ''id'', text_column ''@'' ''name'', full_column Text ''record_type'',
        full_column Text ''value'', int_column 300 ''ttl'', int_column 1 ''enabled''],
      tb_key = [''id''], tb_unique = [], tb_refs = []\<rparr>"

definition filter_columns :: "stmt list" where
  "filter_columns =
     [new_column ''dns_settings'' (int_column 0 ''block_ads_enabled''),
      new_column ''dns_settings'' (text_column [] ''blocklist_urls''),
      new_column ''dns_settings'' (text_column ''0.0.0.0'' ''block_address''),
      new_column ''dns_settings'' (int_column 300 ''cache_ttl''),
      new_column ''dns_settings'' (int_column 0 ''query_log_enabled''),
      new_column ''dns_settings'' (text_column [] ''client_dns_host'')]"

definition dns_domain_rules_table :: table_def where
  "dns_domain_rules_table =
     \<lparr>tb_columns = stamped [key_column ''id'', full_column Text ''domain'', full_column Text ''rule_type'', int_column 1 ''enabled''],
      tb_key = [''id''], tb_unique = [], tb_refs = []\<rparr>"

text \<open>Each batch of statements that must succeed, with the columns that are added after it.\<close>

definition patches :: "(stmt list \<times> stmt list) list" where
  "patches =
     [(group_patch, group_columns),
      ([CreateTable ''dns_settings'' dns_settings_table], dns_columns),
      ([CreateTable ''dns_records'' dns_records_table, CreateIndex ''idx_dns_records_name'' ''dns_records'' ''name''], filter_columns),
      ([CreateTable ''dns_domain_rules'' dns_domain_rules_table,
        CreateIndex ''idx_dns_domain_rules_type'' ''dns_domain_rules'' ''rule_type''], [])]"

fun run_patches ::
  "(stmt \<Rightarrow> goerr option) \<Rightarrow> (stmt list \<times> stmt list) list \<Rightarrow> catalogue \<Rightarrow> catalogue \<times> goerr option" where
  "run_patches bad [] f = (f, None)"
| "run_patches bad ((must, may) # ps) f =
     (case exec_all bad must f of
        (f', Some e) \<Rightarrow> (f', Some e)
      | (f', None) \<Rightarrow> run_patches bad ps (exec_ignored bad may f'))"

definition ApplySchemaPatches :: "(stmt \<Rightarrow> goerr option) \<Rightarrow> catalogue \<Rightarrow> catalogue \<times> goerr option" where
  "ApplySchemaPatches bad f = run_patches bad patches f"

text \<open>The start of the process: the second step runs only when the first succeeded.\<close>

definition prepare :: "(stmt \<Rightarrow> goerr option) \<Rightarrow> migrate_faults \<Rightarrow> string \<Rightarrow> catalogue \<Rightarrow> catalogue \<times> goerr option" where
  "prepare bad mf ident f =
     (case Migrate bad mf ident f of (f', Some e) \<Rightarrow> (f', Some e) | (f', None) \<Rightarrow> ApplySchemaPatches bad f')"

section \<open>When a statement has nothing left to do\<close>

definition settled :: "catalogue \<Rightarrow> stmt \<Rightarrow> bool" where
  "settled f s =
     (case s of
        CreateTable t _ \<Rightarrow> table_of f t \<noteq> None
      | CreateIndex i _ _ \<Rightarrow> i \<in> fst ` set (sf_indexes f)
      | AddColumn t c _ \<Rightarrow> has_column f t c
      | DropTable t \<Rightarrow> table_of f t = None \<and> t \<notin> (\<lambda>(_, n, _). n) ` set (sf_indexes f)
      | DropIndex i \<Rightarrow> i \<notin> fst ` set (sf_indexes f))"

text \<open>Two statements that do not undo each other, and the names a statement gives to indexes.\<close>

fun undoes :: "stmt \<Rightarrow> stmt \<Rightarrow> bool" where
  "undoes (DropTable t) (CreateTable t' _) = (t = t')"
| "undoes (DropTable t) (CreateIndex _ t' _) = (t = t')"
| "undoes (DropTable t) (AddColumn t' _ _) = (t = t')"
| "undoes (DropIndex i) (CreateIndex i' _ _) = (i = i')"
| "undoes _ _ = False"

definition compatible :: "stmt \<Rightarrow> stmt \<Rightarrow> bool" where
  "compatible s s' \<longleftrightarrow> \<not> undoes s s' \<and> \<not> undoes s' s"

text \<open>An index of the program's name, where there is one, belongs to the table the statement names.\<close>

definition index_fits :: "catalogue \<Rightarrow> stmt \<Rightarrow> bool" where
  "index_fits f s = (case s of CreateIndex i t _ \<Rightarrow> \<forall>(i', t', _) \<in> set (sf_indexes f). i' = i \<longrightarrow> t' = t | _ \<Rightarrow> True)"

lemma table_of_add_column:
  "table_of (add_column t c k f) n = map_option (\<lambda>tb. if n = t then tb\<lparr>tb_columns := tb_columns tb @ [(c, k)]\<rparr> else tb) (table_of f n)"
proof -
  have "map_of (map (\<lambda>(n, tb). (n, if n = t then g tb else tb)) xs) n = map_option (\<lambda>tb. if n = t then g tb else tb) (map_of xs n)"
    for g :: "table_def \<Rightarrow> table_def" and xs by (induction xs) auto
  then show ?thesis by (simp add: add_column_def)
qed

lemma has_column_add:
  "has_column (add_column t c k f) n b \<longleftrightarrow> has_column f n b \<or> (n = t \<and> b = c \<and> table_of f t \<noteq> None)"
  by (auto simp: has_column_def table_of_add_column split: option.split)

lemma add_column_indexes [simp]: "sf_indexes (add_column t c k f) = sf_indexes f" "sf_applied (add_column t c k f) = sf_applied f"
  by (simp_all add: add_column_def)

lemma table_of_filter: "map_of (filter (\<lambda>(n, _). n \<noteq> t) xs) n = (if n = t then None else map_of xs n)"
  by (induction xs) auto

lemma settled_noop:
  assumes "settled f s"
  shows "fst (exec_stmt bad s f) = f"
proof (cases s)
  case (DropTable t)
  then have "table_of f t = None" and i: "\<And>i n c. (i, n, c) \<in> set (sf_indexes f) \<Longrightarrow> n \<noteq> t"
    using assms by (force simp: settled_def)+
  then have "filter (\<lambda>(n, _). n \<noteq> t) (sf_tables f) = sf_tables f" by (force simp: filter_id_conv map_of_eq_None_iff)
  moreover have "filter (\<lambda>(_, n, _). n \<noteq> t) (sf_indexes f) = sf_indexes f" using i by (auto simp: filter_id_conv)
  ultimately show ?thesis using DropTable by (simp add: exec_stmt_def split: option.split)
next
  case (DropIndex i)
  then have "filter (\<lambda>(n, _). n \<noteq> i) (sf_indexes f) = sf_indexes f" using assms by (force simp: settled_def filter_id_conv)
  then show ?thesis using DropIndex by (simp add: exec_stmt_def split: option.split)
qed (use assms in \<open>auto simp: settled_def exec_stmt_def has_column_def split: option.splits\<close>)

lemma settled_silent: "settled f s \<Longrightarrow> bad s = None \<Longrightarrow> (\<And>t c k. s \<noteq> AddColumn t c k) \<Longrightarrow> snd (exec_stmt bad s f) = None"
  by (auto simp: settled_def exec_stmt_def split: stmt.splits)

lemma exec_settles:
  assumes "exec_stmt bad s f = (f', None)"
  shows "settled f' s"
proof (cases s)
  case (DropTable t)
  then show ?thesis using assms by (auto simp: settled_def exec_stmt_def table_of_filter split: option.splits)
qed (use assms in \<open>auto simp: settled_def exec_stmt_def has_column_add map_add_def split: option.splits if_splits\<close>)

lemma settled_kept:
  assumes "settled f s" and "compatible s s'" and "index_fits f s"
  shows "settled (fst (exec_stmt bad s' f)) s"
proof (cases "bad s'")
  case None
  show ?thesis
  proof (cases s')
    case (CreateTable t tb)
    then show ?thesis using assms None
      by (auto simp: settled_def exec_stmt_def has_column_def map_add_def compatible_def split: stmt.splits option.splits)
  next
    case (CreateIndex i t c)
    then show ?thesis using assms None
      by (auto simp: settled_def exec_stmt_def has_column_def compatible_def split: stmt.splits option.splits)
  next
    case (AddColumn t c k)
    then show ?thesis using assms None
      by (auto simp: settled_def exec_stmt_def has_column_add table_of_add_column split: stmt.splits)
  next
    case (DropTable t)
    then show ?thesis using assms None
      by (force simp: settled_def exec_stmt_def has_column_def table_of_filter compatible_def index_fits_def split: stmt.splits)
  next
    case (DropIndex i)
    then show ?thesis using assms None
      by (force simp: settled_def exec_stmt_def has_column_def compatible_def split: stmt.splits)
  qed
qed (simp add: exec_stmt_def assms)

lemma index_fits_kept:
  assumes "index_fits f s" and "index_fits \<lparr>sf_tables = [], sf_indexes = (case s' of CreateIndex i t c \<Rightarrow> [(i, t, c)] | _ \<Rightarrow> []), sf_applied = []\<rparr> s"
  shows "index_fits (fst (exec_stmt bad s' f)) s"
  using assms by (cases s'; cases s) (auto simp: exec_stmt_def index_fits_def split: option.splits)

section \<open>The statements of the program\<close>

definition known :: "stmt list" where
  "known = schemaSQL @ concat (map (\<lambda>(must, may). must @ may) patches)"

definition single_index :: "stmt \<Rightarrow> catalogue" where
  "single_index s = \<lparr>sf_tables = [], sf_indexes = (case s of CreateIndex i t c \<Rightarrow> [(i, t, c)] | _ \<Rightarrow> []), sf_applied = []\<rparr>"

lemmas statement_defs = schemaSQL_def patches_def group_patch_def group_columns_def dns_columns_def filter_columns_def new_column_def

lemma known_checked: "list_all (\<lambda>s. list_all (\<lambda>s'. compatible s s' \<and> index_fits (single_index s') s) known) known"
  by code_simp

lemma known_compatible: "s \<in> set known \<Longrightarrow> s' \<in> set known \<Longrightarrow> compatible s s'"
  and known_fits: "s \<in> set known \<Longrightarrow> s' \<in> set known \<Longrightarrow> index_fits (single_index s') s"
  using known_checked by (simp_all add: list_all_iff)

definition fits :: "catalogue \<Rightarrow> bool" where
  "fits f \<longleftrightarrow> (\<forall>s \<in> set known. index_fits f s)"

lemma fits_kept: "fits f \<Longrightarrow> s \<in> set known \<Longrightarrow> fits (fst (exec_stmt bad s f))"
  using known_fits unfolding fits_def single_index_def by (blast intro: index_fits_kept)

lemma settled_all_kept:
  assumes "\<forall>s \<in> set pre. settled f s" and "set pre \<subseteq> set known" and "s' \<in> set known" and "fits f"
  shows "\<forall>s \<in> set pre. settled (fst (exec_stmt bad s' f)) s"
  using assms known_compatible unfolding fits_def by (blast intro: settled_kept)

lemma exec_all_settles:
  assumes "exec_all bad ss f = (f', None)" and "fits f" and "\<forall>s \<in> set pre. settled f s"
    and "set (pre @ ss) \<subseteq> set known"
  shows "fits f' \<and> (\<forall>s \<in> set (pre @ ss). settled f' s)"
  using assms
proof (induction ss arbitrary: f pre)
  case (Cons s ss)
  then obtain f1 where e: "exec_stmt bad s f = (f1, None)" and r: "exec_all bad ss f1 = (f', None)"
    by (auto split: prod.splits option.splits)
  have k: "s \<in> set known" "set pre \<subseteq> set known" using Cons.prems(4) by auto
  have "\<forall>x \<in> set (pre @ [s]). settled f1 x"
    using settled_all_kept [OF Cons.prems(3) k(2,1) Cons.prems(2), of bad] exec_settles [OF e] e by simp
  moreover have "fits f1" using fits_kept [OF Cons.prems(2) k(1), of bad] e by simp
  ultimately show ?case using Cons.IH [OF r, of "pre @ [s]"] Cons.prems(4) by simp
qed simp

lemma alter_settles:
  assumes "table_of f t \<noteq> None" and "bad (AddColumn t c k) = None"
  shows "settled (fst (exec_stmt bad (AddColumn t c k) f)) (AddColumn t c k)"
  using assms by (auto simp: settled_def exec_stmt_def has_column_add)

text \<open>A column is only added to a table that an earlier statement creates.\<close>

fun creates :: "string \<Rightarrow> stmt \<Rightarrow> bool" where
  "creates t (CreateTable t' _) = (t' = t)"
| "creates t _ = False"

lemma creates_iff: "creates t s \<longleftrightarrow> (\<exists>tb. s = CreateTable t tb)"
  by (cases s) auto

definition adds_to :: "stmt list \<Rightarrow> stmt \<Rightarrow> bool" where
  "adds_to pre s = (case s of AddColumn t _ _ \<Rightarrow> list_ex (creates t) pre | _ \<Rightarrow> False)"

fun ordered :: "stmt list \<Rightarrow> (stmt list \<times> stmt list) list \<Rightarrow> bool" where
  "ordered pre [] = True"
| "ordered pre ((must, may) # ps) = (list_all (adds_to (pre @ must)) may \<and> ordered (pre @ must @ may) ps)"

lemma patches_ordered: "ordered schemaSQL patches"
  by code_simp

definition no_lost_alter :: "(stmt \<Rightarrow> goerr option) \<Rightarrow> bool" where
  "no_lost_alter bad \<longleftrightarrow> (\<forall>t c k. AddColumn t c k \<in> set known \<longrightarrow> bad (AddColumn t c k) = None)"

lemma exec_ignored_settles:
  assumes "fits f" and "\<forall>s \<in> set pre. settled f s" and "set (pre @ ss) \<subseteq> set known"
    and "list_all (adds_to pre) ss" and "no_lost_alter bad"
  shows "fits (exec_ignored bad ss f) \<and> (\<forall>s \<in> set (pre @ ss). settled (exec_ignored bad ss f) s)"
  using assms
proof (induction ss arbitrary: f pre)
  case (Cons s ss)
  let ?f = "fst (exec_stmt bad s f)"
  have k: "s \<in> set known" "set pre \<subseteq> set known" using Cons.prems(3) by auto
  obtain t c ck tb where s: "s = AddColumn t c ck" and tb: "CreateTable t tb \<in> set pre"
    using Cons.prems(4) by (auto simp: adds_to_def list_ex_iff creates_iff split: stmt.splits)
  have "table_of f t \<noteq> None" using Cons.prems(2) tb by (auto simp: settled_def)
  moreover have "bad s = None" using Cons.prems(5) k(1) s by (auto simp: no_lost_alter_def)
  ultimately have "\<forall>x \<in> set (pre @ [s]). settled ?f x"
    using settled_all_kept [OF Cons.prems(2) k(2,1) Cons.prems(1), of bad] alter_settles s by simp
  moreover have "list_all (adds_to (pre @ [s])) ss"
    using Cons.prems(4) by (auto simp: list_all_iff adds_to_def split: stmt.splits)
  ultimately show ?case
    using Cons.IH [of ?f "pre @ [s]"] Cons.prems(3,5) fits_kept [OF Cons.prems(1) k(1), of bad] by (simp add: exec_ignored_def)
qed (simp add: exec_ignored_def)

lemma run_patches_settles:
  assumes "run_patches bad ps f = (f', None)" and "fits f" and "\<forall>s \<in> set pre. settled f s"
    and "set (pre @ concat (map (\<lambda>(must, may). must @ may) ps)) \<subseteq> set known" and "ordered pre ps" and "no_lost_alter bad"
  shows "fits f' \<and> (\<forall>s \<in> set (pre @ concat (map (\<lambda>(must, may). must @ may) ps)). settled f' s)"
  using assms
proof (induction ps arbitrary: f pre)
  case (Cons p ps)
  obtain must may where p: "p = (must, may)" by force
  obtain f1 where e: "exec_all bad must f = (f1, None)" and r: "run_patches bad ps (exec_ignored bad may f1) = (f', None)"
    using Cons.prems(1) p by (auto split: prod.splits option.splits)
  from exec_all_settles [OF e Cons.prems(2,3)] have 1: "fits f1" "\<forall>s \<in> set (pre @ must). settled f1 s"
    using Cons.prems(4) p by auto
  from exec_ignored_settles [OF this, of may bad] have
    2: "fits (exec_ignored bad may f1)" "\<forall>s \<in> set ((pre @ must) @ may). settled (exec_ignored bad may f1) s"
    using Cons.prems(4-6) p by auto
  from Cons.IH [OF r 2] show ?case using Cons.prems(4-6) p by simp
qed simp

section \<open>Columns and their types\<close>

fun declares :: "stmt \<Rightarrow> (string \<times> string \<times> column) list" where
  "declares (CreateTable t tb) = map (Pair t) (tb_columns tb)"
| "declares (AddColumn t c k) = [(t, c, k)]"
| "declares _ = []"

fun alters :: "stmt \<Rightarrow> (string \<times> string) list" where
  "alters (AddColumn t c _) = [(t, c)]"
| "alters _ = []"

text \<open>What the program's statements say of a column, and which columns a later statement adds.\<close>

definition declared :: "(string \<times> string \<times> column) list" where
  "declared = concat (map declares known)"

definition altered :: "(string \<times> string) list" where
  "altered = concat (map alters known)"

definition has_typed :: "catalogue \<Rightarrow> string \<Rightarrow> string \<Rightarrow> column \<Rightarrow> bool" where
  "has_typed f t c k \<longleftrightarrow> (case table_of f t of None \<Rightarrow> False | Some tb \<Rightarrow> (c, k) \<in> set (tb_columns tb))"

definition declared_of :: "string \<Rightarrow> (string \<times> column) list" where
  "declared_of t = map snd (filter (\<lambda>(t', _). t' = t) declared)"

definition altered_of :: "string \<Rightarrow> string list" where
  "altered_of t = map snd (filter (\<lambda>(t', _). t' = t) altered)"

definition agree :: "(string \<times> column) list \<Rightarrow> (string \<times> column) list \<Rightarrow> bool" where
  "agree cs ds \<longleftrightarrow> (\<forall>(c, k) \<in> set cs. \<forall>(c', k') \<in> set ds. c' = c \<longrightarrow> k' = k)"

text \<open>
  The columns a table had when it was introduced, table by table: those of its \<open>CREATE TABLE\<close>, but for
  \<open>is_disabled\<close> of \<open>vpn_group_pcq\<close>, which the statement has now and old files lack. The list is written out, it does not
  follow from the statements below.
\<close>

definition first_columns :: "string \<Rightarrow> string list" where
  "first_columns t =
     (if t = ''schema_migrations'' then [''id'', ''applied_at'']
      else if t = ''system_config'' then
        [''id'', ''is_setup_complete'', ''vpn_configuration'', ''created_at'', ''updated_at'']
      else if t = ''smtp_config'' then
        [''id'', ''host'', ''port'', ''username'', ''password'', ''encryption'', ''from_name'', ''from_email'', ''enabled'',
        ''created_at'', ''updated_at'']
      else if t = ''users'' then
        [''id'', ''username'', ''display_name'', ''email'', ''password'', ''role'', ''otp_enabled'', ''otp_secret'',
        ''created_at'', ''updated_at'']
      else if t = ''sessions'' then [''token'', ''user_id'', ''expires_at'']
      else if t = ''vpn_servers'' then
        [''id'', ''name'', ''protocol'', ''host'', ''port'', ''config_path'', ''is_active'', ''private_key'',
        ''public_key'', ''created_at'', ''updated_at'']
      else if t = ''vpn_users'' then
        [''id'', ''username'', ''common_name'', ''allowed_ips'', ''endpoint'', ''last_handshake'', ''private_key'',
        ''public_key'', ''preshared_key'', ''bytes_received'', ''bytes_sent'', ''prev_bytes_received'', ''prev_bytes_sent'',
        ''bytes_received_rate'', ''bytes_sent_rate'', ''total_bytes_received'', ''total_bytes_sent'', ''remaining_days'',
        ''remaining_traffic_bytes'', ''last_day_check'', ''connected_at'', ''is_connected'', ''is_enabled'', ''server_id'',
        ''peer_icon'', ''created_at'', ''updated_at'']
      else if t = ''bandwidth_snapshots'' then [''id'', ''timestamp'', ''download_rate'', ''upload_rate'', ''created_at'']
      else if t = ''vpn_groups'' then [''id'', ''name'', ''description'', ''created_at'', ''updated_at'']
      else if t = ''vpn_group_members'' then [''group_id'', ''vpn_user_id'', ''created_at'']
      else if t = ''vpn_group_pcq'' then
        [''group_id'', ''download_limit_kbps'', ''upload_limit_kbps'', ''burst_download_kbps'', ''burst_upload_kbps'',
        ''pcq_classifier'', ''created_at'', ''updated_at'']
      else if t = ''dns_settings'' then
        [''id'', ''enabled'', ''listen_addr'', ''forward_upstreams'', ''created_at'', ''updated_at'']
      else if t = ''dns_records'' then
        [''id'', ''name'', ''record_type'', ''value'', ''ttl'', ''enabled'', ''created_at'', ''updated_at'']
      else if t = ''dns_domain_rules'' then [''id'', ''domain'', ''rule_type'', ''enabled'', ''created_at'', ''updated_at'']
      else [])"

text \<open>
  A table as this program or an older release left it: it has its first columns, and columns it shares with the statements
  have the type they declare. What it has beyond is open.
\<close>

definition table_fits :: "string \<Rightarrow> table_def \<Rightarrow> bool" where
  "table_fits t tb \<longleftrightarrow> agree (tb_columns tb) (declared_of t) \<and> set (first_columns t) \<subseteq> fst ` set (tb_columns tb)"

definition typed :: "catalogue \<Rightarrow> bool" where
  "typed f \<longleftrightarrow> (\<forall>(t, tb) \<in> set (sf_tables f). table_fits t tb)"

definition stmt_fits :: "stmt \<Rightarrow> bool" where
  "stmt_fits s =
     (case s of CreateTable t tb \<Rightarrow> table_fits t tb | AddColumn t c k \<Rightarrow> agree [(c, k)] (declared_of t) | _ \<Rightarrow> True)"

text \<open>Two statements on one table declare a column alike, and no table is created twice.\<close>

fun same_columns :: "stmt \<Rightarrow> stmt \<Rightarrow> bool" where
  "same_columns (CreateTable t tb) (CreateTable t' tb') = (if t = t' then tb = tb' \<and> distinct (map fst (tb_columns tb)) else True)"
| "same_columns (CreateTable t tb) (AddColumn t' c k) = (if t = t' then agree (tb_columns tb) [(c, k)] else True)"
| "same_columns (AddColumn t c k) (CreateTable t' tb) = (if t = t' then agree [(c, k)] (tb_columns tb) else True)"
| "same_columns (AddColumn t c k) (AddColumn t' c' k') = (if t = t' then agree [(c, k)] [(c', k')] else True)"
| "same_columns _ _ = True"

lemma known_same: "list_all (\<lambda>s. list_all (same_columns s) known) known"
  by code_simp

text \<open>
  A statement that creates a table gives it its first columns, and every column that the statements declare is a first column of
  its table or added by an \<open>ALTER TABLE\<close>.
\<close>

lemma known_first:
  "list_all (\<lambda>s. case s of CreateTable t tb \<Rightarrow> list_all (\<lambda>c. c \<in> set (map fst (tb_columns tb))) (first_columns t) | _ \<Rightarrow> True) known"
  by code_simp

lemma known_reached:
  "list_all (\<lambda>s. case s of CreateTable t tb \<Rightarrow>
      (let fs = first_columns t; as = altered_of t in list_all (\<lambda>(c, _). c \<in> set fs \<or> c \<in> set as) (tb_columns tb)) | _ \<Rightarrow> True) known"
  by code_simp

lemma known_typed:
  assumes "s \<in> set known"
  shows "stmt_fits s"
proof -
  have same: "same_columns x y" if "x \<in> set known" "y \<in> set known" for x y
    using known_same that by (simp add: list_all_iff)
  have d: "(c, k) \<in> set (declared_of t) \<longleftrightarrow> (\<exists>tb. CreateTable t tb \<in> set known \<and> (c, k) \<in> set (tb_columns tb)) \<or> AddColumn t c k \<in> set known"
    for c k t
  proof -
    have "(t, c, k) \<in> set (declares x) \<longleftrightarrow> (\<exists>tb. x = CreateTable t tb \<and> (c, k) \<in> set (tb_columns tb)) \<or> x = AddColumn t c k" for x
      by (cases x) auto
    moreover have "(c, k) \<in> set (declared_of t) \<longleftrightarrow> (t, c, k) \<in> set declared" by (force simp: declared_of_def)
    ultimately show ?thesis by (auto simp: declared_def)
  qed
  show ?thesis
  proof (cases s)
    case (CreateTable t tb)
    have "k' = k" if a: "(c, k) \<in> set (tb_columns tb)" and b: "(c, k') \<in> set (declared_of t)" for c k k'
    proof (cases "AddColumn t c k' \<in> set known")
      case True
      then show ?thesis using same [OF assms True] a CreateTable by (auto simp: agree_def)
    next
      case False
      then obtain tb' where tb': "CreateTable t tb' \<in> set known" "(c, k') \<in> set (tb_columns tb')" using b d by blast
      then have "tb' = tb" "distinct (map fst (tb_columns tb))" using same [OF assms tb'(1)] CreateTable by auto
      then show ?thesis using a tb'(2) by (metis eq_key_imp_eq_value)
    qed
    moreover have "set (first_columns t) \<subseteq> fst ` set (tb_columns tb)"
      using known_first assms CreateTable by (fastforce simp: list_all_iff)
    ultimately show ?thesis using CreateTable by (auto simp: stmt_fits_def table_fits_def agree_def)
  next
    case (AddColumn t c k)
    have "k' = k" if a: "(c, k') \<in> set (declared_of t)" for k'
    proof -
      consider tb where "CreateTable t tb \<in> set known" "(c, k') \<in> set (tb_columns tb)" | "AddColumn t c k' \<in> set known"
        using a d by blast
      then show ?thesis
      proof cases
        case 1
        then show ?thesis using same [OF assms 1(1)] AddColumn by (auto simp: agree_def)
      next
        case 2
        then show ?thesis using same [OF assms 2] AddColumn by (simp add: agree_def)
      qed
    qed
    then show ?thesis using AddColumn by (auto simp: stmt_fits_def agree_def)
  qed (simp_all add: stmt_fits_def)
qed

lemma typed_kept:
  assumes "typed f" and "s \<in> set known"
  shows "typed (fst (exec_stmt bad s f))"
proof (cases "bad s")
  case None
  have s: "stmt_fits s" using known_typed assms(2) .
  show ?thesis
  proof (cases s)
    case (AddColumn t c k)
    have "table_fits t (tb\<lparr>tb_columns := tb_columns tb @ [(c, k)]\<rparr>)" if "table_fits t tb" for tb
      using that s AddColumn by (auto simp: table_fits_def stmt_fits_def agree_def)
    then show ?thesis using assms(1) AddColumn None by (fastforce simp: typed_def exec_stmt_def add_column_def)
  qed (use assms(1) s None in \<open>auto simp: typed_def exec_stmt_def stmt_fits_def\<close>)
qed (simp add: exec_stmt_def assms)

section \<open>Every run is a sequence of statements\<close>

definition catalogue_step :: "(stmt \<Rightarrow> goerr option) \<Rightarrow> catalogue \<Rightarrow> catalogue \<Rightarrow> bool" where
  "catalogue_step bad f g \<longleftrightarrow> (\<exists>s \<in> set known. g = fst (exec_stmt bad s f))"

interpretation catalogue: kept_by_steps "catalogue_step bad"
  "\<lambda>f. fits f \<and> typed f \<and> (set pre \<subseteq> set known \<longrightarrow> (\<forall>s \<in> set pre. settled f s))" for pre bad
  by unfold_locales (auto simp: catalogue_step_def fits_kept typed_kept dest: settled_all_kept)

lemma exec_step: "s \<in> set known \<Longrightarrow> catalogue_step bad f (fst (exec_stmt bad s f))"
  by (auto simp: catalogue_step_def)

lemma exec_all_steps: "set ss \<subseteq> set known \<Longrightarrow> (catalogue_step bad)\<^sup>*\<^sup>* f (fst (exec_all bad ss f))"
proof (induction ss arbitrary: f)
  case (Cons s ss)
  obtain g e where g: "exec_stmt bad s f = (g, e)" by force
  then have "catalogue_step bad f g" using exec_step [of s bad f] Cons.prems by simp
  then show ?case using Cons.IH [of g] Cons.prems g by (auto split: option.split intro: converse_rtranclp_into_rtranclp)
qed simp

lemma exec_ignored_steps: "set ss \<subseteq> set known \<Longrightarrow> (catalogue_step bad)\<^sup>*\<^sup>* f (exec_ignored bad ss f)"
proof (induction ss arbitrary: f)
  case (Cons s ss)
  then show ?case using exec_step [of s bad f] by (auto simp: exec_ignored_def intro: converse_rtranclp_into_rtranclp)
qed (simp add: exec_ignored_def)

lemma run_patches_steps:
  "set (concat (map (\<lambda>(must, may). must @ may) ps)) \<subseteq> set known \<Longrightarrow> (catalogue_step bad)\<^sup>*\<^sup>* f (fst (run_patches bad ps f))"
proof (induction ps arbitrary: f)
  case (Cons p ps)
  obtain must may where p: "p = (must, may)" by force
  obtain g e where g: "exec_all bad must f = (g, e)" by force
  have "(catalogue_step bad)\<^sup>*\<^sup>* f g" using exec_all_steps [of must bad f] Cons.prems p g by simp
  moreover have "(catalogue_step bad)\<^sup>*\<^sup>* g (exec_ignored bad may g)"
    using exec_ignored_steps [of may bad g] Cons.prems p by simp
  moreover have "(catalogue_step bad)\<^sup>*\<^sup>* (exec_ignored bad may g) (fst (run_patches bad ps (exec_ignored bad may g)))"
    using Cons p by simp
  ultimately show ?case using p g by (auto split: option.split)
qed simp

lemma ApplySchemaPatches_steps: "(catalogue_step bad)\<^sup>*\<^sup>* f (fst (ApplySchemaPatches bad f))"
  unfolding ApplySchemaPatches_def by (rule run_patches_steps) (auto simp: known_def)

lemma exec_applied [simp]: "sf_applied (fst (exec_stmt bad s f)) = sf_applied f"
  by (cases s) (simp_all add: exec_stmt_def split: option.split)

lemma applied_kept: "(catalogue_step bad)\<^sup>*\<^sup>* f g \<Longrightarrow> sf_applied g = sf_applied f"
  by (induction rule: rtranclp_induct) (auto simp: catalogue_step_def)

section \<open>A file that an earlier release left\<close>

text \<open>
  The tables it has hold at least their first columns, its indexes stand where the program puts them, and the
  baseline is noted as applied only when its tables and indexes are there.
\<close>

definition earlier :: "string \<Rightarrow> catalogue \<Rightarrow> bool" where
  "earlier ident f \<longleftrightarrow> fits f \<and> typed f \<and> (ident \<in> set (sf_applied f) \<longrightarrow> (\<forall>s \<in> set schemaSQL. settled f s))"

lemma schemaSQL_known: "set schemaSQL \<subseteq> set known"
  by (simp add: known_def)

lemma earlier_steps:
  assumes "(catalogue_step bad)\<^sup>*\<^sup>* f g" and "earlier ident f"
  shows "earlier ident g"
  using catalogue.steps_keep [OF assms(1), of "if ident \<in> set (sf_applied f) then schemaSQL else []"] assms(2) schemaSQL_known
    applied_kept [OF assms(1)] by (auto simp: earlier_def)

lemma Migrate_cases:
  obtains (unchanged) "fst (Migrate bad mf ident f) = f"
    "snd (Migrate bad mf ident f) = None \<Longrightarrow> table_of f ''schema_migrations'' \<noteq> None \<and> ident \<in> set (sf_applied f)"
  | (applied) g where "exec_all bad schemaSQL f = (g, None)" "Migrate bad mf ident f = (g\<lparr>sf_applied := sf_applied g @ [ident]\<rparr>, None)"
proof -
  obtain g e where g: "exec_all bad schemaSQL f = (g, e)" by force
  show ?thesis
  proof (cases "snd (Migrate bad mf ident f) = None \<and> \<not> (table_of f ''schema_migrations'' \<noteq> None \<and> ident \<in> set (sf_applied f))")
    case True
    then have "e = None" "Migrate bad mf ident f = (g\<lparr>sf_applied := sf_applied g @ [ident]\<rparr>, None)"
      using g by (auto simp: Migrate_def split: option.splits if_splits)
    then show ?thesis using applied g by simp
  next
    case False
    then have "fst (Migrate bad mf ident f) = f"
      using g by (cases e) (auto simp: Migrate_def split: option.splits if_splits)
    then show ?thesis using unchanged False by blast
  qed
qed

lemma applied_elsewhere [simp]:
  "fits (f\<lparr>sf_applied := xs\<rparr>) = fits f" "typed (f\<lparr>sf_applied := xs\<rparr>) = typed f" "settled (f\<lparr>sf_applied := xs\<rparr>) s = settled f s"
  by (simp_all add: fits_def typed_def index_fits_def settled_def has_column_def split: stmt.split)

lemma earlier_Migrate:
  assumes "earlier ident f"
  shows "earlier ident (fst (Migrate bad mf ident f))"
proof (cases rule: Migrate_cases [of bad mf ident f])
  case (applied g)
  have g: "(catalogue_step bad)\<^sup>*\<^sup>* f g" using exec_all_steps [OF schemaSQL_known, of bad f] applied(1) by simp
  have "\<forall>s \<in> set schemaSQL. settled g s"
    using exec_all_settles [OF applied(1), of "[]"] assms schemaSQL_known by (simp add: earlier_def)
  then show ?thesis using earlier_steps [OF g assms] applied(2) by (simp add: earlier_def)
qed (use assms in simp)

text \<open>Whatever fails on the way, the next start finds such a file again.\<close>

lemma earlier_prepare:
  assumes "earlier ident f"
  shows "earlier ident (fst (prepare bad mf ident f))"
proof -
  obtain g e where g: "Migrate bad mf ident f = (g, e)" by force
  then have "earlier ident g" using earlier_Migrate [OF assms, of bad mf] by simp
  then show ?thesis using earlier_steps [OF ApplySchemaPatches_steps, of ident g bad] g
    by (auto simp: prepare_def split: option.split)
qed

definition complete :: "catalogue \<Rightarrow> bool" where
  "complete f \<longleftrightarrow> (\<forall>(t, c, k) \<in> set declared. has_typed f t c k)"

lemma settled_complete:
  assumes "typed f" and "\<forall>s \<in> set known. settled f s"
  shows "complete f"
proof -
  have "has_typed f t c k" if s: "s \<in> set known" and d: "(t, c, k) \<in> set (declares s)" for s t c k
  proof -
    have k: "(c, k) \<in> set (declared_of t)" using s d by (force simp: declared_of_def declared_def)
    have "table_of f t \<noteq> None" using assms(2) s d by (cases s) (force simp: settled_def has_column_def split: option.splits)+
    then obtain tb where tb: "table_of f t = Some tb" by auto
    then have fit: "table_fits t tb" using assms(1) by (auto simp: typed_def dest: map_of_SomeD)
    have "c \<in> fst ` set (tb_columns tb)"
    proof (cases "c \<in> set (altered_of t)")
      case True
      then obtain x where x: "x \<in> set known" "(t, c) \<in> set (alters x)" by (auto simp: altered_of_def altered_def)
      obtain k' where "x = AddColumn t c k'" using x(2) by (cases x) auto
      then have "AddColumn t c k' \<in> set known" using x(1) by simp
      then show ?thesis using assms(2) tb by (force simp: settled_def has_column_def)
    next
      case False
      then have "c \<in> set (first_columns t)" using s d known_reached
        by (cases s) (force simp: list_all_iff altered_of_def altered_def)+
      then show ?thesis using fit by (auto simp: table_fits_def)
    qed
    then obtain k' where k': "(c, k') \<in> set (tb_columns tb)" by auto
    then have "k' = k" using fit k by (fastforce simp: table_fits_def agree_def)
    then show ?thesis using k' tb by (simp add: has_typed_def)
  qed
  then show ?thesis by (auto simp: complete_def declared_def)
qed

text \<open>Where every statement is settled, nothing happens.\<close>

lemma exec_all_noop:
  "\<forall>s \<in> set ss. settled f s \<and> bad s = None \<and> (\<forall>t c k. s \<noteq> AddColumn t c k) \<Longrightarrow> exec_all bad ss f = (f, None)"
proof (induction ss)
  case (Cons s ss)
  then have "exec_stmt bad s f = (f, None)"
    using settled_noop [of f s bad] settled_silent [of f s bad] by (simp add: prod_eq_iff)
  then show ?case using Cons by simp
qed simp

lemma exec_ignored_noop: "\<forall>s \<in> set ss. settled f s \<Longrightarrow> exec_ignored bad ss f = f"
  by (induction ss) (simp_all add: exec_ignored_def settled_noop)

definition required :: "stmt list" where
  "required = schemaSQL @ concat (map fst patches)"

lemma required_checked: "list_all (\<lambda>s. alters s = []) required"
  by code_simp

lemma required_no_alter: "s \<in> set required \<Longrightarrow> s \<noteq> AddColumn t c k"
  using required_checked by (force simp: list_all_iff)

lemma run_patches_noop:
  assumes "\<forall>s \<in> set (concat (map (\<lambda>(must, may). must @ may) ps)). settled f s"
    and "\<forall>s \<in> set (concat (map fst ps)). bad s = None \<and> (\<forall>t c k. s \<noteq> AddColumn t c k)"
  shows "run_patches bad ps f = (f, None)"
  using assms
proof (induction ps)
  case (Cons p ps)
  obtain must may where p: "p = (must, may)" by force
  have "exec_all bad must f = (f, None)" using exec_all_noop [of must f bad] Cons.prems p by simp
  moreover have "exec_ignored bad may f = f" using exec_ignored_noop [of may f bad] Cons.prems p by simp
  ultimately show ?case using Cons p by simp
qed simp

section \<open>A start succeeds\<close>

text \<open>An index needs its table and its column; both come with the statements before it.\<close>

fun supported :: "stmt list \<Rightarrow> stmt list \<Rightarrow> bool" where
  "supported pre [] = True"
| "supported pre (s # ss) =
     ((case s of
         CreateIndex _ t c \<Rightarrow>
           c \<in> set (first_columns t) \<and> list_ex (creates t) pre
       | AddColumn _ _ _ \<Rightarrow> False
       | _ \<Rightarrow> True) \<and> supported (pre @ [s]) ss)"

lemma required_supported: "supported [] required"
  by code_simp

lemma supported_append: "supported pre (xs @ ys) \<longleftrightarrow> supported pre xs \<and> supported (pre @ xs) ys"
  by (induction xs arbitrary: pre) simp_all

lemma index_possible:
  assumes "typed f" and "set pre \<subseteq> set known" and "\<forall>s \<in> set pre. settled f s" and "supported pre [CreateIndex i t c]"
  shows "table_of f t \<noteq> None \<and> has_column f t c"
proof -
  obtain tb where x: "CreateTable t tb \<in> set pre" and c: "c \<in> set (first_columns t)"
    using assms(4) by (auto simp: list_ex_iff creates_iff)
  have "settled f (CreateTable t tb)" using assms(3) x by blast
  then obtain tb' where tb': "table_of f t = Some tb'" by (auto simp: settled_def)
  then have "table_fits t tb'" using assms(1) by (auto simp: typed_def dest: map_of_SomeD)
  then have "c \<in> fst ` set (tb_columns tb')" using c by (auto simp: table_fits_def)
  then show ?thesis using tb' by (simp add: has_column_def)
qed

lemma exec_all_succeeds:
  assumes "typed f" and "fits f" and "\<forall>s \<in> set pre. settled f s" and "set (pre @ ss) \<subseteq> set known"
    and "supported pre ss" and "\<forall>s \<in> set ss. bad s = None"
  shows "\<exists>g. exec_all bad ss f = (g, None)"
  using assms
proof (induction ss arbitrary: f pre)
  case (Cons s ss)
  have k: "s \<in> set known" "set pre \<subseteq> set known" using Cons.prems(4) by auto
  have "snd (exec_stmt bad s f) = None"
  proof (cases s)
    case (CreateIndex i t c)
    then show ?thesis
      using Cons.prems(5,6) index_possible [OF Cons.prems(1) k(2) Cons.prems(3), of i t c] by (auto simp: exec_stmt_def)
  qed (use Cons.prems(5,6) in \<open>simp_all add: exec_stmt_def\<close>)
  then obtain g where g: "exec_stmt bad s f = (g, None)" by (metis prod.collapse)
  have "\<forall>x \<in> set (pre @ [s]). settled g x"
    using settled_all_kept [OF Cons.prems(3) k(2,1) Cons.prems(2), of bad] exec_settles [OF g] g by simp
  moreover have "typed g" "fits g"
    using typed_kept [OF Cons.prems(1) k(1), of bad] fits_kept [OF Cons.prems(2) k(1), of bad] g by simp_all
  ultimately show ?case using Cons.IH [of g "pre @ [s]"] Cons.prems(4-6) g by simp
qed simp

lemma run_patches_succeeds:
  assumes "typed f" and "fits f" and "\<forall>s \<in> set pre. settled f s" and "set pre \<subseteq> set known"
    and "set (concat (map (\<lambda>(must, may). must @ may) ps)) \<subseteq> set known"
    and "supported pre (concat (map fst ps))" and "\<forall>s \<in> set (concat (map fst ps)). bad s = None"
  shows "\<exists>g. run_patches bad ps f = (g, None)"
  using assms
proof (induction ps arbitrary: f pre)
  case (Cons p ps)
  obtain must may where p: "p = (must, may)" by force
  obtain g where g: "exec_all bad must f = (g, None)"
    using exec_all_succeeds [OF Cons.prems(1-3), of must bad] Cons.prems(4-7) p by (auto simp: supported_append)
  have 1: "fits g" "\<forall>s \<in> set (pre @ must). settled g s"
    using exec_all_settles [OF g Cons.prems(2,3)] Cons.prems(4,5) p by auto
  have 2: "typed g"
    using catalogue.steps_keep [OF exec_all_steps [of must bad f], of "[]"] Cons.prems(1,2,5) g p by simp
  have sub: "set (pre @ must) \<subseteq> set known" using Cons.prems(4,5) p by auto
  have "fits (exec_ignored bad may g)" "typed (exec_ignored bad may g)" "\<forall>s \<in> set (pre @ must). settled (exec_ignored bad may g) s"
    using catalogue.steps_keep [OF exec_ignored_steps [of may bad g], of "pre @ must"] Cons.prems(5) p 1 2 sub by auto
  then show ?case
    using Cons.IH [of "exec_ignored bad may g" "pre @ must"] Cons.prems(5-7) p g sub by (simp add: supported_append)
qed simp

definition no_faults :: migrate_faults where
  "no_faults = \<lparr>mf_query = None, mf_begin = None, mf_insert = None, mf_commit = None\<rparr>"

lemma no_faults_simps [simp]:
  "mf_query no_faults = None" "mf_begin no_faults = None" "mf_insert no_faults = None" "mf_commit no_faults = None"
  by (simp_all add: no_faults_def)

lemma patches_known: "set (concat (map (\<lambda>(must, may). must @ may) patches)) \<subseteq> set known"
  by (auto simp: known_def)

lemma prepare_succeeds:
  assumes "earlier ident f" and "\<forall>s \<in> set required. bad s = None"
  shows "\<exists>g. prepare bad no_faults ident f = (g, None)"
proof -
  have sup: "supported [] schemaSQL" "supported schemaSQL (concat (map fst patches))"
    using required_supported by (simp_all add: required_def supported_append)
  obtain g where g: "exec_all bad schemaSQL f = (g, None)"
    using exec_all_succeeds [of f "[]" schemaSQL bad] assms sup(1) schemaSQL_known by (auto simp: earlier_def required_def)
  then have "\<exists>h. Migrate bad no_faults ident f = (h, None) \<and> ident \<in> set (sf_applied h)" by (auto simp: Migrate_def)
  then obtain h where h: "Migrate bad no_faults ident f = (h, None)" and i: "ident \<in> set (sf_applied h)" by blast
  then have "earlier ident h" using earlier_Migrate [OF assms(1), of bad no_faults] by simp
  then show ?thesis
    using run_patches_succeeds [of h schemaSQL patches bad] i h sup(2) schemaSQL_known patches_known assms(2)
    by (auto simp: prepare_def ApplySchemaPatches_def earlier_def required_def)
qed

lemma prepare_settles:
  assumes "earlier ident f" and "prepare bad mf ident f = (g, None)" and "no_lost_alter bad"
  shows "ident \<in> set (sf_applied g) \<and> typed g \<and> (\<forall>s \<in> set known. settled g s)"
proof -
  obtain h where h: "Migrate bad mf ident f = (h, None)" and p: "run_patches bad patches h = (g, None)"
    using assms(2) by (auto simp: prepare_def ApplySchemaPatches_def split: prod.splits option.splits)
  have i: "ident \<in> set (sf_applied h)" using h by (cases rule: Migrate_cases [of bad mf ident f]) auto
  have e: "earlier ident h" using earlier_Migrate [OF assms(1), of bad mf] h by simp
  then have "\<forall>s \<in> set schemaSQL. settled h s" "fits h" using i by (simp_all add: earlier_def)
  from run_patches_settles [OF p this(2,1)] have "\<forall>s \<in> set known. settled g s"
    using assms(3) patches_ordered by (simp add: known_def)
  moreover have "earlier ident g" "sf_applied g = sf_applied h"
    using earlier_steps [OF _ e, of bad g] applied_kept [of bad h g] ApplySchemaPatches_steps [of bad h] p
    by (simp_all add: ApplySchemaPatches_def)
  ultimately show ?thesis using i by (simp add: earlier_def)
qed

text \<open>
  The columns that the \<open>SELECT\<close>, \<open>INSERT\<close> and \<open>UPDATE\<close> statements of the program name, in \<open>internal/app\<close>,
  \<open>internal/wireguard\<close>, \<open>internal/pcq\<close> and \<open>internal/db\<close>.
\<close>

definition needed_columns :: "(string \<times> string list) list" where
  "needed_columns =
     [(''schema_migrations'', [''id'']),
      (''system_config'', [''id'', ''is_setup_complete'', ''vpn_configuration'', ''created_at'', ''updated_at'']),
      (''users'', [''id'', ''username'', ''password'', ''role'']),
      (''vpn_servers'',
         [''id'', ''name'', ''protocol'', ''host'', ''port'', ''config_path'', ''is_active'', ''private_key'',
         ''public_key'', ''updated_at'']),
      (''vpn_users'',
         [''id'', ''username'', ''allowed_ips'', ''endpoint'', ''last_handshake'', ''private_key'', ''public_key'',
         ''preshared_key'', ''bytes_received'', ''bytes_sent'', ''prev_bytes_received'', ''prev_bytes_sent'',
         ''bytes_received_rate'', ''bytes_sent_rate'', ''total_bytes_received'', ''total_bytes_sent'', ''remaining_days'',
         ''remaining_traffic_bytes'', ''last_day_check'', ''connected_at'', ''is_connected'', ''is_enabled'', ''server_id'',
         ''peer_icon'', ''updated_at'']),
      (''bandwidth_snapshots'', [''id'', ''timestamp'', ''download_rate'', ''upload_rate'']),
      (''vpn_groups'', [''id'', ''name'', ''description'', ''updated_at'']),
      (''vpn_group_members'', [''group_id'', ''vpn_user_id'']),
      (''vpn_group_pcq'',
         [''group_id'', ''download_limit_kbps'', ''upload_limit_kbps'', ''burst_download_kbps'', ''burst_upload_kbps'',
         ''pcq_classifier'', ''is_disabled'', ''updated_at'']),
      (''dns_settings'',
         [''id'', ''enabled'', ''client_dns_host'', ''listen_host'', ''listen_addr'', ''listen_port'', ''core_dns_bin'',
         ''forward_upstreams'', ''block_ads_enabled'', ''blocklist_urls'', ''block_address'', ''cache_ttl'',
         ''query_log_enabled'', ''updated_at'']),
      (''dns_records'', [''id'', ''name'', ''record_type'', ''value'', ''ttl'', ''enabled'']),
      (''dns_domain_rules'', [''id'', ''domain'', ''rule_type'', ''enabled''])]"

lemma needed_declared:
  "list_all (\<lambda>(t, cs). let ds = map fst (declared_of t) in list_all (\<lambda>c. c \<in> set ds) cs) needed_columns"
  by code_simp

lemma complete_needed:
  assumes "complete f" and "(t, cs) \<in> set needed_columns" and "c \<in> set cs"
  shows "has_column f t c"
proof -
  have "c \<in> fst ` set (declared_of t)" using needed_declared assms(2,3) by (fastforce simp: list_all_iff Let_def)
  then obtain k where "(t, c, k) \<in> set declared" by (auto simp: declared_of_def)
  then have "has_typed f t c k" using assms(1) by (auto simp: complete_def)
  then show ?thesis by (force simp: has_typed_def has_column_def split: option.splits)
qed

text \<open>
  C6. The schema is complete after a start, whatever tables of the program the file holds, as long as each has the columns it
  was introduced with: a start without failures succeeds; after a start that reports no error, and in which no
  \<open>ALTER TABLE\<close> failed for another reason than its column, every column that the SQL statements of the program name is there,
  every column its schema statements declare has the declared type, nullability and default, and the next start changes nothing.
\<close>

theorem schema_complete:
  assumes "earlier ident f"
  shows "(\<exists>g. prepare (\<lambda>_. None) no_faults ident f = (g, None))
    \<and> (\<forall>bad mf g. prepare bad mf ident f = (g, None) \<and> no_lost_alter bad \<longrightarrow>
         (\<forall>(t, cs) \<in> set needed_columns. \<forall>c \<in> set cs. has_column g t c)
       \<and> (\<forall>(t, c, k) \<in> set declared. has_typed g t c k)
       \<and> prepare (\<lambda>_. None) no_faults ident g = (g, None))"
proof (intro conjI allI impI)
  show "\<exists>g. prepare (\<lambda>_. None) no_faults ident f = (g, None)" by (rule prepare_succeeds [OF assms]) simp
next
  fix bad mf g
  assume run: "prepare bad mf ident f = (g, None) \<and> no_lost_alter bad"
  then have i: "ident \<in> set (sf_applied g)" and t: "typed g" and s: "\<forall>s \<in> set known. settled g s"
    using prepare_settles [OF assms] by blast+
  from settled_complete [OF t s] show "\<forall>(t, c, k) \<in> set declared. has_typed g t c k" by (simp add: complete_def)
  show "\<forall>(t, cs) \<in> set needed_columns. \<forall>c \<in> set cs. has_column g t c"
    using complete_needed [OF settled_complete [OF t s]] by blast
  have "CreateTable ''schema_migrations'' schema_migrations_table \<in> set known" by (simp add: known_def schemaSQL_def)
  then have "table_of g ''schema_migrations'' \<noteq> None" using s by (force simp: settled_def)
  then have "Migrate (\<lambda>_. None) no_faults ident g = (g, None)" using i by (simp add: Migrate_def)
  moreover have "\<forall>s \<in> set (concat (map fst patches)). \<forall>t c k. s \<noteq> AddColumn t c k"
    using required_no_alter by (auto simp: required_def)
  then have "run_patches (\<lambda>_. None) patches g = (g, None)"
    using run_patches_noop [of patches g "\<lambda>_. None"] s patches_known by blast
  ultimately show "prepare (\<lambda>_. None) no_faults ident g = (g, None)" by (simp add: prepare_def ApplySchemaPatches_def)
qed

text \<open>A file of an old release: the resolver's first columns, a table that is dropped today, no queue can be switched off.\<close>

definition ex_old :: catalogue where
  "ex_old = \<lparr>sf_tables =
     [(''dns_settings'', dns_settings_table),
      (''vpn_group_firewall_rules'', \<lparr>tb_columns = [key_column ''id''], tb_key = [''id''], tb_unique = [], tb_refs = []\<rparr>),
      (''vpn_group_pcq'', vpn_group_pcq_table\<lparr>tb_columns := filter (\<lambda>(c, _). c \<noteq> ''is_disabled'') (tb_columns vpn_group_pcq_table)\<rparr>)],
     sf_indexes = [(''idx_vpn_group_firewall_rules_group'', ''vpn_group_firewall_rules'', ''id'')], sf_applied = []\<rparr>"

lemma table_fits_less:
  assumes "table_fits t tb" and "set cs \<subseteq> set (tb_columns tb)" and "set (first_columns t) \<subseteq> fst ` set cs"
  shows "table_fits t (tb\<lparr>tb_columns := cs\<rparr>)"
  using assms unfolding table_fits_def agree_def by fastforce

lemma known_tables: "CreateTable t tb \<in> set known \<Longrightarrow> table_fits t tb"
  using known_typed [of "CreateTable t tb"] by (simp add: stmt_fits_def)

lemma old_tables_known:
  "CreateTable ''dns_settings'' dns_settings_table \<in> set known" "CreateTable ''vpn_group_pcq'' vpn_group_pcq_table \<in> set known"
  by (simp_all add: known_def patches_def group_patch_def)

lemma old_names:
  "declared_of ''vpn_group_firewall_rules'' = []" "first_columns ''vpn_group_firewall_rules'' = []"
  by code_simp+

lemma ex_old_earlier: "earlier ''h'' ex_old"
proof -
  have "list_all (index_fits ex_old) known" by code_simp
  then have "fits ex_old" by (simp add: fits_def list_all_iff)
  moreover have "typed ex_old"
    unfolding typed_def ex_old_def catalogue.simps list.set ball_simps prod.case
  proof (intro conjI)
    show "table_fits ''dns_settings'' dns_settings_table" by (rule known_tables [OF old_tables_known(1)])
    show "table_fits ''vpn_group_firewall_rules'' \<lparr>tb_columns = [key_column ''id''], tb_key = [''id''], tb_unique = [], tb_refs = []\<rparr>"
      by (simp add: table_fits_def old_names agree_def)
    show "table_fits ''vpn_group_pcq'' (vpn_group_pcq_table\<lparr>tb_columns := filter (\<lambda>(c, _). c \<noteq> ''is_disabled'') (tb_columns vpn_group_pcq_table)\<rparr>)"
      by (rule table_fits_less [OF known_tables [OF old_tables_known(2)]])
         (simp, simp add: first_columns_def vpn_group_pcq_table_def stamped_def column_defs)
  qed simp
  ultimately show ?thesis by (simp add: earlier_def ex_old_def)
qed

lemma schema_complete_witness:
  "\<exists>g. prepare (\<lambda>_. None) no_faults ''h'' ex_old = (g, None)
    \<and> \<not> has_column ex_old ''dns_settings'' ''listen_port'' \<and> has_column g ''dns_settings'' ''listen_port''
    \<and> \<not> has_column ex_old ''vpn_group_pcq'' ''is_disabled'' \<and> has_column g ''vpn_group_pcq'' ''is_disabled''"
proof -
  obtain g where g: "prepare (\<lambda>_. None) no_faults ''h'' ex_old = (g, None)" using schema_complete [OF ex_old_earlier] by blast
  have "no_lost_alter (\<lambda>_. None)" by (simp add: no_lost_alter_def)
  then have n: "\<forall>(t, cs) \<in> set needed_columns. \<forall>c \<in> set cs. has_column g t c" using schema_complete [OF ex_old_earlier] g by blast
  have "has_column g ''dns_settings'' ''listen_port''" "has_column g ''vpn_group_pcq'' ''is_disabled''"
    using n by (simp_all add: needed_columns_def)
  moreover have "\<not> has_column ex_old ''dns_settings'' ''listen_port''" "\<not> has_column ex_old ''vpn_group_pcq'' ''is_disabled''"
    by code_simp+
  ultimately show ?thesis using g by blast
qed

section \<open>A column that is lost\<close>

lemma added_once:
  assumes "AddColumn t c k \<in> set known"
  shows "s \<in> set known \<Longrightarrow> s \<noteq> DropTable t" "AddColumn t c k' \<in> set known \<Longrightarrow> k' = k"
proof -
  show "s \<noteq> DropTable t" if "s \<in> set known"
    using known_compatible [OF assms that] by (auto simp: compatible_def)
  show "k' = k" if "AddColumn t c k' \<in> set known"
    using known_same assms that by (force simp: list_all_iff agree_def)
qed

text \<open>While its \<open>ALTER TABLE\<close> fails, a missing column stays missing.\<close>

definition missing :: "string \<Rightarrow> string \<Rightarrow> catalogue \<Rightarrow> bool" where
  "missing t c f \<longleftrightarrow> table_of f t \<noteq> None \<and> \<not> has_column f t c"

lemma missing_kept:
  assumes "AddColumn t c k \<in> set known" and "bad (AddColumn t c k) \<noteq> None"
  shows "(catalogue_step bad)\<^sup>*\<^sup>* f g \<Longrightarrow> missing t c f \<Longrightarrow> missing t c g"
proof (induction rule: rtranclp_induct)
  case (step g h)
  then have m: "table_of g t \<noteq> None" "\<not> has_column g t c" by (simp_all add: missing_def)
  obtain s where s: "s \<in> set known" and h: "h = fst (exec_stmt bad s g)" using step.hyps(2) by (auto simp: catalogue_step_def)
  have "s \<noteq> DropTable t" and "\<And>k'. s = AddColumn t c k' \<Longrightarrow> bad s \<noteq> None"
    using added_once [OF assms(1)] s assms(2) by blast+
  then show ?case using m h
    by (cases "bad s"; cases s)
       (auto simp: missing_def exec_stmt_def has_column_def table_of_add_column table_of_filter map_add_def split: option.splits)
qed

text \<open>
  C40. An \<open>ALTER TABLE\<close> that fails for another reason than its column goes unnoticed: the start of the process reports no
  error, and the column is missing for the statements that name it.
\<close>

theorem lost_column_unnoticed:
  assumes "earlier ident f" and "AddColumn t c k \<in> set known" and "table_of f t \<noteq> None" and "\<not> has_column f t c"
    and "\<forall>s. bad s \<noteq> None \<longleftrightarrow> s = AddColumn t c k"
  shows "\<exists>g. prepare bad no_faults ident f = (g, None) \<and> \<not> has_column g t c"
proof -
  have "\<forall>s \<in> set required. bad s = None" using assms(5) required_no_alter by blast
  then obtain g where g: "prepare bad no_faults ident f = (g, None)" using prepare_succeeds [OF assms(1)] by blast
  obtain h where h: "Migrate bad no_faults ident f = (h, None)" and p: "ApplySchemaPatches bad h = (g, None)"
    using g by (auto simp: prepare_def split: prod.splits option.splits)
  have kept: "missing t c x \<Longrightarrow> missing t c y" if "(catalogue_step bad)\<^sup>*\<^sup>* x y" for x y
    using missing_kept [OF assms(2) _ that] assms(5) by blast
  have "missing t c h"
  proof (cases rule: Migrate_cases [of bad no_faults ident f])
    case unchanged
    then show ?thesis using h assms(3,4) by (simp add: missing_def)
  next
    case (applied u)
    have "missing t c u"
      using kept [of f u] exec_all_steps [OF schemaSQL_known, of bad f] applied(1) assms(3,4) by (simp add: missing_def)
    then show ?thesis using h applied(2) by (auto simp: missing_def has_column_def)
  qed
  then have "missing t c g" using kept [of h g] ApplySchemaPatches_steps [of bad h] p by simp
  then show ?thesis using g by (simp add: missing_def)
qed

lemma lost_column_unnoticed_witness:
  "\<exists>g. prepare (\<lambda>s. if s = new_column ''dns_settings'' (int_column 300 ''cache_ttl'') then Some (ErrIO ''disk'') else None) no_faults ''h'' ex_old
        = (g, None) \<and> \<not> has_column g ''dns_settings'' ''cache_ttl''"
proof -
  have "new_column ''dns_settings'' (int_column 300 ''cache_ttl'') \<in> set known"
    by (simp add: known_def patches_def filter_columns_def)
  moreover have "\<not> has_column ex_old ''dns_settings'' ''cache_ttl''" by code_simp
  moreover have "table_of ex_old ''dns_settings'' \<noteq> None" by (simp add: ex_old_def)
  ultimately show ?thesis
    unfolding new_column_def by (intro lost_column_unnoticed [OF ex_old_earlier]) (auto simp: int_column_def)
qed

end
