(* ===== verification/App_Start.thy ===== *)
theory App_Start
  imports App_Program Store_Schema
begin

text \<open>
  The start of the process in full (\<open>cmd/netplug/main.go\<close>): the configuration, the database file brought up to
  date, and the program on its rows.
\<close>

text \<open>The catalogue is kept also when the start fails: what the patches added before the failure stays.\<close>

definition main_start ::
  "(stmt \<Rightarrow> goerr option) \<Rightarrow> migrate_faults \<Rightarrow> string \<Rightarrow> catalogue \<Rightarrow> string option \<Rightarrow> (string \<Rightarrow> string) \<Rightarrow> auth_env
   \<Rightarrow> string \<Rightarrow> 'm dns_app \<Rightarrow> 'm Syncer.exec \<Rightarrow> db \<Rightarrow> 'm world \<Rightarrow> catalogue \<times> 'm dns_sys res" where
  "main_start bad mf ident f cwd getenv au i e lrun d wd =
     (case LoadConfig cwd getenv of
        Inl err \<Rightarrow> (f, Inl err)
      | Inr _ \<Rightarrow>
          (case prepare bad mf ident f of
             (g, Some err) \<Rightarrow> (g, Inl err)
           | (g, None) \<Rightarrow> (g, boot cwd getenv au i e lrun d wd)))"

text \<open>
  A start that fails can be repeated: the file is still one a release may have left. A start that succeeds serves a database
  that has every declared column, keeps every constraint of its rows and holds at most the one resolver process.
\<close>

theorem start_repeats_or_serves:
  assumes "earlier ident f" and "db_ok d" and "main_start bad mf ident f cwd getenv au i e lrun d wd = (g, res)"
  shows "earlier ident g"
    and "res = Inr s \<Longrightarrow> no_lost_alter bad \<Longrightarrow> complete g"
    and "res = Inr s \<Longrightarrow> program_step\<^sup>*\<^sup>* s t \<Longrightarrow> sound t"
proof -
  show "earlier ident g"
    using assms(1,3) earlier_prepare [OF assms(1), of bad mf] by (auto simp: main_start_def split: sum.splits prod.splits option.splits)
  show "complete g" if "res = Inr s" "no_lost_alter bad"
  proof -
    have "prepare bad mf ident f = (g, None)"
      using assms(3) that(1) by (auto simp: main_start_def split: sum.splits prod.splits option.splits)
    from prepare_settles [OF assms(1) this that(2)] show ?thesis using settled_complete by blast
  qed
  show "sound t" if "res = Inr s" "program_step\<^sup>*\<^sup>* s t"
  proof -
    have "boot cwd getenv au i e lrun d wd = Inr s"
      using assms(3) that(1) by (auto simp: main_start_def split: sum.splits prod.splits option.splits)
    from program.steps_keep [OF that(2) boot_sound [OF this assms(2)]] show ?thesis .
  qed
qed

end
