(* ===== verification/App_Routes.thy ===== *)
theory App_Routes
  imports App_Setup
begin

text \<open>
  Which request reaches which handler (\<open>internal/app/routes.go\<close> and the routes of \<open>cmd/netplug/main.go\<close>), and what a
  client without a session can do. The router is a third party's: which of the registered routes it chooses is a parameter.
\<close>

section \<open>Routes\<close>

text \<open>A handler is a method of \<open>Handlers\<close>, one of the small functions registered in place, or a server of embedded files.\<close>

datatype handler = Method string | Goto nat string | GotoQueue | Health | Files string

record route =
  rt_method :: string
  rt_pattern :: string
  rt_handler :: handler
  rt_auth :: bool

text \<open>The files \<open>main\<close> serves before it registers the rest; \<open>Handle\<close> takes every method, written as a star.\<close>

definition file_routes :: "(string \<times> string \<times> handler) list" where
  "file_routes =
     [(''*'', ''/static/*'', Files ''webstatic''),
      (''*'', ''/assets/*'', Files ''assets''),
      (''GET'', ''/plug-icon.png'', Files ''plug-icon'')]"

definition public_routes :: "(string \<times> string \<times> handler) list" where
  "public_routes =
     [(''GET'', ''/'', Goto 302 ''/ui''),
      (''GET'', ''/healthz'', Health),
      (''GET'', ''/login/'', Method ''LoginPage''),
      (''POST'', ''/login/'', Method ''LoginPost''),
      (''GET'', ''/setup/'', Method ''SetupPage''),
      (''POST'', ''/setup/admin'', Method ''SetupAdminPost''),
      (''POST'', ''/setup/login'', Method ''SetupLoginPost''),
      (''POST'', ''/setup/wireguard'', Method ''SetupWireGuardPost''),
      (''POST'', ''/setup/wireguard/import'', Method ''SetupWireGuardImportPost''),
      (''POST'', ''/setup/wireguard/generate-keys'', Method ''SetupGenerateKeysPartial'')]"

definition guarded_routes :: "(string \<times> string \<times> handler) list" where
  "guarded_routes =
     [(''POST'', ''/logout'', Method ''LogoutPost''),
      (''GET'', ''/ui'', Method ''UIPage''),
      (''GET'', ''/ui/users'', Method ''UsersPage''),
      (''GET'', ''/ui/groups'', Method ''GroupsPage''),
      (''POST'', ''/ui/groups'', Method ''GroupCreatePost''),
      (''GET'', ''/ui/queues'', Method ''PCQOverviewPage''),
      (''GET'', ''/ui/queues/{id}'', Method ''GroupPCQPage''),
      (''POST'', ''/ui/queues/{id}'', Method ''GroupPCQSavePost''),
      (''POST'', ''/ui/queues/{id}/toggle'', Method ''GroupPCQTogglePost''),
      (''GET'', ''/ui/groups/{id}/queues'', GotoQueue),
      (''POST'', ''/ui/groups/{id}/queues'', Method ''GroupPCQSavePost''),
      (''GET'', ''/ui/pcq'', Goto 301 ''/ui/queues''),
      (''GET'', ''/ui/groups/{id}/pcq'', GotoQueue),
      (''POST'', ''/ui/groups/{id}/pcq'', Method ''GroupPCQSavePost''),
      (''GET'', ''/ui/groups/{id}'', Method ''GroupDetailPage''),
      (''POST'', ''/ui/groups/{id}/delete'', Method ''GroupDeletePost''),
      (''POST'', ''/ui/groups/{id}/members/bulk'', Method ''GroupMemberBulkAddPost''),
      (''POST'', ''/ui/groups/{id}/members'', Method ''GroupMemberAddPost''),
      (''POST'', ''/ui/groups/{id}/members/{user_id}/remove'', Method ''GroupMemberRemovePost''),
      (''POST'', ''/ui/users'', Method ''UserCreatePost''),
      (''POST'', ''/ui/users/{id}/edit'', Method ''UserUpdatePost''),
      (''POST'', ''/ui/users/{id}/delete'', Method ''UserDeletePost''),
      (''POST'', ''/ui/users/{id}/toggle'', Method ''UserTogglePost''),
      (''GET'', ''/ui/users/{id}/config'', Method ''UserConfigGet''),
      (''GET'', ''/ui/connections'', Method ''ConnectionsPage''),
      (''GET'', ''/ui/servers'', Method ''ServersPage''),
      (''GET'', ''/ui/wireguard'', Method ''WireGuardPage''),
      (''GET'', ''/ui/backup'', Method ''BackupPage''),
      (''GET'', ''/ui/dns'', Method ''DNSPage''),
      (''GET'', ''/ui/dns/save'', Goto 302 ''/ui/dns''),
      (''GET'', ''/ui/dns/reload'', Goto 302 ''/ui/dns''),
      (''GET'', ''/ui/dns/records/add'', Goto 302 ''/ui/dns''),
      (''GET'', ''/ui/dns/records/{id}/delete'', Goto 302 ''/ui/dns''),
      (''GET'', ''/ui/dns/rules/add'', Goto 302 ''/ui/dns''),
      (''GET'', ''/ui/dns/rules/{id}/delete'', Goto 302 ''/ui/dns''),
      (''POST'', ''/ui/dns/save'', Method ''DNSSavePost''),
      (''POST'', ''/ui/dns/reload'', Method ''DNSReloadPost''),
      (''POST'', ''/ui/dns/records/add'', Method ''DNSRecordAddPost''),
      (''POST'', ''/ui/dns/records/{id}/delete'', Method ''DNSRecordDeletePost''),
      (''POST'', ''/ui/dns/rules/add'', Method ''DNSDomainRuleAddPost''),
      (''POST'', ''/ui/dns/rules/{id}/delete'', Method ''DNSDomainRuleDeletePost''),
      (''POST'', ''/ui/wireguard/save'', Method ''WireGuardSavePost''),
      (''POST'', ''/ui/wireguard/reload'', Method ''WireGuardReloadPost''),
      (''POST'', ''/ui/wireguard/restart'', Method ''WireGuardRestartPost''),
      (''POST'', ''/ui/backup/export'', Method ''WireGuardBackupPost''),
      (''POST'', ''/ui/backup/restore'', Method ''WireGuardRestorePost''),
      (''GET'', ''/ui/settings'', Method ''SettingsPage''),
      (''GET'', ''/partials/ui/stats'', Method ''UIStatsPartial''),
      (''GET'', ''/partials/ui/active-connections'', Method ''ActiveConnectionsPartial''),
      (''GET'', ''/partials/overview/all'', Method ''OverviewAllPartial''),
      (''GET'', ''/partials/overview/connections'', Method ''OverviewConnectionsPartial''),
      (''GET'', ''/partials/overview/server'', Method ''OverviewServerPartial''),
      (''GET'', ''/partials/overview/transfer'', Method ''OverviewTransferPartial''),
      (''GET'', ''/partials/overview/live'', Method ''OverviewLivePartial''),
      (''GET'', ''/partials/users/add-modal'', Method ''AddUserModalPartial''),
      (''GET'', ''/partials/groups/add-modal'', Method ''GroupAddModalPartial''),
      (''GET'', ''/partials/groups/{id}/delete-modal'', Method ''GroupDeleteModalPartial''),
      (''GET'', ''/partials/groups/{id}/add-members-modal'', Method ''GroupAddMembersModalPartial''),
      (''GET'', ''/partials/groups/{id}/members/{user_id}/remove-modal'', Method ''GroupMemberRemoveModalPartial''),
      (''GET'', ''/partials/users/{id}/edit-modal'', Method ''EditUserModalPartial''),
      (''GET'', ''/partials/users/{id}/qr-modal'', Method ''UserQRModalPartial''),
      (''GET'', ''/partials/users/{id}/delete-modal'', Method ''UserDeleteModalPartial''),
      (''GET'', ''/partials/empty'', Method ''EmptyPartial''),
      (''GET'', ''/api/bandwidth/history'', Method ''BandwidthHistoryAPI''),
      (''GET'', ''/api/wireguard'', Method ''WireGuardAPIGet''),
      (''PUT'', ''/api/wireguard'', Method ''WireGuardAPIPut''),
      (''POST'', ''/api/users/generate-keys'', Method ''UsersGenerateKeysAPI''),
      (''POST'', ''/api/users/derive-public-key'', Method ''UsersDerivePublicKeyAPI''),
      (''POST'', ''/api/users/generate-psk'', Method ''UsersGeneratePSKAPI''),
      (''GET'', ''/api/users/next-ip'', Method ''UsersNextIPAPI''),
      (''GET'', ''/api/users/{id}/config'', Method ''UserConfigAPIGet'')]"

definition RegisterRoutes :: "route list" where
  "RegisterRoutes =
     map (\<lambda>(m, p, h). \<lparr>rt_method = m, rt_pattern = p, rt_handler = h, rt_auth = False\<rparr>) public_routes
     @ map (\<lambda>(m, p, h). \<lparr>rt_method = m, rt_pattern = p, rt_handler = h, rt_auth = True\<rparr>) guarded_routes"

definition main_routes :: "route list" where
  "main_routes =
     map (\<lambda>(m, p, h). \<lparr>rt_method = m, rt_pattern = p, rt_handler = h, rt_auth = False\<rparr>) file_routes @ RegisterRoutes"

definition in_place :: "handler \<Rightarrow> request \<Rightarrow> response option" where
  "in_place h r =
     (case h of
        Method _ \<Rightarrow> None
      | Files _ \<Rightarrow> None
      | Goto code path \<Rightarrow> Some ((redirect path)\<lparr>rs_code := code\<rparr>)
      | GotoQueue \<Rightarrow>
          Some (if trim (rq_id r) = [] then notFound else (redirect (''/ui/queues/'' @ trim (rq_id r)))\<lparr>rs_code := 301\<rparr>)
      | Health \<Rightarrow> Some \<lparr>rs_code = 200, rs_location = [], rs_toast = None, rs_body = ''ok''\<rparr>)"

text \<open>The route a request is let through to, or the answer it gets before.\<close>

definition admitted :: "(string \<Rightarrow> string \<Rightarrow> route option) \<Rightarrow> string \<Rightarrow> string \<Rightarrow> string \<Rightarrow> 'm site \<Rightarrow> response + route" where
  "admitted route_of tok m path s =
     (case route_of m path of
        None \<Rightarrow> Inl notFound
      | Some rt \<Rightarrow>
          if rt_auth rt then (case RequireAuth path tok s of Some rs \<Rightarrow> Inl rs | None \<Rightarrow> Inr rt) else Inr rt)"

text \<open>What the router promises: it chooses among the registered routes, one that takes the method of the request.\<close>

definition registered :: "(string \<Rightarrow> string \<Rightarrow> route option) \<Rightarrow> bool" where
  "registered route_of \<longleftrightarrow> (\<forall>m path rt. route_of m path = Some rt \<longrightarrow> rt \<in> set main_routes \<and> rt_method rt \<in> {m, ''*''})"

section \<open>Without a session\<close>

record 'm web_env =
  we_auth :: auth_env
  we_app :: "'m app_env"
  we_id :: string
  we_files :: "string \<Rightarrow> upload"
  we_wfail :: "string \<Rightarrow> bool"

text \<open>
  The state after a handler in front of \<open>RequireAuth\<close>; its pages, the files, the redirections and the key generator change
  none. \<open>SetupAdminPost\<close> counts the users in one state, hashes the password, and inserts in another: \<open>s0\<close> is the
  state in which it counts, \<open>s\<close> the state that other requests have left when a handler writes.
\<close>

definition public_effect :: "'m web_env \<Rightarrow> string \<Rightarrow> request \<Rightarrow> handler \<Rightarrow> 'm site \<Rightarrow> 'm site \<Rightarrow> 'm site" where
  "public_effect w tok r h s0 s =
     (if h = Method ''LoginPost'' then fst (LoginPost (we_auth w) tok r s)
      else if h = Method ''SetupAdminPost''
        then (case admin_begin (we_auth w) r s0 of Inl _ \<Rightarrow> s | Inr p \<Rightarrow> fst (admin_finish tok (we_id w) p s))
      else if h = Method ''SetupLoginPost'' then fst (SetupLoginPost (we_auth w) tok r s)
      else if h = Method ''SetupWireGuardPost'' then fst (SetupWireGuardPost (we_app w) tok r s)
      else if h = Method ''SetupWireGuardImportPost''
        then fst (SetupWireGuardImportPost (we_app w) tok r (we_files w) (we_wfail w) s)
      else s)"

definition public_handlers :: "handler list" where
  "public_handlers = map (snd \<circ> snd) (file_routes @ public_routes)"

lemma admitted_anonymous:
  assumes "registered route_of" and "si_sessions s tok = []" and "admitted route_of tok m path s = Inr rt"
  shows "rt_handler rt \<in> set public_handlers"
proof -
  have "RequireAuth path tok s \<noteq> None" using assms(2) by (simp add: RequireAuth_def)
  then have "route_of m path = Some rt" "\<not> rt_auth rt" using assms(3) by (auto simp: admitted_def split: option.splits if_splits)
  then have "rt \<in> set main_routes" "\<not> rt_auth rt" using assms(1) by (auto simp: registered_def)
  then show ?thesis by (force simp: main_routes_def RegisterRoutes_def public_handlers_def)
qed

text \<open>
  What such a request may do: nothing but to its own session once set-up is complete or an administrator is there when it
  counts, and otherwise add one administrator.
\<close>

definition harmless :: "string \<Rightarrow> 'm site \<Rightarrow> 'm site \<Rightarrow> 'm site \<Rightarrow> bool" where
  "harmless tok s0 s t \<longleftrightarrow>
     (isSetupComplete s0 \<or> admins (site_db s0) \<noteq> [] \<longrightarrow> si_app t = si_app s)
   \<and> ap_world (si_app t) = ap_world (si_app s)
   \<and> (\<exists>new. length new \<le> 1 \<and> site_db t = (site_db s)\<lparr>admins := admins (site_db s) @ new\<rparr>)
   \<and> (\<forall>tok'. tok' \<noteq> tok \<longrightarrow> si_sessions t tok' = si_sessions s tok')"

lemma harmless_same: "si_app t = si_app s \<Longrightarrow> \<forall>tok'. tok' \<noteq> tok \<longrightarrow> si_sessions t tok' = si_sessions s tok' \<Longrightarrow> harmless tok s0 s t"
  by (auto simp: harmless_def intro!: exI [of _ "[]"])

lemma harmless_put: "harmless tok s0 s s" "harmless tok s0 s (put_session tok i s)"
  by (rule harmless_same; simp add: put_session_def)+

lemma harmless_admin:
  assumes "\<not> isSetupComplete s0" and "admins (site_db s0) = []"
  shows "harmless tok s0 s (fst (admin_finish tok i p s))"
proof (cases "insert_admin i (fst p) (snd p) (site_db s)")
  case (Inl e)
  then show ?thesis by (simp add: admin_finish_def harmless_put)
next
  case (Inr d)
  then obtain a where d: "d = (site_db s)\<lparr>admins := admins (site_db s) @ [a]\<rparr>" by (auto simp: insert_admin_def split: if_splits)
  then have "\<exists>new. length new \<le> 1 \<and> d = (site_db s)\<lparr>admins := admins (site_db s) @ new\<rparr>" by (intro exI [of _ "[a]"]) simp
  then show ?thesis using assms Inr by (simp add: harmless_def admin_finish_def put_session_def)
qed

lemma harmless_requests:
  "harmless tok s0 s (fst (LoginPost a tok r s))" "harmless tok s0 s (fst (SetupLoginPost a tok r s))"
  "harmless tok s0 s (case admin_begin a r s0 of Inl _ \<Rightarrow> s | Inr p \<Rightarrow> fst (admin_finish tok i p s))"
proof -
  show "harmless tok s0 s (fst (LoginPost a tok r s))" "harmless tok s0 s (fst (SetupLoginPost a tok r s))"
    by (simp_all add: LoginPost_def SetupLoginPost_def harmless_put split: option.split)
  show "harmless tok s0 s (case admin_begin a r s0 of Inl _ \<Rightarrow> s | Inr p \<Rightarrow> fst (admin_finish tok i p s))"
  proof (cases "admin_begin a r s0")
    case (Inr p)
    then have "\<not> isSetupComplete s0" "admins (site_db s0) = []"
      by (simp_all add: admin_begin_def Let_def split: if_splits option.splits)
    then show ?thesis using Inr harmless_admin by simp
  qed (simp add: harmless_put)
qed

text \<open>
  C9. A client without a session can do little: it reaches only the three routes of embedded files and the ten routes in
  front of \<open>RequireAuth\<close>. None of them changes the machine, a session but its own, or anything in the database but the list
  of administrators, to which \<open>SetupAdminPost\<close> may add one; and that is left out when set-up was complete or an
  administrator was there at the moment it counted them, whatever other requests did between that moment and its insertion.
\<close>

theorem anonymous_requests:
  assumes "registered route_of" and "si_sessions s0 tok = []" and "admitted route_of tok m path s0 = Inr rt"
    and "si_sessions s tok = []" and "t = public_effect w tok r (rt_handler rt) s0 s"
  shows "rt_handler rt \<in> set public_handlers
    \<and> (isSetupComplete s0 \<or> admins (site_db s0) \<noteq> [] \<longrightarrow> si_app t = si_app s)
    \<and> ap_world (si_app t) = ap_world (si_app s)
    \<and> (\<exists>new. length new \<le> 1 \<and> site_db t = (site_db s)\<lparr>admins := admins (site_db s) @ new\<rparr>)
    \<and> (\<forall>tok'. tok' \<noteq> tok \<longrightarrow> si_sessions t tok' = si_sessions s tok')"
proof -
  have "fst (SetupWireGuardPost e tok r s) = s" "fst (SetupWireGuardImportPost e tok r f wf s) = s" for e f wf
    using assms(4) by (simp_all add: SetupWireGuardPost_def SetupWireGuardImportPost_def)
  then have "harmless tok s0 s t"
    unfolding assms(5) public_effect_def by (simp add: harmless_requests harmless_put)
  then show ?thesis using admitted_anonymous [OF assms(1-3)] by (simp add: harmless_def)
qed

definition ex_router :: "string \<Rightarrow> string \<Rightarrow> route option" where
  "ex_router m path = find (\<lambda>rt. rt_method rt = m \<and> rt_pattern rt = path) main_routes"

definition ex_web_env :: "argv list web_env" where
  "ex_web_env = \<lparr>we_auth = \<lparr>au_hash = (\<lambda>_. None), au_match = (\<lambda>_ _. True)\<rparr>, we_app = ex_app_env, we_id = ''a1'',
     we_files = (\<lambda>_. NoFile), we_wfail = (\<lambda>_. False)\<rparr>"

lemma anonymous_requests_witness:
  "(let s = \<lparr>si_app = ex_app, si_sessions = (\<lambda>_. [])\<rparr> in
    \<exists>rt. admitted ex_router ''t'' ''POST'' ''/setup/wireguard'' s = Inr rt
      \<and> rt_handler rt = Method ''SetupWireGuardPost''
      \<and> ap_world (si_app (public_effect ex_web_env ''t'' ex_request (rt_handler rt) s s)) = ap_world ex_app)"
proof -
  let ?s = "\<lparr>si_app = ex_app, si_sessions = (\<lambda>_. [])\<rparr>"
  let ?rt = "\<lparr>rt_method = ''POST'', rt_pattern = ''/setup/wireguard'', rt_handler = Method ''SetupWireGuardPost'', rt_auth = False\<rparr>"
  have reg: "registered ex_router" unfolding registered_def ex_router_def by (blast dest: find_eq_Some_in)
  have rt: "admitted ex_router ''t'' ''POST'' ''/setup/wireguard'' ?s = Inr ?rt"
    by (simp add: admitted_def ex_router_def main_routes_def file_routes_def RegisterRoutes_def public_routes_def)
  have "ap_world (si_app (public_effect ex_web_env ''t'' ex_request (rt_handler ?rt) ?s ?s)) = ap_world (si_app ?s)"
    using anonymous_requests [OF reg _ rt _ refl, of ?s ex_web_env ex_request] by simp
  then show ?thesis using rt by simp
qed

end
