(* ===== verification/Bandwidth.thy ===== *)
theory Bandwidth
  imports Go_Time Store
begin

text \<open>
  The history of the traffic (\<open>internal/app/handlers.go\<close>): what the synchronisation stored every
  interval is read back, added up into volumes and averaged over quarters of an hour. An instant
  counts nanoseconds since 1970; the seconds of a duration are exact.
\<close>

section \<open>Sums that wrap\<close>

lemma i64_add [simp]: "i64 (i64 a + b) = i64 (a + b)" "i64 (a + i64 b) = i64 (a + b)"
proof -
  show left: "i64 (i64 a + b) = i64 (a + b)" for a b
  proof -
    have "(i64 a + b + 2 ^ 63) mod 2 ^ 64 = ((a + 2 ^ 63) mod 2 ^ 64 + b) mod 2 ^ 64" by (simp add: i64_def)
    also have "\<dots> = (a + b + 2 ^ 63) mod 2 ^ 64" by (simp only: mod_add_left_eq) (simp add: ac_simps)
    finally show ?thesis by (simp only: i64_def)
  qed
  show "i64 (a + i64 b) = i64 (a + b)" using left [of b a] by (simp add: add.commute)
qed

lemma i64_idem [simp]: "i64 (i64 a) = i64 a"
  using i64_add(1) [of a 0] by simp

lemma i64_0 [simp]: "i64 0 = 0"
  by (simp add: i64_def)

text \<open>A running sum that wraps at every step is the sum, wrapped once.\<close>

lemma foldl_i64: "i64 s = s \<Longrightarrow> foldl (\<lambda>s x. i64 (s + i64 (f x))) s xs = i64 (s + sum_list (map f xs))"
proof (induction xs arbitrary: s)
  case (Cons x xs)
  have "i64 (i64 (s + i64 (f x))) = i64 (s + i64 (f x))" by simp
  from Cons.IH [OF this] show ?case by (simp add: add.assoc)
qed simp

section \<open>Snapshots\<close>

record bwSnap =
  sn_t :: int
  sn_d :: int
  sn_u :: int

abbreviation nanos :: int where "nanos \<equiv> 1000000000"

text \<open>
  \<open>time.Parse\<close> with the layout \<open>2006-01-02 15:04:05\<close>, in UTC; Go accepts a fraction of the last
  second whatever the layout.
\<close>

definition parse_sql :: "string \<Rightarrow> int option" where
  "parse_sql s =
     Option.bind (parse_date s) (\<lambda>((y, m, d), s).
     Option.bind (expect (CHR '' '') s) (\<lambda>s.
     Option.bind (parse_clock s) (\<lambda>(sec, s).
       (let (ns, s) = get_fraction s in
        if s = [] then Some (((int (days_of_civil y m d) - 719528) * 86400 + int sec) * nanos + int ns) else None))))"

definition parseBandwidthTimestamp :: "string \<Rightarrow> int option" where
  "parseBandwidthTimestamp ts =
     (case parse_rfc3339 ts of Some t \<Rightarrow> Some t | None \<Rightarrow> parse_sql ts)"

definition snap_of :: "bw_snapshot \<Rightarrow> bwSnap option" where
  "snap_of r = map_option (\<lambda>t. \<lparr>sn_t = t, sn_d = bs_download r, sn_u = bs_upload r\<rparr>)
     (parseBandwidthTimestamp (bs_timestamp r))"

text \<open>Rows of the same second come in the order they were stored.\<close>

definition loadBandwidthSnapshots :: "db \<Rightarrow> int \<Rightarrow> bwSnap list" where
  "loadBandwidthSnapshots d since =
     List.map_filter snap_of
       (sort_key bs_timestamp (filter (\<lambda>r. format_sql (since div nanos) \<le> bs_timestamp r) (snapshots d)))"

section \<open>Volumes\<close>

text \<open>\<open>Sub\<close> gives the extreme duration when the difference does not fit.\<close>

definition time_sub :: "int \<Rightarrow> int \<Rightarrow> int" where
  "time_sub b a = min (2 ^ 63 - 1) (max (- (2 ^ 63)) (b - a))"

text \<open>The seconds for which the rate of a snapshot counts, None when the next one is not later.\<close>

definition gap_seconds :: "int \<Rightarrow> bwSnap \<times> bwSnap \<Rightarrow> int option" where
  "gap_seconds maxGap = (\<lambda>(a, b).
     (let dt = time_sub (sn_t b) (sn_t a) in
      if dt \<le> 0 then None
      else Some ((if 0 < maxGap \<and> maxGap < dt then maxGap else dt) div nanos)))"

definition consecutive :: "'a list \<Rightarrow> ('a \<times> 'a) list" where
  "consecutive xs = zip xs (tl xs)"

definition add_gap :: "int \<Rightarrow> int \<times> int \<Rightarrow> bwSnap \<times> bwSnap \<Rightarrow> int \<times> int" where
  "add_gap maxGap = (\<lambda>(download, upload) p.
     (case gap_seconds maxGap p of
        None \<Rightarrow> (download, upload)
      | Some sec \<Rightarrow> (i64 (download + i64 (sn_d (fst p) * sec)), i64 (upload + i64 (sn_u (fst p) * sec)))))"

definition integrateBandwidthBytes :: "bwSnap list \<Rightarrow> int \<Rightarrow> int \<times> int" where
  "integrateBandwidthBytes snaps maxGap = foldl (add_gap maxGap) (0, 0) (consecutive snaps)"

section \<open>Quarters of an hour\<close>

text \<open>
  A place on earth: its distance from UTC in seconds at an instant, and the instant of a midnight.
  \<open>Truncate\<close> counts from the first day of year 1.
\<close>

record location =
  lo_offset :: "int \<Rightarrow> int"
  lo_midnight :: "nat \<Rightarrow> nat \<Rightarrow> nat \<Rightarrow> int"

definition truncate_time :: "int \<Rightarrow> int \<Rightarrow> int" where
  "truncate_time bucket t = t - (t + 62135596800 * nanos) mod bucket"

definition bucket_key :: "int \<Rightarrow> bwSnap \<Rightarrow> int" where
  "bucket_key bucket s = truncate_time bucket (sn_t s) div nanos"

definition offset_text :: "int \<Rightarrow> string" where
  "offset_text off =
     (if off = 0 then ''Z''
      else (let m = nat (\<bar>off\<bar> div 60) in
        (if off \<le> - 60 then ''-'' else ''+'') @ pad2 (m div 60) @ '':'' @ pad2 (m mod 60)))"

definition format_in :: "location \<Rightarrow> int \<Rightarrow> string" where
  "format_in loc sec =
     (let off = lo_offset loc (sec * nanos) in
      butlast (format_rfc3339 (sec + off)) @ offset_text off)"

definition format_hm :: "location \<Rightarrow> int \<Rightarrow> string" where
  "format_hm loc sec =
     (let (_, _, _, s) = civil_of_unix (sec + lo_offset loc (sec * nanos)) in
      pad2 (s div 3600) @ '':'' @ pad2 (s div 60 mod 60))"

record bw_acc =
  ac_d :: int
  ac_u :: int
  ac_n :: int

record bw_point =
  pt_timestamp :: string
  pt_label :: string
  pt_download :: int
  pt_upload :: int

text \<open>The map of the buckets, and the keys in the order they appeared.\<close>

definition add_to_bucket :: "int \<Rightarrow> (int \<Rightarrow> bw_acc option) \<times> int list \<Rightarrow> bwSnap \<Rightarrow> (int \<Rightarrow> bw_acc option) \<times> int list" where
  "add_to_bucket bucket = (\<lambda>(buckets, order) s.
     (let key = bucket_key bucket s;
          (a, order') = (case buckets key of
             None \<Rightarrow> (\<lparr>ac_d = 0, ac_u = 0, ac_n = 0\<rparr>, order @ [key])
           | Some a \<Rightarrow> (a, order)) in
      (buckets(key \<mapsto> \<lparr>ac_d = i64 (ac_d a + sn_d s), ac_u = i64 (ac_u a + sn_u s), ac_n = ac_n a + 1\<rparr>), order')))"

definition bucket_point :: "location \<Rightarrow> int \<Rightarrow> bw_acc \<Rightarrow> bw_point" where
  "bucket_point loc key a =
     \<lparr>pt_timestamp = format_in loc key, pt_label = format_hm loc key,
      pt_download = go_div (ac_d a) (ac_n a), pt_upload = go_div (ac_u a) (ac_n a)\<rparr>"

definition bucketBandwidthRates :: "bwSnap list \<Rightarrow> int \<Rightarrow> location \<Rightarrow> bw_point list" where
  "bucketBandwidthRates snaps bucket loc =
     (if snaps = [] \<or> bucket \<le> 0 then []
      else (let (buckets, order) = foldl (add_to_bucket bucket) (Map.empty, []) snaps in
        List.map_filter (\<lambda>key.
            (case buckets key of
               None \<Rightarrow> None
             | Some a \<Rightarrow> if ac_n a = 0 then None else Some (bucket_point loc key a)))
          (sort order)))"

definition peakFromBucketed :: "bw_point list \<Rightarrow> int \<times> int" where
  "peakFromBucketed ps =
     foldl (\<lambda>(d, u) p. (if d < pt_download p then pt_download p else d, if u < pt_upload p then pt_upload p else u)) (0, 0) ps"

section \<open>The answer\<close>

record bw_day =
  dp_day :: nat
  dp_label :: string
  dp_timestamp :: string
  dp_download :: int
  dp_upload :: int
  dp_combined :: int
  dp_today :: bool

record bw_summary =
  sm_download :: int
  sm_upload :: int
  sm_combined :: int
  sm_peak_rate :: "int \<times> int"
  sm_peak_day :: "int \<times> int"
  sm_count :: nat
  sm_has_data :: bool

definition max_gap :: "int \<Rightarrow> int" where
  "max_gap interval = (let g = i64 (i64 (2 * interval) * nanos) in if g \<le> 0 then 60 * nanos else g)"

text \<open>Year, month and day at a place.\<close>

definition date_in :: "location \<Rightarrow> int \<Rightarrow> nat \<times> nat \<times> nat" where
  "date_in loc t = (let (y, m, d, _) = civil_of_unix (t div nanos + lo_offset loc t) in (y, m, d))"

definition day_in :: "location \<Rightarrow> int \<Rightarrow> nat" where
  "day_in loc t = snd (snd (date_in loc t))"

definition add_day :: "location \<Rightarrow> int \<Rightarrow> (nat \<Rightarrow> int) \<times> (nat \<Rightarrow> int) \<Rightarrow> bwSnap \<times> bwSnap \<Rightarrow> (nat \<Rightarrow> int) \<times> (nat \<Rightarrow> int)" where
  "add_day loc maxGap = (\<lambda>(byD, byU) p.
     (case gap_seconds maxGap p of
        None \<Rightarrow> (byD, byU)
      | Some sec \<Rightarrow> (let day = day_in loc (sn_t (fst p)) in
          (byD(day := i64 (byD day + i64 (sn_d (fst p) * sec))), byU(day := i64 (byU day + i64 (sn_u (fst p) * sec)))))))"

definition days_of_month :: "location \<Rightarrow> int \<Rightarrow> bwSnap list \<Rightarrow> (nat \<Rightarrow> int) \<times> (nat \<Rightarrow> int)" where
  "days_of_month loc maxGap snaps = foldl (add_day loc maxGap) (\<lambda>_. 0, \<lambda>_. 0) (consecutive snaps)"

definition daily_point :: "location \<Rightarrow> nat \<times> nat \<times> nat \<Rightarrow> (nat \<Rightarrow> int) \<times> (nat \<Rightarrow> int) \<Rightarrow> nat \<Rightarrow> bw_day" where
  "daily_point loc today by day =
     (case today of (y, m, dd) \<Rightarrow>
        \<lparr>dp_day = day, dp_label = nat_str day, dp_timestamp = format_in loc (lo_midnight loc y m day div nanos),
         dp_download = fst by day, dp_upload = snd by day, dp_combined = i64 (fst by day + snd by day), dp_today = (day = dd)\<rparr>)"

definition daily_summary :: "bwSnap list \<Rightarrow> bw_day list \<Rightarrow> bw_summary" where
  "daily_summary snaps ds =
     (let (sd, su, pd, pu) = foldl (\<lambda>(sd, su, pd, pu) p.
            (i64 (sd + dp_download p), i64 (su + dp_upload p),
             if pd < dp_download p then dp_download p else pd, if pu < dp_upload p then dp_upload p else pu)) (0, 0, 0, 0) ds in
      \<lparr>sm_download = sd, sm_upload = su, sm_combined = i64 (sd + su), sm_peak_rate = (0, 0), sm_peak_day = (pd, pu),
       sm_count = length snaps, sm_has_data = (snaps \<noteq> [])\<rparr>)"

definition daily_history :: "location \<Rightarrow> int \<Rightarrow> int \<Rightarrow> bwSnap list \<Rightarrow> bw_day list \<times> bw_summary" where
  "daily_history loc now maxGap snaps =
     (let days = map (daily_point loc (date_in loc now) (days_of_month loc maxGap snaps)) [1 ..< Suc (day_in loc now)] in
      (days, daily_summary snaps days))"

definition hourly_history :: "location \<Rightarrow> int \<Rightarrow> bwSnap list \<Rightarrow> bw_point list \<times> bw_summary" where
  "hourly_history loc maxGap snaps =
     (let (d, u) = integrateBandwidthBytes snaps maxGap;
          ps = bucketBandwidthRates snaps (900 * nanos) loc in
      (ps, \<lparr>sm_download = d, sm_upload = u, sm_combined = i64 (d + u), sm_peak_rate = peakFromBucketed ps, sm_peak_day = (0, 0),
            sm_count = length snaps, sm_has_data = (snaps \<noteq> [])\<rparr>))"

definition hours_param :: "string \<Rightarrow> int" where
  "hours_param v =
     (case atoi (trim v) of None \<Rightarrow> 24 | Some n \<Rightarrow> if 0 < n \<and> n \<le> 24 * 14 then n else 24)"

text \<open>
  The parameters \<open>mode\<close> and \<open>hours\<close> of the request, the configured interval, the clock, and whether the
  query fails. Every mode but the daily one gives the rates.
\<close>

definition BandwidthHistoryAPI ::
  "location \<Rightarrow> int \<Rightarrow> int \<Rightarrow> bool \<Rightarrow> string \<Rightarrow> string \<Rightarrow> db
   \<Rightarrow> (string \<times> (bw_day list + bw_point list) \<times> bw_summary) res" where
  "BandwidthHistoryAPI loc now interval fails mode_param hours d =
     (let mode = (if trim mode_param = [] then ''hourly'' else trim mode_param); maxGap = max_gap interval in
      if fails then Inl (ErrMsg ''query failed'')
      else if mode = ''daily'' then
        (let (y, m, _) = date_in loc now;
             (days, sm) = daily_history loc now maxGap (loadBandwidthSnapshots d (lo_midnight loc y m 1)) in
         Inr (mode, Inl days, sm))
      else
        (let (ps, sm) = hourly_history loc maxGap (loadBandwidthSnapshots d (now - hours_param hours * 3600 * nanos)) in
         Inr (''hourly'', Inr ps, sm)))"

section \<open>The same volume, hour by hour and day by day\<close>

definition gap_volume :: "(bwSnap \<Rightarrow> int) \<Rightarrow> int \<Rightarrow> bwSnap \<times> bwSnap \<Rightarrow> int" where
  "gap_volume rate maxGap p = (case gap_seconds maxGap p of None \<Rightarrow> 0 | Some sec \<Rightarrow> rate (fst p) * sec)"

lemma i64_sum: "i64 (sum_list (map (\<lambda>x. i64 (f x)) xs)) = i64 (sum_list (map f xs))"
proof (induction xs)
  case (Cons x xs)
  have "i64 (f x + sum_list (map (\<lambda>x. i64 (f x)) xs)) = i64 (f x + i64 (sum_list (map (\<lambda>x. i64 (f x)) xs)))" by simp
  then show ?case by (simp add: Cons.IH)
qed simp

lemma add_gap_volumes: "i64 d = d \<Longrightarrow> i64 u = u \<Longrightarrow>
  add_gap g (d, u) p = (i64 (d + i64 (gap_volume sn_d g p)), i64 (u + i64 (gap_volume sn_u g p)))"
  by (simp add: add_gap_def gap_volume_def split: option.split)

lemma integrate_from: "i64 d = d \<Longrightarrow> i64 u = u \<Longrightarrow>
  foldl (add_gap g) (d, u) ps = (i64 (d + sum_list (map (gap_volume sn_d g) ps)), i64 (u + sum_list (map (gap_volume sn_u g) ps)))"
proof (induction ps arbitrary: d u)
  case (Cons p ps)
  have "i64 (i64 (d + i64 (gap_volume sn_d g p))) = i64 (d + i64 (gap_volume sn_d g p))"
    "i64 (i64 (u + i64 (gap_volume sn_u g p))) = i64 (u + i64 (gap_volume sn_u g p))" by simp_all
  from Cons.IH [OF this] show ?case by (simp add: add_gap_volumes [OF Cons.prems] add.assoc)
qed simp

lemma integrate_volumes:
  "integrateBandwidthBytes snaps g = (i64 (sum_list (map (gap_volume sn_d g) (consecutive snaps))),
     i64 (sum_list (map (gap_volume sn_u g) (consecutive snaps))))"
  by (simp add: integrateBandwidthBytes_def integrate_from)

definition on_day :: "location \<Rightarrow> nat \<Rightarrow> bwSnap \<times> bwSnap \<Rightarrow> bool" where
  "on_day loc k p \<longleftrightarrow> day_in loc (sn_t (fst p)) = k"

lemma add_day_volumes:
  assumes "\<And>k. i64 (a k) = a k" and "\<And>k. i64 (b k) = b k"
  shows "add_day loc g (a, b) p =
    (\<lambda>k. i64 (a k + (if on_day loc k p then gap_volume sn_d g p else 0)),
     \<lambda>k. i64 (b k + (if on_day loc k p then gap_volume sn_u g p else 0)))"
  by (cases "gap_seconds g p") (auto simp: add_day_def gap_volume_def on_day_def assms fun_eq_iff Let_def)

lemma days_from:
  assumes "\<And>k. i64 (a k) = a k" and "\<And>k. i64 (b k) = b k"
  shows "foldl (add_day loc g) (a, b) ps =
    (\<lambda>k. i64 (a k + sum_list (map (gap_volume sn_d g) (filter (on_day loc k) ps))),
     \<lambda>k. i64 (b k + sum_list (map (gap_volume sn_u g) (filter (on_day loc k) ps))))"
  using assms
proof (induction ps arbitrary: a b)
  case Nil
  then show ?case by simp
next
  case (Cons p ps)
  show ?case
    by (simp only: foldl_Cons add_day_volumes [OF Cons.prems], subst Cons.IH) (auto simp: fun_eq_iff add.assoc)
qed

lemma daily_sums: "i64 sd = sd \<Longrightarrow> i64 su = su \<Longrightarrow>
  \<exists>pd' pu'. foldl (\<lambda>(sd, su, pd, pu) p. (i64 (sd + dp_download p), i64 (su + dp_upload p), f pd p, h pu p)) (sd, su, pd, pu) ds
     = (i64 (sd + sum_list (map dp_download ds)), i64 (su + sum_list (map dp_upload ds)), pd', pu')"
proof (induction ds arbitrary: sd su pd pu)
  case (Cons p ds)
  have "i64 (i64 (sd + dp_download p)) = i64 (sd + dp_download p)" "i64 (i64 (su + dp_upload p)) = i64 (su + dp_upload p)" by simp_all
  from Cons.IH [OF this, of "f pd p" "h pu p"] show ?case by (simp add: add.assoc)
qed simp

lemma daily_summary_sums:
  "sm_download (daily_summary snaps ds) = i64 (sum_list (map dp_download ds))"
  "sm_upload (daily_summary snaps ds) = i64 (sum_list (map dp_upload ds))"
  using daily_sums [of 0 0 "\<lambda>pd p. if pd < dp_download p then dp_download p else pd" "\<lambda>pu p. if pu < dp_upload p then dp_upload p else pu" 0 0 ds]
  by (auto simp: daily_summary_def)

text \<open>Grouping by a key that stays in a range loses nothing.\<close>

lemma sum_by_key:
  assumes "\<forall>p \<in> set ps. key p \<in> set ks" and "distinct ks"
  shows "(\<Sum>k \<leftarrow> ks. sum_list (map (v :: _ \<Rightarrow> int) (filter (\<lambda>p. key p = k) ps))) = sum_list (map v ps)"
  using assms(1)
proof (induction ps)
  case (Cons p ps)
  have "(\<Sum>k \<leftarrow> ks. sum_list (map v (filter (\<lambda>q. key q = k) (p # ps))))
      = (\<Sum>k \<leftarrow> ks. (if key p = k then v p else 0) + sum_list (map v (filter (\<lambda>q. key q = k) ps)))"
    by (rule arg_cong [of _ _ sum_list], rule map_cong) simp_all
  also have "\<dots> = (\<Sum>k \<leftarrow> ks. if key p = k then v p else 0) + sum_list (map v ps)"
    using Cons by (simp add: sum_list_addf)
  also have "(\<Sum>k \<leftarrow> ks. if key p = k then v p else 0) = v p"
    using Cons.prems assms(2) by (simp add: sum_list_distinct_conv_sum_set)
  finally show ?case by simp
qed simp

lemma consecutive_fst: "p \<in> set (consecutive xs) \<Longrightarrow> fst p \<in> set xs"
  by (cases p) (auto simp: consecutive_def dest: set_zip_leftD)

lemma daily_volume:
  assumes "\<forall>s \<in> set snaps. 1 \<le> day_in loc (sn_t s) \<and> day_in loc (sn_t s) \<le> today"
  shows "i64 (\<Sum>k \<leftarrow> [1 ..< Suc today]. i64 (sum_list (map v (filter (on_day loc k) (consecutive snaps)))))
    = i64 (sum_list (map (v :: _ \<Rightarrow> int) (consecutive snaps)))"
proof -
  have "\<forall>p \<in> set (consecutive snaps). day_in loc (sn_t (fst p)) \<in> set [1 ..< Suc today]"
    using assms by (auto dest!: consecutive_fst)
  from sum_by_key [OF this distinct_upt, of v] show ?thesis by (simp add: i64_sum on_day_def [abs_def] del: upt_Suc)
qed

text \<open>
  C13. The month's volume is the same whether it is read off the bars of the chart, one for each day, or
  integrated over all snapshots, in spite of sums that wrap around: no interval between two snapshots is lost or
  counted twice, when the snapshots lie between the first of the month and today.
\<close>

theorem daily_totals_add_up:
  assumes "\<forall>s \<in> set snaps. 1 \<le> day_in loc (sn_t s) \<and> day_in loc (sn_t s) \<le> day_in loc now"
    and "daily_history loc now g snaps = (days, sm)"
  shows "(sm_download sm, sm_upload sm) = integrateBandwidthBytes snaps g"
proof -
  obtain y m dd where t: "date_in loc now = (y, m, dd)" by (metis prod_cases3)
  have days: "days = map (daily_point loc (y, m, dd) (days_of_month loc g snaps)) [1 ..< Suc (day_in loc now)]"
    and sm: "sm = daily_summary snaps days"
    using assms(2) by (auto simp: daily_history_def Let_def t simp del: upt_Suc)
  show ?thesis
    using daily_volume [OF assms(1), of "gap_volume sn_d g"] daily_volume [OF assms(1), of "gap_volume sn_u g"]
    by (simp add: sm days daily_summary_sums daily_point_def days_of_month_def days_from integrate_volumes comp_def del: upt_Suc)
qed

lemma daily_totals_add_up_witness:
  "(let loc = \<lparr>lo_offset = \<lambda>_. 0, lo_midnight = \<lambda>_ _ _. 0\<rparr>;
        snaps = [\<lparr>sn_t = 0, sn_d = 5, sn_u = 1\<rparr>, \<lparr>sn_t = 30 * nanos, sn_d = 7, sn_u = 2\<rparr>,
          \<lparr>sn_t = 86400 * nanos, sn_d = 1, sn_u = 1\<rparr>];
        sm = snd (daily_history loc (86500 * nanos) (60 * nanos) snaps) in
    (sm_download sm, sm_upload sm) = integrateBandwidthBytes snaps (60 * nanos)
    \<and> integrateBandwidthBytes snaps (60 * nanos) = (570, 150))"
  unfolding Let_def
proof (rule conjI)
  let ?loc = "\<lparr>lo_offset = \<lambda>_. 0, lo_midnight = \<lambda>_ _ _. 0\<rparr>"
  let ?snaps = "[\<lparr>sn_t = 0, sn_d = 5, sn_u = 1\<rparr>, \<lparr>sn_t = 30 * nanos, sn_d = 7, sn_u = 2\<rparr>,
          \<lparr>sn_t = 86400 * nanos, sn_d = 1, sn_u = 1\<rparr>]"
  have "civil_of_days 719528 = (1970, 1, 1)" "civil_of_days 719529 = (1970, 1, 2)"
    by (simp_all add: civil_of_days_def find_year.simps year_start_def month_days_def is_leap_def)
  then have "\<forall>s \<in> set ?snaps. 1 \<le> day_in ?loc (sn_t s) \<and> day_in ?loc (sn_t s) \<le> day_in ?loc (86500 * nanos)"
    by (simp add: day_in_def date_in_def civil_of_unix_def)
  then show "(sm_download (snd (daily_history ?loc (86500 * nanos) (60 * nanos) ?snaps)),
         sm_upload (snd (daily_history ?loc (86500 * nanos) (60 * nanos) ?snaps))) = integrateBandwidthBytes ?snaps (60 * nanos)"
    using daily_totals_add_up [OF _ surjective_pairing] by blast
  show "integrateBandwidthBytes ?snaps (60 * nanos) = (570, 150)"
    by (simp add: integrateBandwidthBytes_def consecutive_def add_gap_def gap_seconds_def time_sub_def i64_def)
qed

section \<open>Averages\<close>

definition bucket_of :: "int \<Rightarrow> bwSnap list \<Rightarrow> int \<Rightarrow> bwSnap list" where
  "bucket_of bucket snaps k = filter (\<lambda>s. bucket_key bucket s = k) snaps"

definition average_point :: "location \<Rightarrow> int \<Rightarrow> bwSnap list \<Rightarrow> bw_point" where
  "average_point loc k ms =
     \<lparr>pt_timestamp = format_in loc k, pt_label = format_hm loc k,
      pt_download = go_div (i64 (sum_list (map sn_d ms))) (int (length ms)),
      pt_upload = go_div (i64 (sum_list (map sn_u ms))) (int (length ms))\<rparr>"

definition acc_of :: "bwSnap list \<Rightarrow> bw_acc option" where
  "acc_of ms = (if ms = [] then None
     else Some \<lparr>ac_d = i64 (sum_list (map sn_d ms)), ac_u = i64 (sum_list (map sn_u ms)), ac_n = int (length ms)\<rparr>)"

lemma add_to_bucket_acc:
  assumes "B = (\<lambda>k. acc_of (bucket_of bucket done_snaps k))" and "set order = bucket_key bucket ` set done_snaps" and "distinct order"
    and "add_to_bucket bucket (B, order) s = (B', order')"
  shows "B' = (\<lambda>k. acc_of (bucket_of bucket (done_snaps @ [s]) k)) \<and> set order' = bucket_key bucket ` set (done_snaps @ [s]) \<and> distinct order'"
proof -
  let ?k = "bucket_key bucket s"
  have n: "bucket_of bucket done_snaps ?k = [] \<longleftrightarrow> ?k \<notin> bucket_key bucket ` set done_snaps"
    by (auto simp: bucket_of_def filter_empty_conv image_iff)
  show ?thesis
  proof (cases "bucket_of bucket done_snaps ?k = []")
    case True
    then have "B ?k = None" by (simp add: assms(1) acc_of_def)
    then have "B' = B(?k \<mapsto> \<lparr>ac_d = i64 (sn_d s), ac_u = i64 (sn_u s), ac_n = 1\<rparr>)" "order' = order @ [?k]"
      using assms(4) by (auto simp: add_to_bucket_def Let_def)
    then show ?thesis using True n assms(1-3) by (auto simp: bucket_of_def acc_of_def fun_eq_iff)
  next
    case False
    then have "B' = B(?k \<mapsto> \<lparr>ac_d = i64 (sum_list (map sn_d (bucket_of bucket done_snaps ?k)) + sn_d s),
          ac_u = i64 (sum_list (map sn_u (bucket_of bucket done_snaps ?k)) + sn_u s),
          ac_n = int (length (bucket_of bucket done_snaps ?k)) + 1\<rparr>)" "order' = order"
      using assms(4) by (auto simp: add_to_bucket_def Let_def assms(1) acc_of_def)
    then show ?thesis using False n assms(1-3) by (auto simp: bucket_of_def acc_of_def fun_eq_iff)
  qed
qed

lemma buckets_acc:
  assumes "B = (\<lambda>k. acc_of (bucket_of bucket done_snaps k))" and "set order = bucket_key bucket ` set done_snaps" and "distinct order"
    and "foldl (add_to_bucket bucket) (B, order) snaps = (B', order')"
  shows "B' = (\<lambda>k. acc_of (bucket_of bucket (done_snaps @ snaps) k)) \<and> set order' = bucket_key bucket ` set (done_snaps @ snaps) \<and> distinct order'"
  using assms
proof (induction snaps arbitrary: B order done_snaps)
  case (Cons s snaps)
  obtain B1 o1 where 1: "add_to_bucket bucket (B, order) s = (B1, o1)" by force
  note step = add_to_bucket_acc [OF Cons.prems(1-3) 1]
  have "foldl (add_to_bucket bucket) (B1, o1) snaps = (B', order')" using Cons.prems(4) 1 by simp
  from Cons.IH [OF step [THEN conjunct1] step [THEN conjunct2, THEN conjunct1] step [THEN conjunct2, THEN conjunct2] this]
  show ?case by simp
qed simp

lemma map_filter_Some: "(\<And>x. x \<in> set xs \<Longrightarrow> f x = Some (g x)) \<Longrightarrow> List.map_filter f xs = map g xs"
  by (induction xs) (auto simp: map_filter_simps)

text \<open>
  C14. The chart of the last hours shows, in the order of time and once for every quarter of an hour that
  has a snapshot, the average of the rates of exactly the snapshots that fall into it. The single pass over a map of
  accumulators computes what grouping and averaging would.
\<close>

theorem buckets_are_averages:
  assumes "0 < bucket"
  shows "bucketBandwidthRates snaps bucket loc =
    map (\<lambda>k. average_point loc k (bucket_of bucket snaps k)) (sorted_list_of_set (bucket_key bucket ` set snaps))"
proof (cases "snaps = []")
  case False
  obtain B order where f: "foldl (add_to_bucket bucket) (Map.empty, []) snaps = (B, order)" by force
  have "(Map.empty :: int \<Rightarrow> bw_acc option) = (\<lambda>k. acc_of (bucket_of bucket [] k))" by (simp add: acc_of_def bucket_of_def)
  from buckets_acc [OF this _ _ f] have B: "B = (\<lambda>k. acc_of (bucket_of bucket snaps k))"
    and o: "set order = bucket_key bucket ` set snaps" "distinct order" by simp_all
  have "sort order = sorted_list_of_set (bucket_key bucket ` set snaps)"
    by (metis o sorted_list_of_set_sort_remdups distinct_remdups_id)
  moreover have "(case B k of None \<Rightarrow> None | Some a \<Rightarrow> if ac_n a = 0 then None else Some (bucket_point loc k a))
      = Some (average_point loc k (bucket_of bucket snaps k))" if "k \<in> set order" for k
  proof -
    have "bucket_of bucket snaps k \<noteq> []" using that o by (auto simp: bucket_of_def filter_empty_conv)
    then show ?thesis by (simp add: B acc_of_def bucket_point_def average_point_def)
  qed
  ultimately show ?thesis using False assms by (simp add: bucketBandwidthRates_def f) (rule map_filter_Some, simp add: o)
qed (simp add: bucketBandwidthRates_def)

lemma buckets_are_averages_witness:
  "map pt_download (bucketBandwidthRates [\<lparr>sn_t = 900 * nanos, sn_d = 8, sn_u = 0\<rparr>, \<lparr>sn_t = 10 * nanos, sn_d = 4, sn_u = 0\<rparr>,
      \<lparr>sn_t = 20 * nanos, sn_d = 7, sn_u = 0\<rparr>] (900 * nanos) \<lparr>lo_offset = \<lambda>_. 0, lo_midnight = \<lambda>_ _ _. 0\<rparr>) = [5, 8]"
proof -
  have k: "bucket_key 900000000000 \<lparr>sn_t = 900000000000, sn_d = 8, sn_u = 0\<rparr> = 900"
    "bucket_key 900000000000 \<lparr>sn_t = 10000000000, sn_d = 4, sn_u = 0\<rparr> = 0"
    "bucket_key 900000000000 \<lparr>sn_t = 20000000000, sn_d = 7, sn_u = 0\<rparr> = 0"
    by (simp_all add: bucket_key_def truncate_time_def)
  show ?thesis
    by (subst buckets_are_averages) (simp_all add: k bucket_of_def average_point_def i64_def go_div_def)
qed

end
