(* ===== verification/App_Pages.thy ===== *)
theory App_Pages
  imports App_Server Bandwidth Go_Float "HOL-Library.Option_ord"
begin

text \<open>
  What the pages and forms show of users, servers and the resolver
  (\<open>internal/app/handlers.go\<close>): the rows that are handed to the templates, and that a form
  which is opened and saved unchanged does to the row it came from. Markup is left out.
\<close>

section \<open>Times in words\<close>

definition plural :: "int \<Rightarrow> string \<Rightarrow> string" where
  "plural n unit = (if n = 1 then ''1 '' @ unit else itoa n @ '' '' @ unit @ ''s'')"

definition humanUptime :: "int \<Rightarrow> string" where
  "humanUptime d =
     (let sec = go_div d nanos; days = go_div sec 86400;
          hours = go_div (sec - 86400 * go_div sec 86400) 3600; mins = go_div (sec - 3600 * go_div sec 3600) 60;
          parts = (if days > 0 then [plural days ''day''] else []) @ (if hours > 0 then [plural hours ''hour''] else [])
            @ (if mins > 0 then [plural mins ''minute''] else []) in
      if parts = [] then ''Less than a minute'' else join '', '' parts)"

definition maxInt :: "int \<Rightarrow> int \<Rightarrow> int" where
  "maxInt a b = (if a > b then a else b)"

definition month_name :: "nat \<Rightarrow> string" where
  "month_name m = [''Jan'', ''Feb'', ''Mar'', ''Apr'', ''May'', ''Jun'', ''Jul'', ''Aug'', ''Sep'', ''Oct'', ''Nov'', ''Dec''] ! (m - 1)"

definition format_date :: "int \<Rightarrow> string" where
  "format_date sec =
     (let (y, m, d, _) = civil_of_unix sec in month_name m @ '' '' @ nat_str d @ '', '' @ pad4 y)"

definition ago :: "int \<Rightarrow> string \<Rightarrow> string" where
  "ago n unit = plural n unit @ '' ago''"

text \<open>The first instant of year 1 is Go's zero time.\<close>

definition formatInstantAgo :: "int \<Rightarrow> int \<Rightarrow> string" where
  "formatInstantAgo now t =
     (if t = - 62135596800 * nanos then []
      else (let sec = max 0 (time_sub now t) div nanos in
        if sec < 1 then ''just now''
        else if sec < 60 then ago sec ''second''
        else if sec < 3600 then ago (sec div 60) ''minute''
        else if sec < 86400 then ago (sec div 3600) ''hour''
        else if sec < 30 * 86400 then ago (sec div 86400) ''day''
        else format_date (t div nanos)))"

definition formatTimeAgoFromRFC3339 :: "int \<Rightarrow> string \<Rightarrow> string" where
  "formatTimeAgoFromRFC3339 now s =
     (if s = [] then [] else case parse_rfc3339 s of None \<Rightarrow> [] | Some t \<Rightarrow> formatInstantAgo now t)"

definition relativeAgoLastHandshake :: "int \<Rightarrow> string option \<Rightarrow> string option \<Rightarrow> string" where
  "relativeAgoLastHandshake now lastHS connectedAt =
     (let a = (case lastHS of None \<Rightarrow> [] | Some s \<Rightarrow> formatTimeAgoFromRFC3339 now (trim s)) in
      if a \<noteq> [] then a
      else case connectedAt of None \<Rightarrow> [] | Some s \<Rightarrow> formatTimeAgoFromRFC3339 now (trim s))"

section \<open>Users\<close>

record user_line =
  ul_id :: string
  ul_username :: string
  ul_ip :: string
  ul_endpoint :: string
  ul_enabled :: bool
  ul_connected :: bool
  ul_rx :: int
  ul_tx :: int
  ul_days :: "int option"
  ul_traffic :: "int option"
  ul_connected_at :: string
  ul_ago :: string
  ul_icon :: string

definition user_line_of :: "int \<Rightarrow> vpn_user \<Rightarrow> user_line" where
  "user_line_of now u =
     \<lparr>ul_id = u_id u, ul_username = u_username u, ul_ip = first_address (u_allowed_ips u),
      ul_endpoint = opt_str (u_endpoint u), ul_enabled = u_is_enabled u, ul_connected = u_is_connected u,
      ul_rx = i64 (u_total_bytes_received u + u_bytes_received u), ul_tx = i64 (u_total_bytes_sent u + u_bytes_sent u),
      ul_days = u_remaining_days u, ul_traffic = u_remaining_traffic u, ul_connected_at = opt_str (u_connected_at u),
      ul_ago = relativeAgoLastHandshake now (u_last_handshake u) (u_connected_at u), ul_icon = opt_str (u_peer_icon u)\<rparr>"

definition UsersPage :: "int \<Rightarrow> db \<Rightarrow> user_line list" where
  "UsersPage now d = map (user_line_of now) (take 500 (sort_key u_username (users d)))"

definition AddUserModalPartial :: "db \<Rightarrow> string" where
  "AddUserModalPartial d = (case NextClientAllowedIP d of Inl _ \<Rightarrow> [] | Inr ip \<Rightarrow> ip)"

record edit_modal =
  em_id :: string
  em_username :: string
  em_private_key :: string
  em_public_key :: string
  em_preshared_key :: string
  em_vpn_ip :: string
  em_allowed_extra :: string
  em_days :: string
  em_traffic_mb :: string
  em_enabled :: bool
  em_imported_no_key :: bool

definition shown_number :: "int \<Rightarrow> int option \<Rightarrow> string" where
  "shown_number unit v = (case v of None \<Rightarrow> [] | Some n \<Rightarrow> if n \<ge> 0 then itoa (n div unit) else [])"

definition split_address :: "string option \<Rightarrow> string \<times> string" where
  "split_address a =
     (case a of
        None \<Rightarrow> ([], [])
      | Some x \<Rightarrow> (case cutAt (CHR '','') (trim x) of Some (ip, extra) \<Rightarrow> (trim ip, trim extra) | None \<Rightarrow> (trim x, [])))"

definition edit_modal_of :: "vpn_user \<Rightarrow> edit_modal" where
  "edit_modal_of u =
     (let priv = trim (opt_str (u_private_key u)); pub = trim (opt_str (u_public_key u)) in
      \<lparr>em_id = u_id u, em_username = u_username u, em_private_key = priv, em_public_key = pub,
       em_preshared_key = trim (opt_str (u_preshared_key u)), em_vpn_ip = fst (split_address (u_allowed_ips u)),
       em_allowed_extra = snd (split_address (u_allowed_ips u)), em_days = shown_number 1 (u_remaining_days u),
       em_traffic_mb = shown_number (1024 * 1024) (u_remaining_traffic u), em_enabled = u_is_enabled u,
       em_imported_no_key = (priv = [] \<and> pub \<noteq> [])\<rparr>)"

definition EditUserModalPartial :: "string \<Rightarrow> db \<Rightarrow> response + edit_modal" where
  "EditUserModalPartial i d =
     (if i = [] then Inl notFound
      else case find_user i d of None \<Rightarrow> Inl notFound | Some u \<Rightarrow> Inr (edit_modal_of u))"

definition UserDeleteModalPartial :: "string \<Rightarrow> db \<Rightarrow> response + string" where
  "UserDeleteModalPartial i d =
     (if i = [] then Inl notFound
      else case find_user i d of None \<Rightarrow> Inl notFound | Some u \<Rightarrow> Inr (u_username u))"

section \<open>Configurations of clients\<close>

definition UserConfigAPIGet :: "string \<Rightarrow> db \<Rightarrow> response + string \<times> string" where
  "UserConfigAPIGet i d =
     (if i = [] then Inl notFound
      else case RenderClientConfig i d of Inl _ \<Rightarrow> Inl (httpError 404 (json_error ''not found'')) | Inr c \<Rightarrow> Inr c)"

definition UserConfigGet :: "string \<Rightarrow> db \<Rightarrow> response + string \<times> string" where
  "UserConfigGet i d =
     (if i = [] then Inl notFound
      else case RenderClientConfig i d of Inl _ \<Rightarrow> Inl (httpError 404 ''not found'') | Inr c \<Rightarrow> Inr c)"

text \<open>The QR code of a configuration, or why there is none.\<close>

datatype qr_modal =
    NoClientKey string bool
  | NotBuilt string
  | QR string string string string string string

definition UserQRModalPartial :: "string \<Rightarrow> db \<Rightarrow> response + qr_modal" where
  "UserQRModalPartial i d =
     (if i = [] then Inl notFound
      else
        (let name = (case find_user i d of None \<Rightarrow> [] | Some u \<Rightarrow> u_username u);
             pub = (case find_user i d of None \<Rightarrow> [] | Some u \<Rightarrow> opt_str (u_public_key u)) in
         case RenderClientConfig i d of
           Inl ErrNoRows \<Rightarrow> Inl notFound
         | Inl ErrNoClientPrivateKey \<Rightarrow> Inr (NoClientKey name (trim pub \<noteq> []))
         | Inl _ \<Rightarrow> Inr (NotBuilt name)
         | Inr (conf, filename) \<Rightarrow>
             (let ip = (case find_user i d of None \<Rightarrow> [] | Some u \<Rightarrow> first_address (u_allowed_ips u));
                  server = (case find_server ''wireguard'' d of None \<Rightarrow> [] | Some s \<Rightarrow> s_name s);
                  proto = (case find_server ''wireguard'' d of None \<Rightarrow> [] | Some s \<Rightarrow> s_protocol s) in
              Inr (QR name (if trim server = [] then ''WireGuard Server'' else server)
                (toUpper (if trim proto = [] then ''wireguard'' else proto)) ip filename conf))))"

section \<open>Keys\<close>

definition UsersGenerateKeysAPI :: "'m app_env \<Rightarrow> response + string \<times> string" where
  "UsersGenerateKeysAPI env = (case ae_genkey env of None \<Rightarrow> Inl (httpError 500 (json_error ''failed'')) | Some kp \<Rightarrow> Inr kp)"

definition SetupGenerateKeysPartial :: "'m app_env \<Rightarrow> response + string \<times> string" where
  "SetupGenerateKeysPartial env = (case ae_genkey env of None \<Rightarrow> Inl (httpError 500 ''key generation failed'') | Some kp \<Rightarrow> Inr kp)"

text \<open>\<open>psk\<close> is what \<open>GeneratePresharedKey\<close> returns.\<close>

definition UsersGeneratePSKAPI :: "string option \<Rightarrow> response + string" where
  "UsersGeneratePSKAPI psk = (case psk of None \<Rightarrow> Inl (httpError 500 (json_error ''failed'')) | Some k \<Rightarrow> Inr k)"

text \<open>The argument is the key of the decoded body, None when it does not decode.\<close>

definition UsersDerivePublicKeyAPI :: "'m app_env \<Rightarrow> string option \<Rightarrow> response + string" where
  "UsersDerivePublicKeyAPI env payload =
     (case payload of
        None \<Rightarrow> Inl (httpError 400 (json_error ''bad json''))
      | Some key \<Rightarrow> (case DerivePublicKey env key of None \<Rightarrow> Inl (httpError 400 (json_error ''invalid key'')) | Some pub \<Rightarrow> Inr pub))"

definition UsersNextIPAPI :: "db \<Rightarrow> response + string" where
  "UsersNextIPAPI d = (case NextClientAllowedIP d of Inl _ \<Rightarrow> Inl (httpError 500 (json_error ''failed'')) | Inr ip \<Rightarrow> Inr ip)"

section \<open>Servers and connections\<close>

record server_line =
  sl_id :: string
  sl_name :: string
  sl_protocol :: string
  sl_host :: string
  sl_port :: string
  sl_active :: bool

definition server_line_of :: "vpn_server \<Rightarrow> server_line" where
  "server_line_of s =
     \<lparr>sl_id = s_id s, sl_name = s_name s, sl_protocol = s_protocol s, sl_host = s_host s,
      sl_port = (case s_port s of None \<Rightarrow> [] | Some p \<Rightarrow> itoa p), sl_active = s_is_active s\<rparr>"

text \<open>The rows come newest first, by a column the tables leave out: the order is an argument.\<close>

definition ServersPage :: "(vpn_server list \<Rightarrow> vpn_server list) \<Rightarrow> db \<Rightarrow> server_line list" where
  "ServersPage newest_first d = map server_line_of (take 200 (newest_first (servers d)))"

record connection_line =
  cl_username :: string
  cl_endpoint :: string
  cl_handshake :: string
  cl_rx :: int
  cl_tx :: int
  cl_title :: string
  cl_subtitle :: string

definition connection_line_of :: "db \<Rightarrow> vpn_user \<Rightarrow> connection_line" where
  "connection_line_of d u =
     (let s = find_server (u_server_id u) d;
          name = (case s of None \<Rightarrow> [] | Some s \<Rightarrow> trim (s_name s));
          proto = (case s of None \<Rightarrow> [] | Some s \<Rightarrow> trim (s_protocol s));
          port = (case s of None \<Rightarrow> None | Some s \<Rightarrow> s_port s) in
      \<lparr>cl_username = u_username u, cl_endpoint = opt_str (u_endpoint u), cl_handshake = opt_str (u_last_handshake u),
       cl_rx = u_total_bytes_received u, cl_tx = u_total_bytes_sent u,
       cl_title = (if name \<noteq> [] then name else ''WireGuard Server''),
       cl_subtitle = toUpper (if proto \<noteq> [] then proto else ''wireguard'')
         @ (case port of None \<Rightarrow> [] | Some p \<Rightarrow> '' - Port '' @ itoa p)\<rparr>)"

text \<open>Descending order, in which a NULL comes last; rows that compare equal keep the order of the table.\<close>

definition sort_desc :: "('a \<Rightarrow> 'k :: linorder) \<Rightarrow> 'a list \<Rightarrow> 'a list" where
  "sort_desc k xs = rev (sort_key k (rev xs))"

definition ActiveConnectionsPartial :: "db \<Rightarrow> connection_line list" where
  "ActiveConnectionsPartial d =
     map (connection_line_of d)
       (take 200 (sort_desc u_connected_at (filter (\<lambda>u. u_is_connected u \<and> u_is_enabled u) (users d))))"

record ui_stats =
  us_total :: nat
  us_enabled :: nat
  us_connected :: nat
  us_servers :: nat

definition count_if :: "('a \<Rightarrow> bool) \<Rightarrow> 'a list \<Rightarrow> nat" where
  "count_if P xs = length (filter P xs)"

definition UIStatsPartial :: "db \<Rightarrow> ui_stats" where
  "UIStatsPartial d =
     \<lparr>us_total = length (users d), us_enabled = count_if u_is_enabled (users d),
      us_connected = count_if u_is_connected (users d), us_servers = count_if s_is_active (servers d)\<rparr>"

section \<open>The overview\<close>

record conn_stats =
  cs_in_use :: int
  cs_available :: int
  cs_total :: int
  cs_mid :: int
  cs_in_use_pct :: int
  cs_available_pct :: int

record xfer_stats =
  xf_received :: int
  xf_sent :: int
  xf_combined :: int

record sys_info =
  si_address :: string
  si_version :: string
  si_os :: string
  si_hostname :: string
  si_uptime :: string
  si_accepting :: string
  si_ports :: string

definition wireguardPort :: "db \<Rightarrow> int" where
  "wireguardPort d =
     (case Option.bind (find_server ''wireguard'' d) s_port of None \<Rightarrow> 51820 | Some p \<Rightarrow> p)"

definition conn_stats_of :: "db \<Rightarrow> conn_stats" where
  "conn_stats_of d =
     (let us = filter (\<lambda>u. u_server_id u = ''wireguard'') (users d);
          total = int (length us); enabled = int (count_if u_is_enabled us);
          connected = int (count_if (\<lambda>u. u_is_enabled u \<and> u_is_connected u) us);
          available = maxInt 0 (enabled - connected);
          pct = (\<lambda>n. if total > 0 then int (percent (nat n) (nat total)) else 0) in
      \<lparr>cs_in_use = connected, cs_available = available, cs_total = total, cs_mid = total div 2,
       cs_in_use_pct = pct connected, cs_available_pct = pct available\<rparr>)"

text \<open>The sums are those of SQLite, for counters whose sum an integer holds.\<close>

definition xfer_stats_of :: "db \<Rightarrow> xfer_stats" where
  "xfer_stats_of d =
     (let us = filter (\<lambda>u. u_server_id u = ''wireguard'') (users d);
          rx = (\<Sum>u \<leftarrow> us. u_total_bytes_received u + u_bytes_received u);
          tx = (\<Sum>u \<leftarrow> us. u_total_bytes_sent u + u_bytes_sent u) in
      \<lparr>xf_received = rx, xf_sent = tx, xf_combined = i64 (rx + tx)\<rparr>)"

text \<open>The machine's name and system, the configuration, the version and the time since the start are arguments.\<close>

definition loadOverviewData :: "sys_info \<Rightarrow> int \<Rightarrow> db \<Rightarrow> conn_stats \<times> xfer_stats \<times> sys_info" where
  "loadOverviewData base uptime d =
     (conn_stats_of d, xfer_stats_of d, base\<lparr>si_uptime := humanUptime uptime, si_ports := itoa (wireguardPort d)\<rparr>)"

section \<open>The resolver's page\<close>

definition enrichDNSSettings :: "string \<Rightarrow> dns_settings_row \<Rightarrow> dns_settings_row" where
  "enrichDNSSettings bin c =
     (if trim (ds_binary c) = [] then c\<lparr>ds_binary := (if trim bin = [] then ''coredns'' else trim bin)\<rparr> else c)"

record dns_page =
  pg_section :: string
  pg_settings :: dns_settings_row
  pg_records :: "dns_record list"
  pg_rules :: "dns_rule list"
  pg_status :: dns_status
  pg_default_host :: string
  pg_client_dns :: string
  pg_client_hint :: string
  pg_listen_hint :: string
  pg_listen_error :: string

definition ok_or :: "'a \<Rightarrow> 'a res \<Rightarrow> 'a" where
  "ok_or x r = (case r of Inl _ \<Rightarrow> x | Inr y \<Rightarrow> y)"

definition renderDNSPage :: "string \<Rightarrow> string \<Rightarrow> dns_manager \<Rightarrow> db \<Rightarrow> dns_page" where
  "renderDNSPage bin section_name m d =
     (let c0 = enrichDNSSettings bin (GetDNSSettings d);
          listen = ResolveDNSListenAddress d c0;
          c = (case listen of Inl _ \<Rightarrow> c0 | Inr a \<Rightarrow> c0\<lparr>ds_listen_addr := a\<rparr>);
          host = ok_or [] (DNSServerHost d) in
      \<lparr>pg_section = normalizeDNSSection section_name, pg_settings = c, pg_records = ListDNSRecords d,
       pg_rules = ListDNSDomainRules d, pg_status = Status m, pg_default_host = host,
       pg_client_dns = (if ds_enabled c then ok_or [] (DNSResolverHost d c) else []),
       pg_client_hint = (if SuggestDedicatedDNSHost host = [] then ''10.8.0.1'' else SuggestDedicatedDNSHost host),
       pg_listen_hint = (if host = [] then ''10.8.0.1'' else host),
       pg_listen_error = (case listen of Inl e \<Rightarrow> errText e | Inr _ \<Rightarrow> [])\<rparr>)"

section \<open>WireGuard's page\<close>

text \<open>The error that is shown or the state; uptimes are left out, as in \<open>Wg_State\<close>.\<close>

definition WireGuardPage ::
  "'m Syncer.exec \<Rightarrow> string \<Rightarrow> db \<Rightarrow> 'm \<Rightarrow> 'm \<times> (string + wgconf \<times> wg_server option \<times> live_status)" where
  "WireGuardPage run iface d m =
     (case LoadWireGuardState run d iface m of (m', Inl e) \<Rightarrow> (m', Inl (errText e)) | (m', Inr x) \<Rightarrow> (m', Inr x))"

definition WireGuardAPIGet ::
  "'m Syncer.exec \<Rightarrow> string \<Rightarrow> db \<Rightarrow> 'm \<Rightarrow> 'm \<times> (response + wgconf \<times> wg_server option \<times> live_status)" where
  "WireGuardAPIGet run iface d m =
     (case LoadWireGuardState run d iface m of
        (m', Inl e) \<Rightarrow> (m', Inl (httpError 500 (json_error ''failed to load'')))
      | (m', Inr x) \<Rightarrow> (m', Inr x))"

section \<open>Set-up and login\<close>

text \<open>The page of the login, the three facts and the configuration the set-up page shows, and what its forms repeat.\<close>

definition LoginPage :: "'m site \<Rightarrow> response" where
  "LoginPage s = (if \<not> isSetupComplete s then redirect ''/setup'' else page [])"

definition SetupPage :: "string \<Rightarrow> 'm site \<Rightarrow> response + bool \<times> bool \<times> wgconf option" where
  "SetupPage tok s =
     (if isSetupComplete s then
        Inl (redirect (if si_sessions s tok \<noteq> [] then ''/ui'' else ''/login''))
      else Inr (admins (site_db s) \<noteq> [], si_sessions s tok \<noteq> [], sc_config (GetSystemConfig (site_db s))))"

definition setupFormEcho :: "request \<Rightarrow> (string \<times> string) list" where
  "setupFormEcho r = map (\<lambda>k. (k, field r k))
     [''server_host'', ''server_port'', ''server_address'', ''client_address_range'', ''dns'', ''allowed_ips'', ''mtu'',
      ''persistent_keepalive'']"

definition importSetupFormEcho :: "request \<Rightarrow> (string \<times> string) list" where
  "importSetupFormEcho r = [(''server_host'', field r ''server_host'')]"

section \<open>An edit form that is saved as it was opened\<close>

text \<open>
  The request a browser sends when the form of the modal is submitted unchanged
  (\<open>internal/view/templates/partials/edit_user_modal.tmpl\<close>): every input with its value, the checkbox when it is
  set.
\<close>

definition edit_form :: "edit_modal \<Rightarrow> request" where
  "edit_form m =
     \<lparr>rq_form = Some ([(''username'', [em_username m]), (''private_key'', [em_private_key m]), (''public_key'', [em_public_key m]),
        (''preshared_key'', [em_preshared_key m]), (''vpn_ip'', [em_vpn_ip m]), (''allowed_ips_extra'', [em_allowed_extra m]),
        (''remaining_days'', [em_days m]), (''remaining_traffic_mb'', [em_traffic_mb m])]
        @ (if em_enabled m then [(''is_enabled'', [''on''])] else [])),
      rq_id = em_id m, rq_user = [], rq_htmx = True\<rparr>"

text \<open>A text that is stored trimmed and not empty.\<close>

definition neat :: "string \<Rightarrow> bool" where
  "neat s \<longleftrightarrow> s \<noteq> [] \<and> trim s = s"

definition neat_addresses :: "string option \<Rightarrow> bool" where
  "neat_addresses a \<longleftrightarrow>
     (case a of
        None \<Rightarrow> True
      | Some x \<Rightarrow> (case cutAt (CHR '','') x of
          None \<Rightarrow> neat x
        | Some (ip, rest) \<Rightarrow> neat ip \<and> (\<exists>extra. rest = CHR '' '' # extra \<and> neat extra)))"

text \<open>
  A name, an identifier and keys that are stored trimmed and not empty, a public key that belongs to the private one, days and
  a quota that are not negative. Nothing is asked of the addresses.
\<close>

definition neat_user :: "'m app_env \<Rightarrow> vpn_user \<Rightarrow> bool" where
  "neat_user env u \<longleftrightarrow>
     neat (u_id u) \<and> neat (u_username u)
   \<and> (case u_private_key u of None \<Rightarrow> True
      | Some k \<Rightarrow> neat k \<and> (\<exists>p. u_public_key u = Some p \<and> neat p \<and> DerivePublicKey env k = Some p))
   \<and> (case u_preshared_key u of None \<Rightarrow> True | Some k \<Rightarrow> neat k)
   \<and> (case u_remaining_days u of None \<Rightarrow> True | Some n \<Rightarrow> 0 \<le> n \<and> n < 2 ^ 63)
   \<and> (case u_remaining_traffic u of None \<Rightarrow> True | Some n \<Rightarrow> 0 \<le> n \<and> n < 2 ^ 63)"

text \<open>What the form makes of a list of addresses: the first and the rest, trimmed, with a comma and a blank between.\<close>

definition joined_addresses :: "string option \<Rightarrow> string option" where
  "joined_addresses a =
     (let ip = fst (split_address a); extra = snd (split_address a) in
      nullIfEmpty (if ip \<noteq> [] \<and> extra \<noteq> [] then ip @ '', '' @ extra else if ip = [] then extra else ip))"

definition saved_back :: "vpn_user \<Rightarrow> vpn_user" where
  "saved_back u =
     u\<lparr>u_allowed_ips := joined_addresses (u_allowed_ips u),
       u_remaining_traffic := map_option (\<lambda>n. n div 2 ^ 20 * 2 ^ 20) (u_remaining_traffic u)\<rparr>"

lemma edit_fields:
  "formValue (edit_form m) ''username'' = em_username m" "formValue (edit_form m) ''private_key'' = em_private_key m"
  "formValue (edit_form m) ''public_key'' = em_public_key m" "formValue (edit_form m) ''preshared_key'' = em_preshared_key m"
  "formValue (edit_form m) ''allowed_ips_extra'' = em_allowed_extra m" "formValue (edit_form m) ''remaining_days'' = em_days m"
  "formValue (edit_form m) ''remaining_traffic_mb'' = em_traffic_mb m"
  "formValue (edit_form m) ''is_enabled'' = (if em_enabled m then ''on'' else [])"
  by (simp_all add: formValue_def formValues_def edit_form_def)

lemma trim_neat [simp]: "neat s \<Longrightarrow> trim s = s" "neat s \<Longrightarrow> s \<noteq> []"
  by (simp_all add: neat_def)

lemma trim_opt_neat: "(case v of None \<Rightarrow> True | Some k \<Rightarrow> neat k) \<Longrightarrow> trim (opt_str v) = opt_str v"
  by (cases v) (simp_all add: opt_str_def)

lemma shown_number_reads:
  assumes "n div unit < 2 ^ 63" and "0 \<le> n" and "0 < unit"
  shows "atoi (trim (shown_number unit (Some n))) = Some (n div unit)"
proof -
  have "trim (itoa (n div unit)) = itoa (n div unit)" using itoa_plain by (intro trim_plain) blast
  moreover have "0 \<le> n div unit" using assms by (simp add: pos_imp_zdiv_nonneg_iff)
  ultimately show ?thesis using assms by (simp add: shown_number_def atoi_itoa int64_ok_def)
qed

lemma atoi_Nil [simp]: "atoi [] = None"
  by (simp add: atoi_def parse_sint_def parse_nat_def)

lemma neat_pair:
  assumes "neat ip" and "neat extra"
  shows "trim (ip @ '', '' @ extra) = ip @ '', '' @ extra"
proof (rule trim_trimmed)
  have a: "ascii (CHR '','')" "ascii (CHR '' '')" by (simp_all add: ascii_def)
  have t: "trimmed ip" "trimmed extra" using assms trimmed_trim [of ip] trimmed_trim [of extra] by simp_all
  have n: "ip \<noteq> []" "rev extra \<noteq> []" using assms by simp_all
  have "lead_space (ip @ CHR '','' # CHR '' '' # extra) = 0"
    by (rule lead_space_append [OF n(1) _ a(1)]) (use t(1) in \<open>simp add: trimmed_def\<close>)
  moreover have "trail_space (rev extra @ CHR '' '' # CHR '','' # rev ip) = 0"
    by (rule trail_space_append [OF n(2) _ a(2)]) (use t(2) in \<open>simp add: trimmed_def\<close>)
  ultimately show "trimmed (ip @ '', '' @ extra)" unfolding trimmed_def by simp
qed

lemma edit_addresses: "nullIfEmpty (updated_addresses (edit_form (edit_modal_of u)) u) = joined_addresses (u_allowed_ips u)"
proof -
  have "first_address a = fst (split_address a)" for a
    by (simp add: first_address_def split_address_def split: option.split)
  moreover have "trim (fst (split_address a)) = fst (split_address a)" "trim (snd (split_address a)) = snd (split_address a)" for a
    by (simp_all add: split_address_def split: option.split prod.split)
  ultimately show ?thesis
    by (simp add: updated_addresses_def joined_addresses_def field_def edit_fields edit_modal_of_def Let_def)
qed

lemma joined_neat:
  assumes "neat_addresses a"
  shows "joined_addresses a = a"
proof (cases a)
  case None
  then show ?thesis by (simp add: joined_addresses_def split_address_def nullIfEmpty_def)
next
  case (Some x)
  show ?thesis
  proof (cases "cutAt (CHR '','') x")
    case None
    then have "neat x" using assms Some by (simp add: neat_addresses_def)
    then show ?thesis using None Some by (simp add: joined_addresses_def nullIfEmpty_def Let_def split_address_def)
  next
    case (Some p)
    then obtain ip extra where p: "cutAt (CHR '','') x = Some (ip, CHR '' '' # extra)" and t: "neat ip" "neat extra"
      using assms \<open>a = Some x\<close> by (cases p) (auto simp: neat_addresses_def)
    have x: "x = ip @ '', '' @ extra" using cutAt_SomeD [OF p] by simp
    have "trim (CHR '' '' # extra) = extra" using trim_blank_Cons [of "CHR '' ''" extra] t by (simp add: ascii_space_def)
    moreover have "trim x = x" using neat_pair [OF t] by (simp add: x)
    ultimately show ?thesis using \<open>a = Some x\<close> t p
      by (simp add: joined_addresses_def nullIfEmpty_def Let_def split_address_def) (simp add: x)
  qed
qed

lemma joined_example: "joined_addresses (Some ''10.8.0.2/32,fd00::2/128'') = Some ''10.8.0.2/32, fd00::2/128''"
proof -
  have "trim ''10.8.0.2/32,fd00::2/128'' = ''10.8.0.2/32,fd00::2/128''" "trim ''10.8.0.2/32'' = ''10.8.0.2/32''"
    "trim ''fd00::2/128'' = ''fd00::2/128''" "trim ''10.8.0.2/32, fd00::2/128'' \<noteq> []"
    by (simp_all add: str_eval)
  then show ?thesis by (simp add: joined_addresses_def split_address_def cutAt.simps nullIfEmpty_def)
qed

lemma edit_numbers:
  assumes "neat_user env u"
  shows "days_field (edit_form (edit_modal_of u)) = u_remaining_days u"
    and "quota_field (edit_form (edit_modal_of u)) = u_remaining_traffic (saved_back u)"
proof -
  show "days_field (edit_form (edit_modal_of u)) = u_remaining_days u"
  proof (cases "u_remaining_days u")
    case (Some n)
    then show ?thesis using assms shown_number_reads [of n 1]
      by (simp add: days_field_def field_def edit_fields edit_modal_of_def Let_def neat_user_def)
  qed (simp add: days_field_def field_def edit_fields edit_modal_of_def Let_def shown_number_def)
  show "quota_field (edit_form (edit_modal_of u)) = u_remaining_traffic (saved_back u)"
  proof (cases "u_remaining_traffic u")
    case (Some n)
    then have n: "0 \<le> n" "n < 2 ^ 63" using assms by (simp_all add: neat_user_def)
    then have "n div 2 ^ 20 * 2 ^ 20 \<le> n" by (simp add: minus_mod_eq_div_mult [symmetric])
    then have "int64_ok (n div 2 ^ 20 * 2 ^ 20)" using n by (simp add: int64_ok_def)
    then have "i64 (1048576 * (n div 1048576)) = n div 1048576 * 1048576" by (simp add: mult.commute)
    moreover have "n div 2 ^ 20 < 2 ^ 63" "0 \<le> n div 1048576" using n by (simp_all add: pos_imp_zdiv_nonneg_iff)
    ultimately show ?thesis using Some n shown_number_reads [of n "1024 * 1024"]
      by (simp add: quota_field_def field_def edit_fields edit_modal_of_def Let_def saved_back_def)
  qed (simp add: quota_field_def field_def edit_fields edit_modal_of_def Let_def shown_number_def saved_back_def)
qed

lemma edit_keys:
  assumes "neat_user env u"
  shows "update_keys env (edit_form (edit_modal_of u)) = Inr (case u_private_key u of None \<Rightarrow> None
     | Some k \<Rightarrow> Some (k, opt_str (u_public_key u)))"
  using assms
  by (auto simp: update_keys_def field_def edit_fields edit_modal_of_def Let_def neat_user_def opt_str_def split: option.splits)

lemma edit_row:
  assumes "neat_user env u" and "update_keys env (edit_form (edit_modal_of u)) = Inr keys"
  shows "updated_row (edit_form (edit_modal_of u)) (updated_addresses (edit_form (edit_modal_of u)) u) keys u = saved_back u"
proof -
  let ?r = "edit_form (edit_modal_of u)"
  note a = edit_addresses [of u]
  have f: "formValue ?r ''is_enabled'' = ''on'' \<longleftrightarrow> u_is_enabled u" "field ?r ''username'' = u_username u"
    "field ?r ''preshared_key'' = trim (opt_str (u_preshared_key u))"
    using assms(1) by (simp_all add: field_def edit_fields edit_modal_of_def Let_def neat_user_def)
  have k: "keys = (case u_private_key u of None \<Rightarrow> None | Some k \<Rightarrow> Some (k, opt_str (u_public_key u)))"
    using assms(2) edit_keys [OF assms(1)] by simp
  have psk: "trim (opt_str (u_preshared_key u)) \<noteq> [] \<Longrightarrow> Some (trim (opt_str (u_preshared_key u))) = u_preshared_key u"
    using assms(1) by (cases "u_preshared_key u") (auto simp: opt_str_def neat_user_def)
  have "(case keys of None \<Rightarrow> u_private_key u | Some kp \<Rightarrow> Some (fst kp)) = u_private_key u"
    "(case keys of None \<Rightarrow> u_public_key u | Some kp \<Rightarrow> Some (snd kp)) = u_public_key u"
    using assms(1) by (auto simp: k neat_user_def opt_str_def split: option.splits)
  then show ?thesis
    by (intro vpn_user.equality) (simp_all add: updated_row_def a f psk edit_numbers [OF assms(1)] saved_back_def)
qed

text \<open>
  C17. What an edit form that is opened and saved without a change does to the user: name, keys, days and switch are left as
  they were; what is left of the quota is cut to whole megabytes, so that each such save takes up to a megabyte away, and
  a user with less than one left is left with none; and the list of addresses is written with a comma and a blank after
  the first, which changes a list that had none. The user's name, identifier and keys are stored trimmed and not
  empty, the public key belongs to the private one, and days and quota are not negative.
\<close>

theorem edit_form_saves_back:
  assumes "EditUserModalPartial i (ap_db st) = Inr m" and "find_user i (ap_db st) = Some u" and "neat_user env u"
    and "db_ok (ap_db st)"
  shows "ap_db (fst (UserUpdatePost env (edit_form m) st)) =
      (ap_db st)\<lparr>users := upd_where (\<lambda>v. u_id v = i) saved_back (users (ap_db st))\<rparr>
    \<and> (neat_addresses (u_allowed_ips u) \<longrightarrow> u_allowed_ips (saved_back u) = u_allowed_ips u)
    \<and> joined_addresses (Some ''10.8.0.2/32,fd00::2/128'') = Some ''10.8.0.2/32, fd00::2/128''"
proof -
  let ?d = "ap_db st"
  have i: "i \<noteq> []" and m: "m = edit_modal_of u" using assms(1,2) by (auto simp: EditUserModalPartial_def split: if_splits)
  have u: "u \<in> set (users ?d)" "u_id u = i" using assms(2) by (auto simp: find_user_def dest: find_eq_Some_in)
  have r: "rq_id (edit_form m) = i" "rq_form (edit_form m) \<noteq> None"
    using u by (simp_all add: m edit_form_def edit_modal_of_def Let_def)
  have name: "field (edit_form m) ''username'' \<noteq> []"
    using assms(3) by (simp add: m field_def edit_fields neat_user_def) (simp add: edit_modal_of_def Let_def)
  let ?f = "\<lambda>keys. updated_row (edit_form m) (updated_addresses (edit_form m) u) keys"
  obtain keys where k: "update_keys env (edit_form m) = Inr keys" using edit_keys [OF assms(3)] m by blast
  have row: "v = u" if "v \<in> set (users ?d)" "u_id v = i" for v
    using distinct_on_eq [of u_id "users ?d" v u] that u assms(4) by (simp add: db_defs)
  have same: "upd_where (\<lambda>v. u_id v = i) (?f keys) (users ?d) = upd_where (\<lambda>v. u_id v = i) saved_back (users ?d)"
    unfolding upd_where_def using row edit_row [OF assms(3)] k m by (intro map_cong) auto
  moreover have "distinct_on u_username (upd_where (\<lambda>v. u_id v = i) saved_back (users ?d))"
    using assms(4) by (intro distinct_on_upd_where) (simp_all add: db_defs saved_back_def)
  ultimately have "update_user i (?f keys) ?d = Inr (?d\<lparr>users := upd_where (\<lambda>v. u_id v = i) saved_back (users ?d)\<rparr>)"
    by (simp add: update_user_def)
  then have "ap_db (fst (UserUpdatePost env (edit_form m) st)) = ?d\<lparr>users := upd_where (\<lambda>v. u_id v = i) saved_back (users ?d)\<rparr>"
    using r name k i assms(2) by (auto simp: UserUpdatePost_db)
  then show ?thesis using joined_neat [of "u_allowed_ips u"] joined_example by (simp add: saved_back_def)
qed

definition ex_edited :: vpn_user where
  "ex_edited = (user_row ''u1'' ''alice'' ''wireguard'')\<lparr>u_allowed_ips := Some ''10.8.0.2/32, 10.9.0.0/24'', u_private_key := Some ''K'',
     u_public_key := Some ''P'', u_remaining_days := Some 3, u_remaining_traffic := Some 1500000\<rparr>"

lemma edit_form_saves_back_witness:
  "(let st = ex_app\<lparr>ap_db := ex_db\<lparr>users := [ex_edited]\<rparr>\<rparr> in
    users (ap_db (fst (UserUpdatePost ex_app_env (edit_form (edit_modal_of ex_edited)) st)))
      = [ex_edited\<lparr>u_remaining_traffic := Some 1048576\<rparr>])"
proof -
  let ?d = "ex_db\<lparr>users := [ex_edited]\<rparr>"
  have t: "neat ''u1''" "neat ''alice''" "neat ''K''" "neat ''P''" "neat ''10.8.0.2/32''" "neat ''10.9.0.0/24''"
    by (simp_all add: neat_def plain_def ascii_space_def)
  have "neat_user ex_app_env ex_edited"
    unfolding neat_user_def using t
    by (simp add: ex_edited_def user_row_def ex_app_env_def DerivePublicKey_def)
  moreover have "EditUserModalPartial ''u1'' ?d = Inr (edit_modal_of ex_edited)" "find_user ''u1'' ?d = Some ex_edited"
    by (simp_all add: EditUserModalPartial_def find_user_def ex_edited_def user_row_def)
  moreover have "db_ok ?d" by (simp add: ex_edited_def user_row_def ex_db_def ex_server_def db_empty_def db_defs distinct_on_def)
  ultimately have "users (ap_db (fst (UserUpdatePost ex_app_env (edit_form (edit_modal_of ex_edited)) (ex_app\<lparr>ap_db := ?d\<rparr>))))
      = upd_where (\<lambda>v. u_id v = ''u1'') saved_back [ex_edited]"
    using edit_form_saves_back [of "''u1''" "ex_app\<lparr>ap_db := ?d\<rparr>" "edit_modal_of ex_edited" ex_edited ex_app_env] by simp
  also have "\<dots> = [ex_edited\<lparr>u_remaining_traffic := Some 1048576\<rparr>]"
    using joined_neat [of "u_allowed_ips ex_edited"] t
    by (simp add: saved_back_def ex_edited_def user_row_def neat_addresses_def cutAt.simps)
  finally show ?thesis by simp
qed

section \<open>The shares of the overview\<close>

lemma percent_share:
  assumes "0 < t" and "t < 2 ^ 40" and "a \<le> t"
  shows "int (percent a t) \<in> {100 * int a div int t - 1, 100 * int a div int t}"
proof (cases "a = 0")
  case False
  have "100 * int a div int t = int (100 * a div t)" by (simp add: zdiv_int)
  then show ?thesis using percent_near [of a t] False assms by auto
qed simp

text \<open>
  C16. The two shares of the overview, computed in \<open>float64\<close> and truncated, are the exact ones rounded down or one less,
  and together never more than a hundred; with 29 of 100 users connected the page shows 28 per cent.
\<close>

theorem overview_shares:
  assumes "length (users d) < 2 ^ 40" and "0 < cs_total (conn_stats_of d)"
  shows "cs_in_use_pct (conn_stats_of d) \<in> {100 * cs_in_use (conn_stats_of d) div cs_total (conn_stats_of d) - 1,
        100 * cs_in_use (conn_stats_of d) div cs_total (conn_stats_of d)}
    \<and> cs_available_pct (conn_stats_of d) \<in> {100 * cs_available (conn_stats_of d) div cs_total (conn_stats_of d) - 1,
        100 * cs_available (conn_stats_of d) div cs_total (conn_stats_of d)}
    \<and> cs_in_use_pct (conn_stats_of d) + cs_available_pct (conn_stats_of d) \<le> 100
    \<and> percent 29 100 = 28"
proof -
  define us where "us = filter (\<lambda>u. u_server_id u = ''wireguard'') (users d)"
  define t where "t = length us"
  define a where "a = count_if (\<lambda>u. u_is_enabled u \<and> u_is_connected u) us"
  define b where "b = nat (maxInt 0 (int (count_if u_is_enabled us) - int a))"
  have t: "0 < t" "t < 2 ^ 40"
    using assms(2) le_less_trans [OF length_filter_le assms(1)] by (simp_all add: t_def us_def conn_stats_of_def Let_def)
  have cs: "cs_in_use (conn_stats_of d) = int a" "cs_available (conn_stats_of d) = int b" "cs_total (conn_stats_of d) = int t"
    "cs_in_use_pct (conn_stats_of d) = int (percent a t)" "cs_available_pct (conn_stats_of d) = int (percent b t)"
    using t(1) by (simp_all add: conn_stats_of_def Let_def a_def b_def t_def us_def maxInt_def)
  have "a \<le> count_if u_is_enabled us" unfolding a_def count_if_def by (induction us) simp_all
  moreover have "count_if u_is_enabled us \<le> t" by (simp add: count_if_def t_def)
  ultimately have ab: "a \<le> t" "b \<le> t" "a + b \<le> t" by (simp_all add: b_def maxInt_def)
  have "100 * int a div int t + 100 * int b div int t \<le> (100 * int a + 100 * int b) div int t"
    using t(1) by (simp add: div_add1_eq [of "100 * int a" "100 * int b"] pos_imp_zdiv_nonneg_iff)
  also have "\<dots> \<le> 100 * int t div int t" using ab(3) t(1) by (intro zdiv_mono1) linarith+
  finally have "100 * int a div int t + 100 * int b div int t \<le> 100" using t(1) by simp
  then show ?thesis
    unfolding cs using percent_share [OF t ab(1)] percent_share [OF t ab(2)] percent_29 by auto
qed

lemma overview_shares_witness:
  "(let d = db_empty\<lparr>users := [user_row ''a'' ''n'' ''wireguard'', (user_row ''b'' ''m'' ''wireguard'')\<lparr>u_is_connected := True\<rparr>]\<rparr> in
    cs_in_use_pct (conn_stats_of d) \<in> {49, 50} \<and> cs_in_use_pct (conn_stats_of d) + cs_available_pct (conn_stats_of d) \<le> 100)"
proof -
  let ?d = "db_empty\<lparr>users := [user_row ''a'' ''n'' ''wireguard'', (user_row ''b'' ''m'' ''wireguard'')\<lparr>u_is_connected := True\<rparr>]\<rparr>"
  have c: "cs_total (conn_stats_of ?d) = 2" "cs_in_use (conn_stats_of ?d) = 1"
    by (simp_all add: conn_stats_of_def Let_def user_row_def count_if_def)
  then show ?thesis using overview_shares [of ?d] by (simp add: Let_def)
qed

end
