(* ===== verification/App_Group_Pages.thy ===== *)
theory App_Group_Pages
  imports App_Pages
begin

text \<open>
  What the pages and forms show of groups and queues (\<open>internal/app/groups_handlers.go\<close>,
  \<open>pcq_handlers.go\<close>), with the formats in which limits are printed, and what the queue form does when it is saved
  as it was opened. Arrows and dashes are ASCII.
\<close>

section \<open>Printed limits\<close>

text \<open>
  The quotient of two natural numbers, rounded half to even to four significant digits and
  printed with \<open>%.4g\<close>; and with one decimal. A limit divided by 1024 is exact in floating point.
\<close>

function shift_up :: "nat \<Rightarrow> nat \<Rightarrow> nat" where
  "shift_up n d = (if n = 0 \<or> d \<le> n then 0 else Suc (shift_up (10 * n) d))"
  by pat_completeness auto
termination by (relation "measure (\<lambda>(n, d). d - n)") auto

declare shift_up.simps [simp del]

definition decimal_exp :: "nat \<Rightarrow> nat \<Rightarrow> int" where
  "decimal_exp n d = (if d \<le> n then int (length (nat_str (n div d))) - 1 else - int (shift_up n d))"

definition scaled :: "nat \<Rightarrow> nat \<Rightarrow> int \<Rightarrow> nat" where
  "scaled n d e = (if e \<ge> 3 then round_even n (d * 10 ^ nat (e - 3)) else round_even (n * 10 ^ nat (3 - e)) d)"

definition four_digits :: "nat \<Rightarrow> nat \<Rightarrow> string \<times> int" where
  "four_digits n d =
     (let e = decimal_exp n d; m = scaled n d e in
      if m = 10000 then (''1'', e + 1) else (trimRight ''0'' (nat_str m), e))"

definition format_g4 :: "nat \<Rightarrow> nat \<Rightarrow> string" where
  "format_g4 n d =
     (let (ds, e) = four_digits n d; nd = int (length ds); dp = e + 1;
          eprec = (if 4 > nd \<and> nd \<ge> dp then nd else 4) in
      if e < - 4 \<or> e \<ge> eprec then
        hd ds # (if nd > 1 then ''.'' @ tl ds else []) @ ''e'' @ (if e < 0 then ''-'' else ''+'') @ pad2 (nat \<bar>e\<bar>)
      else if dp > 0 then
        take (nat dp) ds @ replicate (nat (dp - nd)) (CHR ''0'') @ (if nd > dp then ''.'' @ drop (nat dp) ds else [])
      else ''0.'' @ replicate (nat (- dp)) (CHR ''0'') @ ds)"

definition kbpsToMbpsInput :: "int option \<Rightarrow> string" where
  "kbpsToMbpsInput v = (case v of None \<Rightarrow> [] | Some k \<Rightarrow> if k \<le> 0 then [] else format_g4 (nat k) 1024)"

definition ptrPositiveKbps :: "int option \<Rightarrow> int option" where
  "ptrPositiveKbps v = (case v of None \<Rightarrow> None | Some k \<Rightarrow> if k \<le> 0 then None else Some k)"

definition kbpsDisplayMbps :: "int option \<Rightarrow> string" where
  "kbpsDisplayMbps k =
     (case k of
        None \<Rightarrow> []
      | Some k \<Rightarrow>
          if k \<le> 0 then []
          else (let t = round_even (10 * nat k) 1024;
                    s = trimRight ''.'' (trimRight ''0'' (nat_str (t div 10) @ ''.'' @ [digit (t mod 10)])) in
            if s = [] then ''0'' else s))"

definition pcqLimitsSummary :: "int option \<Rightarrow> int option \<Rightarrow> string" where
  "pcqLimitsSummary dl ul =
     (case (ptrPositiveKbps dl, ptrPositiveKbps ul) of
        (Some d, Some u) \<Rightarrow> kbpsDisplayMbps (Some d) @ ''v '' @ kbpsDisplayMbps (Some u) @ ''^ Mbps''
      | (Some d, None) \<Rightarrow> kbpsDisplayMbps (Some d) @ ''v Mbps''
      | (None, Some u) \<Rightarrow> kbpsDisplayMbps (Some u) @ ''^ Mbps''
      | (None, None) \<Rightarrow> ''-'')"

section \<open>Groups\<close>

definition firstTunnelIPCIDR :: "string \<Rightarrow> string" where
  "firstTunnelIPCIDR a = (case cutAt (CHR '','') (trim a) of Some (x, _) \<Rightarrow> trim x | None \<Rightarrow> trim a)"

definition parseIPv4Host :: "string \<Rightarrow> string" where
  "parseIPv4Host s0 =
     (let s = trim s0 in
      if CHR ''/'' \<in> set s then
        (case parseCIDR s of None \<Rightarrow> [] | Some (host, _) \<Rightarrow> (case to4 host of None \<Rightarrow> [] | Some a \<Rightarrow> show_v4 a))
      else (case parseIP4 s of None \<Rightarrow> [] | Some a \<Rightarrow> show_v4 a))"

text \<open>The users of a group in the order of the membership rows, and sorted without regard to case.\<close>

definition group_users :: "string \<Rightarrow> db \<Rightarrow> vpn_user list" where
  "group_users g d =
     List.map_filter (\<lambda>m. if m_group m = g then find_user (m_user m) d else None) (members d)"

definition groupMemberTunnelIPs :: "db \<Rightarrow> string \<Rightarrow> string list" where
  "groupMemberTunnelIPs d g =
     filter (\<lambda>t. t \<noteq> [] \<and> parseIPv4Host t \<noteq> [])
       (map (\<lambda>u. firstTunnelIPCIDR (opt_str (u_allowed_ips u))) (group_users g d))"

record pick_user =
  pu_id :: string
  pu_username :: string
  pu_tunnel_ip :: string

definition pick_of :: "vpn_user \<Rightarrow> pick_user" where
  "pick_of u = \<lparr>pu_id = u_id u, pu_username = u_username u, pu_tunnel_ip = firstTunnelIPCIDR (opt_str (u_allowed_ips u))\<rparr>"

definition by_name :: "vpn_user list \<Rightarrow> vpn_user list" where
  "by_name us = sort_key (\<lambda>u. toLower (u_username u)) us"

definition queryUsersNotInGroup :: "db \<Rightarrow> string \<Rightarrow> pick_user list" where
  "queryUsersNotInGroup d g =
     map pick_of (take 500 (by_name (filter (\<lambda>u. (g, u_id u) \<notin> (\<lambda>m. (m_group m, m_user m)) ` set (members d)) (users d))))"

definition member_count :: "db \<Rightarrow> string \<Rightarrow> nat" where
  "member_count d g = count_if (\<lambda>m. m_group m = g) (members d)"

definition groups_by_name :: "db \<Rightarrow> vpn_group list" where
  "groups_by_name d = sort_key (\<lambda>g. toLower (g_name g)) (groups d)"

record group_line =
  gl_id :: string
  gl_name :: string
  gl_description :: string
  gl_members :: nat

definition GroupsPage :: "db \<Rightarrow> group_line list" where
  "GroupsPage d =
     map (\<lambda>g. \<lparr>gl_id = g_id g, gl_name = g_name g, gl_description = opt_str (g_description g), gl_members = member_count d (g_id g)\<rparr>)
       (take 300 (groups_by_name d))"

text \<open>Pages of one group begin alike: no group, no page.\<close>

definition with_group :: "string \<Rightarrow> db \<Rightarrow> (string \<Rightarrow> vpn_group \<Rightarrow> 'a) \<Rightarrow> response + 'a" where
  "with_group i d f =
     (if trim i = [] then Inl notFound
      else case find_group (trim i) d of None \<Rightarrow> Inl notFound | Some g \<Rightarrow> Inr (f (trim i) g))"

definition GroupDeleteModalPartial :: "string \<Rightarrow> db \<Rightarrow> response + string \<times> string" where
  "GroupDeleteModalPartial i d = with_group i d (\<lambda>i g. (i, g_name g))"

definition GroupMemberRemoveModalPartial :: "string \<Rightarrow> string \<Rightarrow> db \<Rightarrow> response + string \<times> string \<times> string" where
  "GroupMemberRemoveModalPartial i u d =
     (if trim i = [] \<or> trim u = [] then Inl notFound
      else case find_user (trim u) d of None \<Rightarrow> Inl notFound | Some x \<Rightarrow> Inr (trim i, trim u, u_username x))"

definition GroupAddMembersModalPartial :: "string \<Rightarrow> db \<Rightarrow> response + string \<times> string \<times> pick_user list" where
  "GroupAddMembersModalPartial i d = with_group i d (\<lambda>i g. (i, g_name g, queryUsersNotInGroup d i))"

record group_page =
  gp_id :: string
  gp_name :: string
  gp_description :: string
  gp_members :: "pick_user list"

definition GroupDetailPage :: "string \<Rightarrow> db \<Rightarrow> response + group_page" where
  "GroupDetailPage i d =
     with_group i d (\<lambda>i g. \<lparr>gp_id = i, gp_name = g_name g, gp_description = opt_str (g_description g),
       gp_members = map pick_of (by_name (group_users i d))\<rparr>)"

section \<open>Queues\<close>

record preset_line =
  pl_group :: string
  pl_name :: string
  pl_members :: nat
  pl_summary :: string
  pl_classifier :: string
  pl_has_limits :: bool
  pl_disabled :: bool

record sans_line =
  sn_group :: string
  sn_name :: string
  sn_members :: nat

definition preset_line_of :: "db \<Rightarrow> vpn_group \<Rightarrow> vpn_pcq \<Rightarrow> preset_line" where
  "preset_line_of d g q =
     \<lparr>pl_group = g_id g, pl_name = g_name g, pl_members = member_count d (g_id g),
      pl_summary = pcqLimitsSummary (q_download q) (q_upload q),
      pl_classifier = (if trim (q_classifier q) \<noteq> [] then q_classifier q else ''dual''),
      pl_has_limits = (ptrPositiveKbps (q_download q) \<noteq> None \<or> ptrPositiveKbps (q_upload q) \<noteq> None),
      pl_disabled = q_disabled q\<rparr>"

definition PCQOverviewPage :: "db \<Rightarrow> preset_line list \<times> sans_line list" where
  "PCQOverviewPage d =
     (take 400 (List.map_filter (\<lambda>g. map_option (preset_line_of d g) (find_pcq (g_id g) d)) (groups_by_name d)),
      map (\<lambda>g. \<lparr>sn_group = g_id g, sn_name = g_name g, sn_members = member_count d (g_id g)\<rparr>)
        (take 400 (filter (\<lambda>g. find_pcq (g_id g) d = None) (groups_by_name d))))"

record queue_page =
  qg_id :: string
  qg_name :: string
  qg_download :: string
  qg_upload :: string
  qg_burst_download :: string
  qg_burst_upload :: string
  qg_classifier :: string
  qg_disabled :: bool
  qg_has_preset :: bool
  qg_preview :: string
  qg_iface :: string
  qg_tunnel_ips :: "string list"

definition GroupPCQPage :: "string \<Rightarrow> string \<Rightarrow> db \<Rightarrow> response + queue_page" where
  "GroupPCQPage iface i d =
     with_group i d (\<lambda>i g.
       (let q = find_pcq i d; limit = (\<lambda>f. kbpsToMbpsInput (Option.bind q f)) in
        \<lparr>qg_id = i, qg_name = g_name g, qg_download = limit q_download, qg_upload = limit q_upload,
         qg_burst_download = limit q_burst_download, qg_burst_upload = limit q_burst_upload,
         qg_classifier = (case q of None \<Rightarrow> ''dual'' | Some q \<Rightarrow> q_classifier q),
         qg_disabled = (case q of None \<Rightarrow> False | Some q \<Rightarrow> q_disabled q), qg_has_preset = (q \<noteq> None),
         qg_preview = join [chr_nl] (PlanCommandsForGroup d iface i), qg_iface = iface,
         qg_tunnel_ips = groupMemberTunnelIPs d i\<rparr>))"

section \<open>A queue form that is saved as it was opened\<close>

lemma nat_str_times10: "0 < m \<Longrightarrow> nat_str (m * 10 ^ j) = nat_str m @ replicate j (CHR ''0'')"
proof (induction j)
  case (Suc j)
  have "nat_str (m * 10 ^ Suc j) = nat_str (m * 10 ^ Suc j div 10) @ [digit (m * 10 ^ Suc j mod 10)]"
    using Suc.prems by (subst nat_base.simps) simp
  also have "m * 10 ^ Suc j div 10 = m * 10 ^ j" by simp
  finally show ?case using Suc by (simp add: digit_def replicate_append_same)
qed simp

lemma length_nat_str: "m < 10 ^ k \<Longrightarrow> 0 < k \<Longrightarrow> length (nat_str m) \<le> k"
proof (induction k arbitrary: m)
  case (Suc k)
  show ?case
  proof (cases "m < 10")
    case True
    then show ?thesis by (simp add: nat_base.simps)
  next
    case False
    then have "0 < k" using Suc.prems by (cases k) auto
    moreover have "m div 10 < 10 ^ k" using Suc.prems by (simp add: less_mult_imp_div_less mult.commute)
    ultimately have "length (nat_str (m div 10)) \<le> k" using Suc.IH by blast
    then show ?thesis using False by (simp add: nat_base.simps [of 10 m])
  qed
qed simp

lemma nat_str_zeros:
  assumes "0 < m"
  obtains ds z where "nat_str m = ds @ replicate z (CHR ''0'')" and "ds \<noteq> []" and "last ds \<noteq> CHR ''0''"
proof -
  have "\<exists>ds z. nat_str m = ds @ replicate z (CHR ''0'') \<and> ds \<noteq> [] \<and> last ds \<noteq> CHR ''0''" using assms
  proof (induction m rule: less_induct)
    case (less m)
    show ?case
    proof (cases "m mod 10 = 0")
      case True
      then have m: "m = m div 10 * 10 ^ 1" and "0 < m div 10" "m div 10 < m" using less.prems by auto
      then obtain ds z where "nat_str (m div 10) = ds @ replicate z (CHR ''0'')" "ds \<noteq> []" "last ds \<noteq> CHR ''0''"
        using less.IH by blast
      moreover have "nat_str m = nat_str (m div 10) @ [CHR ''0'']"
        using nat_str_times10 [OF \<open>0 < m div 10\<close>, of 1] m by simp
      ultimately have "nat_str m = ds @ replicate (Suc z) (CHR ''0'')" by (simp add: replicate_append_same)
      then show ?thesis using \<open>ds \<noteq> []\<close> \<open>last ds \<noteq> CHR ''0''\<close> by blast
    next
      case False
      have "last (nat_str m) = digit (m mod 10)" by (subst nat_base.simps) simp
      moreover have "digit (m mod 10) \<noteq> CHR ''0''" using False by (intro digit_neq_zero) simp_all
      ultimately have "nat_str m = nat_str m @ replicate 0 (CHR ''0'') \<and> nat_str m \<noteq> [] \<and> last (nat_str m) \<noteq> CHR ''0''" by simp
      then show ?thesis by blast
    qed
  qed
  then show ?thesis using that by blast
qed

lemma trimRight_zeros:
  assumes "ds \<noteq> []" and "last ds \<noteq> CHR ''0''"
  shows "trimRight ''0'' (ds @ replicate z (CHR ''0'')) = ds"
proof -
  obtain x xs where x: "rev ds = x # xs" "x \<noteq> CHR ''0''" using assms by (cases "rev ds") auto
  have "dropWhile (\<lambda>c. c = CHR ''0'') (replicate z (CHR ''0'') @ x # xs) = x # xs" using x(2) by (induction z) simp_all
  then show ?thesis using x(1) by (simp add: trimRight_def)
qed

lemma shown_whole:
  assumes "0 < m" and "m < 10000"
  shows "format_g4 (1024 * m) 1024 = nat_str m"
proof -
  obtain ds z where ds: "nat_str m = ds @ replicate z (CHR ''0'')" "ds \<noteq> []" "last ds \<noteq> CHR ''0''"
    by (rule nat_str_zeros [OF assms(1)])
  let ?L = "length (nat_str m)"
  have L: "?L \<le> 4" "0 < ?L" using length_nat_str [of m 4] assms(2) by simp_all
  have e: "decimal_exp (1024 * m) 1024 = int ?L - 1" using assms(1) by (simp add: decimal_exp_def)
  have exact: "round_even (k * 1024) 1024 = k" for k by (simp add: round_even_def)
  have s: "scaled (1024 * m) 1024 (int ?L - 1) = m * 10 ^ (4 - ?L)"
    using L exact [of "m * 10 ^ (4 - ?L)"] exact [of m]
    by (cases "?L = 4") (auto simp: scaled_def nat_diff_distrib algebra_simps)
  have t: "nat_str (m * 10 ^ (4 - ?L)) = ds @ replicate (z + (4 - ?L)) (CHR ''0'')"
    by (simp add: nat_str_times10 [OF assms(1)] ds(1) replicate_add)
  have "length (nat_str (m * 10 ^ (4 - ?L))) = 4" using L by (simp add: nat_str_times10 [OF assms(1)])
  moreover have "length (nat_str 10000) = 5" by (simp add: nat_base.simps)
  ultimately have n: "m * 10 ^ (4 - ?L) \<noteq> 10000" by auto
  have fd: "four_digits (1024 * m) 1024 = (ds, int ?L - 1)"
    unfolding four_digits_def e s Let_def using n by (simp only: if_False t trimRight_zeros [OF ds(2,3)])
  have l: "length ds + z = ?L" by (simp add: ds(1))
  have "nat (int ?L - 1 + 1) = ?L" "nat (int ?L - 1 + 1 - int (length ds)) = z" "\<not> int ?L - 1 + 1 < int (length ds)"
    "\<not> int ?L - 1 < - 4" "0 < int ?L - 1 + 1" using l L by auto
  moreover have "\<not> (if 4 > int (length ds) \<and> int (length ds) \<ge> int ?L - 1 + 1 then int (length ds) else 4) \<le> int ?L - 1"
    using l L by auto
  moreover have "take ?L ds = ds" using l by simp
  ultimately show ?thesis unfolding format_g4_def fd Let_def prod.case by (simp only: if_False if_True simp_thms append_Nil2 ds(1))
qed

text \<open>
  The request of the form of the page when nothing is changed
  (\<open>internal/view/templates/group_pcq.tmpl\<close>).
\<close>

definition queue_form :: "queue_page \<Rightarrow> request" where
  "queue_form p =
     \<lparr>rq_form = Some [(''download_mbps'', [qg_download p]), (''upload_mbps'', [qg_upload p]),
        (''burst_download_mbps'', [qg_burst_download p]), (''burst_upload_mbps'', [qg_burst_upload p]),
        (''pcq_classifier'', [qg_classifier p])],
      rq_id = qg_id p, rq_user = [], rq_htmx = False\<rparr>"

lemma queue_fields:
  "formValue (queue_form p) ''download_mbps'' = qg_download p" "formValue (queue_form p) ''upload_mbps'' = qg_upload p"
  "formValue (queue_form p) ''burst_download_mbps'' = qg_burst_download p"
  "formValue (queue_form p) ''burst_upload_mbps'' = qg_burst_upload p"
  "formValue (queue_form p) ''pcq_classifier'' = qg_classifier p" "formValue (queue_form p) ''clear_pcq'' = []"
  by (simp_all add: formValue_def formValues_def queue_form_def)

definition whole_mbps :: "int option \<Rightarrow> bool" where
  "whole_mbps v \<longleftrightarrow> (case v of None \<Rightarrow> True | Some k \<Rightarrow> 0 < k \<and> k < 10000 * 1024 \<and> k mod 1024 = 0)"

lemma whole_limit_back:
  assumes "whole_mbps v"
  shows "mbpsInputToKbps (kbpsToMbpsInput v) = v"
proof (cases v)
  case None
  have "parse_decimal [] = None" by (simp add: parse_decimal_def parse_mantissa_def has_prefix_def)
  then show ?thesis using None by (simp add: kbpsToMbpsInput_def mbpsInputToKbps_def)
next
  case (Some k)
  define m where "m = nat k div 1024"
  have k: "k = 1024 * int m" "0 < m" "m < 10000" using assms Some by (auto simp: m_def whole_mbps_def zdiv_int)
  have "kbpsToMbpsInput v = nat_str m" using shown_whole [OF k(2,3)] k Some by (simp add: kbpsToMbpsInput_def nat_mult_distrib)
  moreover have "trim (nat_str m) = nat_str m" using nat_str_plain by simp
  ultimately show ?thesis using k Some
    by (simp add: mbpsInputToKbps_def parse_decimal_nat_str round_kbps_def mult.commute)
qed

lemma classifier_kept:
  assumes "c \<in> {''dst-download'', ''src-upload'', ''dual''}"
  shows "toLower (trim c) = c"
proof -
  have "trim ''dst-download'' = ''dst-download''" "trim ''src-upload'' = ''src-upload''" "trim ''dual'' = ''dual''"
    by (rule trim_plain, simp add: plain_def ascii_space_def)+
  moreover have "toLower ''dst-download'' = ''dst-download''" "toLower ''src-upload'' = ''src-upload''" "toLower ''dual'' = ''dual''"
    by (simp_all add: toLower_def lower_chr_def)
  ultimately show ?thesis using assms by auto
qed

lemma typed_fraction:
  "mbpsInputToKbps ''123.45'' = Some 126413" "mbpsInputToKbps ''123.5'' = Some 126464"
proof -
  have t: "trim ''123.45'' = ''123.45''" "trim ''123.5'' = ''123.5''" by (rule trim_plain, simp add: plain_def ascii_space_def)+
  show "mbpsInputToKbps ''123.45'' = Some 126413" "mbpsInputToKbps ''123.5'' = Some 126464"
    by (simp_all add: mbpsInputToKbps_def t parse_decimal_def parse_mantissa_def parse_exponent_def has_prefix_def cutAt.simps
        digits_def is_digit_def dec_val_def digit_val_def round_kbps_def Let_def)
qed

lemma fraction_shown: "kbpsToMbpsInput (Some 126413) = ''123.5''"
  by (simp add: kbpsToMbpsInput_def format_g4_def four_digits_def decimal_exp_def scaled_def round_even_def nat_base.simps
      digit_def trimRight_def Let_def)

lemma whole_shown: "kbpsToMbpsInput (Some 1536) = ''1.5''" and typed_half: "mbpsInputToKbps ''1.5'' = Some 1536"
proof -
  have t: "trim ''1.5'' = ''1.5''" by (rule trim_plain, simp add: plain_def ascii_space_def)
  show "kbpsToMbpsInput (Some 1536) = ''1.5''"
    by (simp add: kbpsToMbpsInput_def format_g4_def four_digits_def decimal_exp_def scaled_def round_even_def nat_base.simps
        digit_def trimRight_def Let_def)
  show "mbpsInputToKbps ''1.5'' = Some 1536"
    by (simp add: mbpsInputToKbps_def t parse_decimal_def parse_mantissa_def parse_exponent_def has_prefix_def cutAt.simps
        digits_def is_digit_def dec_val_def digit_val_def round_kbps_def Let_def)
qed

text \<open>A limit as the page shows it, read back; and a preset with its limits so.\<close>

definition reshown :: "int option \<Rightarrow> int option" where
  "reshown v = mbpsInputToKbps (kbpsToMbpsInput v)"

definition reshown_preset :: "vpn_pcq \<Rightarrow> vpn_pcq" where
  "reshown_preset q =
     q\<lparr>q_download := reshown (q_download q), q_upload := reshown (q_upload q),
       q_burst_download := reshown (q_burst_download q), q_burst_upload := reshown (q_burst_upload q)\<rparr>"

definition no_limits :: "string \<Rightarrow> vpn_pcq" where
  "no_limits i = \<lparr>q_group = i, q_download = None, q_upload = None, q_burst_download = None, q_burst_upload = None,
     q_classifier = ''dual'', q_disabled = False\<rparr>"

lemma reshown_whole: "whole_mbps v \<Longrightarrow> reshown v = v"
  by (simp add: reshown_def whole_limit_back)

lemma with_group_Inr:
  "GroupPCQPage iface i d = Inr p \<Longrightarrow> trim i \<noteq> [] \<and> find_group (trim i) d \<noteq> None \<and> qg_id p = trim i
    \<and> qg_classifier p = (case find_pcq (trim i) d of None \<Rightarrow> ''dual'' | Some q \<Rightarrow> q_classifier q)
    \<and> saved_preset (queue_form p) (trim i) d =
        (case find_pcq (trim i) d of None \<Rightarrow> no_limits (trim i)
         | Some q \<Rightarrow> (reshown_preset q)\<lparr>q_group := trim i, q_classifier := classifier_field (queue_form p)\<rparr>)"
proof -
  assume "GroupPCQPage iface i d = Inr p"
  then have 1: "trim i \<noteq> []" "find_group (trim i) d \<noteq> None" "qg_id p = trim i"
    and c: "qg_classifier p = (case find_pcq (trim i) d of None \<Rightarrow> ''dual'' | Some q \<Rightarrow> q_classifier q)"
    and l: "qg_download p = kbpsToMbpsInput (Option.bind (find_pcq (trim i) d) q_download)"
      "qg_upload p = kbpsToMbpsInput (Option.bind (find_pcq (trim i) d) q_upload)"
      "qg_burst_download p = kbpsToMbpsInput (Option.bind (find_pcq (trim i) d) q_burst_download)"
      "qg_burst_upload p = kbpsToMbpsInput (Option.bind (find_pcq (trim i) d) q_burst_upload)"
    by (auto simp: GroupPCQPage_def with_group_def Let_def split: if_splits option.splits)
  have "classifier_field (queue_form p) = ''dual''" if "find_pcq (trim i) d = None"
    using classifier_kept [of "''dual''"] c that by (simp add: classifier_field_def field_def queue_fields Let_def)
  then have "saved_preset (queue_form p) (trim i) d =
      (case find_pcq (trim i) d of None \<Rightarrow> no_limits (trim i)
       | Some q \<Rightarrow> (reshown_preset q)\<lparr>q_group := trim i, q_classifier := classifier_field (queue_form p)\<rparr>)"
    using reshown_whole [of None]
    by (cases "find_pcq (trim i) d")
       (simp_all add: saved_preset_def queue_fields l no_limits_def reshown_preset_def whole_mbps_def flip: reshown_def)
  then show ?thesis using 1 c by blast
qed

text \<open>
  C23. What a queue form that is opened and saved without a change does. When the group has a preset of one of the three
  kinds, its switch and its kind are kept and every limit becomes what the page shows of it: a limit that is a whole
  number of megabits below ten thousand stays as it is, one of 1536 kbps too, while one of 126413 kbps, entered as 123.45,
  is shown as 123.5 and becomes 126464. When the group has no preset, saving gives it one, without limits.
\<close>

theorem queue_form_saves_back:
  assumes "GroupPCQPage iface i (ap_db st) = Inr p" and "db_ok (ap_db st)"
    and "\<forall>q. find_pcq (trim i) (ap_db st) = Some q \<longrightarrow> q_classifier q \<in> {''dst-download'', ''src-upload'', ''dual''}"
  shows "ap_db (fst (GroupPCQSavePost env (queue_form p) st)) =
      (ap_db st)\<lparr>pcqs := (if find_pcq (trim i) (ap_db st) = None then pcqs (ap_db st) @ [no_limits (trim i)]
         else upd_where (\<lambda>q. q_group q = trim i) reshown_preset (pcqs (ap_db st)))\<rparr>
    \<and> (\<forall>v. whole_mbps v \<longrightarrow> reshown v = v) \<and> reshown (Some 1536) = Some 1536
    \<and> mbpsInputToKbps ''123.45'' = Some 126413 \<and> reshown (Some 126413) = Some 126464"
proof -
  let ?d = "ap_db st"
  note p = with_group_Inr [OF assms(1)]
  obtain g where g: "find_group (trim i) ?d = Some g" using p by blast
  have "g \<in> set (groups ?d)" "g_id g = trim i" using g by (auto simp: find_group_def dest: find_eq_Some_in)
  then have gi: "trim i \<in> g_id ` set (groups ?d)" by force
  have "\<exists>e. upsert_pcq (saved_preset (queue_form p) (trim i) ?d) ?d = Inr (?d\<lparr>pcqs := e\<rparr>)
      \<and> e = (if find_pcq (trim i) ?d = None then pcqs ?d @ [no_limits (trim i)]
         else upd_where (\<lambda>q. q_group q = trim i) reshown_preset (pcqs ?d))"
  proof (cases "find_pcq (trim i) ?d")
    case None
    then have "trim i \<notin> q_group ` set (pcqs ?d)" by (auto simp: find_pcq_def find_None_iff)
    then show ?thesis using None p gi by (simp add: upsert_pcq_def no_limits_def)
  next
    case (Some q)
    have q: "q \<in> set (pcqs ?d)" "q_group q = trim i" using Some by (auto simp: find_pcq_def dest: find_eq_Some_in)
    have "q_classifier q \<in> {''dst-download'', ''src-upload'', ''dual''}" using assms(3) Some by blast
    then have "classifier_field (queue_form p) = q_classifier q"
      using classifier_kept [of "q_classifier q"] p Some by (simp add: classifier_field_def field_def queue_fields Let_def)
    then have row: "saved_preset (queue_form p) (trim i) ?d = reshown_preset q"
      using p Some q by (simp add: reshown_preset_def)
    have "upd_where (\<lambda>r. q_group r = trim i) (\<lambda>_. reshown_preset q) (pcqs ?d)
        = upd_where (\<lambda>r. q_group r = trim i) reshown_preset (pcqs ?d)"
      unfolding upd_where_def using q assms(2) by (intro map_cong) (auto simp: db_defs dest: distinct_on_eq)
    moreover have "q_group (reshown_preset q) = trim i" using q by (simp add: reshown_preset_def)
    moreover have "trim i \<in> q_group ` set (pcqs ?d)" using q by force
    ultimately show ?thesis using row Some by (simp add: upsert_pcq_def)
  qed
  moreover have "rq_form (queue_form p) \<noteq> None" "rq_id (queue_form p) = trim i" using p by (simp_all add: queue_form_def)
  ultimately show ?thesis
    using p g reshown_whole typed_half typed_fraction
    by (auto simp: GroupPCQSavePost_def Let_def queue_fields reshown_def fraction_shown whole_shown)
qed

lemma queue_form_saves_back_witness:
  "(let d = ex_pcq_db\<lparr>users := [], members := []\<rparr>; p = projr (GroupPCQPage ''wg0'' ''g2'' d) in
    ap_db (fst (GroupPCQSavePost ex_app_env (queue_form p) (ex_shaped_app\<lparr>ap_db := d\<rparr>))) = d
    \<and> qg_download p = ''2'' \<and> qg_upload p = ''1'')"
proof -
  let ?d = "ex_pcq_db\<lparr>users := [], members := []\<rparr>" let ?q = "ex_preset ''g2'' 2048 (Some 1024)"
  have t: "trim ''g2'' = ''g2''" by (rule trim_plain) (simp add: plain_def ascii_space_def)
  obtain p where p: "GroupPCQPage ''wg0'' ''g2'' ?d = Inr p" "qg_download p = kbpsToMbpsInput (Some 2048)"
      "qg_upload p = kbpsToMbpsInput (Some 1024)"
    by (simp add: GroupPCQPage_def with_group_def t find_group_def find_pcq_def ex_pcq_db_def ex_preset_def)
  have ok: "db_ok ?d" by (simp add: ex_pcq_db_def ex_preset_def db_empty_def db_defs distinct_on_def)
  have f: "find_pcq (trim ''g2'') ?d = Some ?q" by (simp add: t find_pcq_def ex_pcq_db_def ex_preset_def)
  have w: "reshown v = v" if "whole_mbps v" for v
    using queue_form_saves_back [of "''wg0''" "''g2''" "ex_shaped_app\<lparr>ap_db := ?d\<rparr>" p ex_app_env] p(1) ok f that
    by (simp add: ex_preset_def)
  have "reshown_preset ?q = ?q" by (simp add: reshown_preset_def ex_preset_def w whole_mbps_def)
  moreover have "upd_where (\<lambda>q. q_group q = ''g2'') reshown_preset (pcqs ?d)
      = map (\<lambda>q. if q_group q = ''g2'' then reshown_preset q else q) (pcqs ?d)" by (simp add: upd_where_def)
  ultimately have "upd_where (\<lambda>q. q_group q = ''g2'') reshown_preset (pcqs ?d) = pcqs ?d"
    by (simp add: ex_pcq_db_def) (simp add: ex_preset_def)
  then have "ap_db (fst (GroupPCQSavePost ex_app_env (queue_form p) (ex_shaped_app\<lparr>ap_db := ?d\<rparr>))) = ?d"
    using queue_form_saves_back [of "''wg0''" "''g2''" "ex_shaped_app\<lparr>ap_db := ?d\<rparr>" p ex_app_env] p(1) ok f
    by (simp add: ex_preset_def t)
  moreover have "kbpsToMbpsInput (Some 2048) = ''2''" "kbpsToMbpsInput (Some 1024) = ''1''"
    using shown_whole [of 2] shown_whole [of 1] by (simp_all add: kbpsToMbpsInput_def nat_base.simps digit_def)
  ultimately show ?thesis using p by (simp add: Let_def)
qed

end
