(* ===== verification/App_View.thy ===== *)
theory App_View
  imports App_Config App_Pages
begin

text \<open>
  How a page is put together (\<open>internal/view/view.go\<close>): the values every template finds, the functions it may call, the
  choice between a whole page and the fragment htmx asks for, and what is sent when a template fails. The templates
  and their engine are the parameter: a template is a function from its data to the pieces it writes and the error
  it ends with.
\<close>

section \<open>Functions for templates\<close>

text \<open>The copy of \<open>humanUptime\<close> in this package.\<close>

definition viewUptime :: "int \<Rightarrow> string" where
  "viewUptime d =
     (let sec0 = go_div d nanos; sec = (if sec0 < 0 then 0 else sec0);
          days = sec div 86400; hours = sec mod 86400 div 3600; mins = sec mod 3600 div 60;
          parts = (if days > 0 then [plural days ''day''] else []) @ (if hours > 0 then [plural hours ''hour''] else [])
            @ (if mins > 0 then [plural mins ''minute''] else []) in
      (case parts of
         [] \<Rightarrow> ''Less than a minute''
       | [a] \<Rightarrow> a
       | [a, b] \<Rightarrow> a @ '', '' @ b
       | a # b # c # _ \<Rightarrow> a @ '', '' @ b @ '', '' @ c))"

text \<open>
  The number of bytes of the UTF-8 character a string starts with, zero where \<open>utf8.DecodeRuneInString\<close> finds none.
\<close>

definition in_range :: "nat \<Rightarrow> nat \<Rightarrow> nat \<Rightarrow> bool" where
  "in_range lo hi n \<longleftrightarrow> lo \<le> n \<and> n \<le> hi"

abbreviation cont :: "nat \<Rightarrow> bool" where
  "cont \<equiv> in_range 0x80 0xBF"

fun rune_len :: "nat list \<Rightarrow> nat" where
  "rune_len [] = 0"
| "rune_len (a # bs) =
     (if a < 0x80 then 1
      else if in_range 0xC2 0xDF a then (case bs of b # _ \<Rightarrow> if cont b then 2 else 0 | _ \<Rightarrow> 0)
      else if in_range 0xE0 0xEF a then
        (case bs of
           b # c # _ \<Rightarrow>
             if in_range (if a = 0xE0 then 0xA0 else 0x80) (if a = 0xED then 0x9F else 0xBF) b \<and> cont c then 3 else 0
         | _ \<Rightarrow> 0)
      else if in_range 0xF0 0xF4 a then
        (case bs of
           b # c # d # _ \<Rightarrow>
             if in_range (if a = 0xF0 then 0x90 else 0x80) (if a = 0xF4 then 0x8F else 0xBF) b \<and> cont c \<and> cont d then 4 else 0
         | _ \<Rightarrow> 0)
      else 0)"

text \<open>
  The letter in the picture of a user. \<open>upper\<close> is \<open>strings.ToUpper\<close> of one character outside ASCII; an encoded U+FFFD counts
  as no character.
\<close>

definition initial :: "(string \<Rightarrow> string) \<Rightarrow> string \<Rightarrow> string" where
  "initial upper s0 =
     (let s = trim s0; n = rune_len (map of_char s); r = take n s in
      if s = [] then ''?''
      else if n = 0 \<or> r = map char_of [0xEF :: nat, 0xBF, 0xBD] then ''?''
      else if n = 1 then toUpper r
      else upper r)"

text \<open>Values in the data of a template; \<open>Other\<close> holds what a handler puts there and the code of this package does not read.\<close>

datatype 'v datum = Str string | Flag bool | Crumbs "crumb list" | Html string | Seconds int | NoSeconds | Other 'v

type_synonym 'v page_data = "string \<Rightarrow> 'v datum option"

fun dict :: "'v datum list \<Rightarrow> 'v page_data \<Rightarrow> 'v page_data" where
  "dict (Str k # v # rest) m = dict rest (m(k \<mapsto> v))"
| "dict (_ # v # rest) m = dict rest m"
| "dict _ m = m"

text \<open>\<open>time.Duration(x) * time.Second\<close> for a number or a pointer to one, in nanoseconds.\<close>

definition durationSeconds :: "'v datum \<Rightarrow> int" where
  "durationSeconds v = (case v of Seconds n \<Rightarrow> i64 (n * nanos) | _ \<Rightarrow> 0)"

section \<open>Templates and responses\<close>

text \<open>A template writes its pieces one after the other; the error, if any, comes after them.\<close>

type_synonym 'v template_set = "string \<Rightarrow> ('v page_data \<Rightarrow> string list \<times> goerr option) option"

record view_env =
  ve_path :: string
  ve_hx_request :: string
  ve_revision :: string
  ve_display :: string
  ve_pcq_disabled :: bool

record view_page =
  vp_code :: nat
  vp_html :: bool
  vp_title :: "string option"
  vp_body :: string

definition template_error :: view_page where
  "template_error = \<lparr>vp_code = 500, vp_html = False, vp_title = None, vp_body = ''template error'' @ [chr_nl]\<rparr>"

definition executeToHTML :: "'v template_set \<Rightarrow> string \<Rightarrow> 'v page_data \<Rightarrow> string res" where
  "executeToHTML ts name data =
     (case ts name of
        None \<Rightarrow> Inl (ErrMsg (''missing template: '' @ name))
      | Some t \<Rightarrow> (case t data of (_, Some e) \<Rightarrow> Inl e | (out, None) \<Rightarrow> Inr (concat out)))"

definition executeToHTMLOptional :: "'v template_set \<Rightarrow> string \<Rightarrow> 'v page_data \<Rightarrow> string res" where
  "executeToHTMLOptional ts name data =
     (if ts name = None then Inl (ErrMsg (''missing template: '' @ name)) else executeToHTML ts name data)"

text \<open>
  \<open>ExecuteTemplate\<close> writes into the response. The first piece sends the status 200; an error after that can only
  add its text.
\<close>

definition stream :: "'v template_set \<Rightarrow> string \<Rightarrow> 'v page_data \<Rightarrow> view_page" where
  "stream ts name data =
     (case ts name of
        None \<Rightarrow> template_error
      | Some t \<Rightarrow>
          (case t data of
             (out, None) \<Rightarrow> \<lparr>vp_code = 200, vp_html = True, vp_title = None, vp_body = concat out\<rparr>
           | ([], Some _) \<Rightarrow> template_error
           | (out, Some _) \<Rightarrow>
               \<lparr>vp_code = 200, vp_html = True, vp_title = None, vp_body = concat out @ ''template error'' @ [chr_nl]\<rparr>))"

definition or_set :: "string \<Rightarrow> 'v datum \<Rightarrow> 'v page_data \<Rightarrow> 'v page_data" where
  "or_set k v data = (if data k = None then data(k \<mapsto> v) else data)"

text \<open>What every template finds, unless the handler has set it.\<close>

definition common :: "view_env \<Rightarrow> 'v page_data \<Rightarrow> 'v page_data" where
  "common env data =
     or_set ''PCQDisabled'' (Flag (ve_pcq_disabled env))
       (or_set ''GitRevisionShort'' (Str (ve_display env))
          (or_set ''GitRevision'' (Str (ve_revision env))
             (or_set ''Breadcrumbs'' (Crumbs (breadcrumbs (ve_path env))) (or_set ''Path'' (Str (ve_path env)) data))))"

definition wants_fragment :: "view_env \<Rightarrow> bool" where
  "wants_fragment env \<longleftrightarrow> equalFold (ve_hx_request env) ''true'' \<and> has_prefix (ve_path env) ''/ui''"

definition hx_title :: "'v page_data \<Rightarrow> string option" where
  "hx_title data =
     (case data ''Title'' of Some (Str t) \<Rightarrow> if t = [] then None else Some (''NetPlug UI - '' @ t) | _ \<Rightarrow> None)"

text \<open>The templates are None when they cannot be parsed; a nil map of data is the empty one.\<close>

definition Render :: "'v template_set option \<Rightarrow> view_env \<Rightarrow> string \<Rightarrow> 'v page_data \<Rightarrow> view_page" where
  "Render parsed env name data =
     (case parsed of
        None \<Rightarrow> template_error
      | Some ts \<Rightarrow>
          (let d = common env data in
           if has_suffix name ''.tmpl'' \<and> name \<noteq> ''login.tmpl'' \<and> name \<noteq> ''setup.tmpl'' then
             (let base = trim_suffix name ''.tmpl'';
                  right = (case executeToHTMLOptional ts (base @ ''.header_right'') d of Inr h \<Rightarrow> h | Inl _ \<Rightarrow> []);
                  d1 = d(''HeaderRight'' \<mapsto> Html right) in
              case executeToHTML ts (base @ ''.content'') d1 of
                Inl _ \<Rightarrow> template_error
              | Inr body \<Rightarrow>
                  (let d2 = d1(''Body'' \<mapsto> Html body) in
                   if wants_fragment env
                   then \<lparr>vp_code = 200, vp_html = True, vp_title = hx_title d2, vp_body = body\<rparr>
                   else stream ts name d2))
           else stream ts name d))"

definition RenderPartial :: "'v template_set option \<Rightarrow> view_env \<Rightarrow> string \<Rightarrow> 'v page_data \<Rightarrow> view_page" where
  "RenderPartial parsed env name data =
     (case parsed of None \<Rightarrow> template_error | Some ts \<Rightarrow> stream ts name (common env data))"

section \<open>Pages without rows\<close>

datatype overview = Connections conn_stats | Transfer xfer_stats | System sys_info | Clock string

definition page_with :: "(string \<times> 'v datum) list \<Rightarrow> 'v page_data" where
  "page_with kvs = map_of kvs"

definition UIPage :: "overview template_set option \<Rightarrow> string \<Rightarrow> view_env \<Rightarrow> view_page" where
  "UIPage parsed now env = Render parsed env ''ui.tmpl'' (page_with [(''Title'', Str ''Overview''), (''Now'', Other (Clock now))])"

definition ConnectionsPage :: "'v template_set option \<Rightarrow> view_env \<Rightarrow> view_page" where
  "ConnectionsPage parsed env = Render parsed env ''connections.tmpl'' (page_with [(''Title'', Str ''Connections'')])"

definition SettingsPage :: "'v template_set option \<Rightarrow> view_env \<Rightarrow> view_page" where
  "SettingsPage parsed env = Render parsed env ''settings.tmpl'' (page_with [(''Title'', Str ''Settings'')])"

text \<open>\<open>query\<close> is the first value of a parameter in the address, or the empty string.\<close>

definition BackupPage :: "'v template_set option \<Rightarrow> (string \<Rightarrow> string) \<Rightarrow> view_env \<Rightarrow> view_page" where
  "BackupPage parsed query env =
     Render parsed env ''backup.tmpl''
       (page_with [(''Title'', Str ''Backup & Restore''), (''SaveMessage'', Str (trim (query ''msg''))),
          (''SaveMessageType'', Str (trim (query ''msgType'')))])"

definition OverviewConnectionsPartial :: "overview template_set option \<Rightarrow> sys_info \<Rightarrow> int \<Rightarrow> db \<Rightarrow> view_env \<Rightarrow> view_page" where
  "OverviewConnectionsPartial parsed base uptime d env =
     (let (conn, _, _) = loadOverviewData base uptime d in
      RenderPartial parsed env ''partials/overview_connections.tmpl'' (page_with [(''Conn'', Other (Connections conn))]))"

definition OverviewServerPartial :: "overview template_set option \<Rightarrow> sys_info \<Rightarrow> int \<Rightarrow> db \<Rightarrow> view_env \<Rightarrow> view_page" where
  "OverviewServerPartial parsed base uptime d env =
     (let (_, _, sys) = loadOverviewData base uptime d in
      RenderPartial parsed env ''partials/overview_server.tmpl'' (page_with [(''Sys'', Other (System sys))]))"

definition OverviewTransferPartial :: "overview template_set option \<Rightarrow> sys_info \<Rightarrow> int \<Rightarrow> db \<Rightarrow> view_env \<Rightarrow> view_page" where
  "OverviewTransferPartial parsed base uptime d env =
     (let (_, xfer, _) = loadOverviewData base uptime d in
      RenderPartial parsed env ''partials/overview_transfer.tmpl'' (page_with [(''Xfer'', Other (Transfer xfer))]))"

definition OverviewLivePartial :: "overview template_set option \<Rightarrow> sys_info \<Rightarrow> int \<Rightarrow> db \<Rightarrow> view_env \<Rightarrow> view_page" where
  "OverviewLivePartial parsed base uptime d env =
     (let (conn, _, sys) = loadOverviewData base uptime d in
      RenderPartial parsed env ''partials/overview_live_oob.tmpl''
        (page_with [(''Conn'', Other (Connections conn)), (''Sys'', Other (System sys))]))"

definition OverviewAllPartial :: "overview template_set option \<Rightarrow> sys_info \<Rightarrow> int \<Rightarrow> db \<Rightarrow> view_env \<Rightarrow> view_page" where
  "OverviewAllPartial = OverviewLivePartial"

definition EmptyPartial :: view_page where
  "EmptyPartial = \<lparr>vp_code = 200, vp_html = True, vp_title = None, vp_body = []\<rparr>"


section \<open>A fragment and its page\<close>

text \<open>The data the layout is given: the common values, what stands right of the header, and the rendered content.\<close>

lemma Render_content [consumes 3]:
  assumes "has_suffix name ''.tmpl''" and "name \<noteq> ''login.tmpl''" and "name \<noteq> ''setup.tmpl''"
  obtains (broken) "\<And>env'. ve_path env' = ve_path env \<Longrightarrow> ve_revision env' = ve_revision env \<Longrightarrow> ve_display env' = ve_display env
      \<Longrightarrow> ve_pcq_disabled env' = ve_pcq_disabled env \<Longrightarrow> Render (Some ts) env' name data = template_error"
  | (content) d body where "d ''Body'' = Some (Html body)" "\<forall>k. k \<noteq> ''Body'' \<and> k \<noteq> ''HeaderRight'' \<longrightarrow> d k = common env data k"
      "\<And>env'. ve_path env' = ve_path env \<Longrightarrow> ve_revision env' = ve_revision env \<Longrightarrow> ve_display env' = ve_display env
        \<Longrightarrow> ve_pcq_disabled env' = ve_pcq_disabled env \<Longrightarrow> Render (Some ts) env' name data =
          (if wants_fragment env' then \<lparr>vp_code = 200, vp_html = True, vp_title = hx_title d, vp_body = body\<rparr>
           else stream ts name d)"
proof -
  define base where "base = trim_suffix name ''.tmpl''"
  define d where "d = common env data"
  define right where "right = (case executeToHTMLOptional ts (base @ ''.header_right'') d of Inr h \<Rightarrow> h | Inl _ \<Rightarrow> [])"
  define d1 where "d1 = d(''HeaderRight'' \<mapsto> Html right)"
  have same: "common env' data = d" if "ve_path env' = ve_path env" "ve_revision env' = ve_revision env" "ve_display env' = ve_display env"
    "ve_pcq_disabled env' = ve_pcq_disabled env" for env'
    using that by (simp add: d_def common_def)
  show ?thesis
  proof (cases "executeToHTML ts (base @ ''.content'') d1")
    case (Inl e)
    show ?thesis
      by (rule broken) (use assms same Inl in \<open>simp add: Render_def Let_def d1_def right_def base_def\<close>)
  next
    case (Inr body)
    show ?thesis
    proof (rule content [of "d1(''Body'' \<mapsto> Html body)" body])
      show "\<forall>k. k \<noteq> ''Body'' \<and> k \<noteq> ''HeaderRight'' \<longrightarrow> (d1(''Body'' \<mapsto> Html body)) k = common env data k"
        by (simp add: d1_def d_def)
    qed (use assms same Inr in \<open>simp_all add: Render_def Let_def d1_def right_def base_def\<close>)
  qed
qed

text \<open>
  C15. What htmx is sent for a page of the interface is exactly what the whole page holds as its body: both fail with the
  same answer, or the layout runs on the handler's and the common values with the fragment as its body. A page and its
  fragment differ in nothing else than the layout around it.
\<close>

theorem fragment_is_page_body:
  assumes "has_suffix name ''.tmpl''" and "name \<noteq> ''login.tmpl''" and "name \<noteq> ''setup.tmpl''"
    and "has_prefix (ve_path env) ''/ui''" and "\<not> equalFold (ve_hx_request env) ''true''"
    and "fragment = Render (Some ts) (env\<lparr>ve_hx_request := ''true''\<rparr>) name data"
  shows "(fragment = template_error \<and> Render (Some ts) env name data = template_error)
    \<or> (vp_code fragment = 200
       \<and> (\<exists>d. d ''Body'' = Some (Html (vp_body fragment))
            \<and> (\<forall>k. k \<noteq> ''Body'' \<and> k \<noteq> ''HeaderRight'' \<longrightarrow> d k = common env data k)
            \<and> Render (Some ts) env name data = stream ts name d))"
  using assms(1-3)
proof (cases rule: Render_content [where env = env and ts = ts and data = data])
  case broken
  then show ?thesis using assms(6) by simp
next
  case (content d body)
  let ?hx = "env\<lparr>ve_hx_request := ''true''\<rparr>"
  have w: "wants_fragment ?hx" "\<not> wants_fragment env"
    using assms(4,5) by (simp_all add: wants_fragment_def equalFold_def)
  have page: "Render (Some ts) env name data = stream ts name d" using content(3) [of env] w(2) by simp
  have "Render (Some ts) ?hx name data = \<lparr>vp_code = 200, vp_html = True, vp_title = hx_title d, vp_body = body\<rparr>"
    using content(3) [of ?hx] w(1) by simp
  then have "vp_code fragment = 200" "vp_body fragment = body" using assms(6) by simp_all
  then show ?thesis using content(1,2) page by blast
qed

definition ex_templates :: "unit template_set" where
  "ex_templates =
     [''users.content'' \<mapsto> (\<lambda>_. ([''<ul>'', ''</ul>''], None)),
      ''users.tmpl'' \<mapsto> (\<lambda>d. ([''<html>'', (case d ''Body'' of Some (Html b) \<Rightarrow> b | _ \<Rightarrow> []), ''</html>''], None)),
      ''broken.tmpl'' \<mapsto> (\<lambda>_. ([''<html>''], Some (ErrMsg ''nil pointer'')))]"

definition ex_view :: view_env where
  "ex_view = \<lparr>ve_path = ''/ui/users'', ve_hx_request = [], ve_revision = ''r'', ve_display = ''r'', ve_pcq_disabled = False\<rparr>"

lemma fragment_is_page_body_witness:
  "\<exists>f d. f = Render (Some ex_templates) (ex_view\<lparr>ve_hx_request := ''true''\<rparr>) ''users.tmpl'' Map.empty
     \<and> vp_body f = ''<ul></ul>'' \<and> d ''Body'' = Some (Html ''<ul></ul>'')
     \<and> Render (Some ex_templates) ex_view ''users.tmpl'' Map.empty = stream ex_templates ''users.tmpl'' d"
proof -
  let ?f = "Render (Some ex_templates) (ex_view\<lparr>ve_hx_request := ''true''\<rparr>) ''users.tmpl'' Map.empty"
  have pre: "has_suffix ''users.tmpl'' ''.tmpl''" "has_prefix (ve_path ex_view) ''/ui''" "\<not> equalFold (ve_hx_request ex_view) ''true''"
    by code_simp+
  have "vp_code ?f = 200" "vp_body ?f = ''<ul></ul>''" by code_simp+
  then show ?thesis using fragment_is_page_body [OF pre(1) _ _ pre(2,3), of ?f ex_templates Map.empty] by (auto simp: template_error_def)
qed

text \<open>
  A template that fails after its first piece is answered with the status 200: the browser takes the beginning of the page,
  with the text of the error after it, for the page. The status 500 is sent only when nothing was written before.
\<close>

theorem half_page_is_ok:
  assumes "ts name = Some t" and "t (common env data) = (out, Some e)"
  shows "RenderPartial (Some ts) env name data =
    (if out = [] then template_error
     else \<lparr>vp_code = 200, vp_html = True, vp_title = None, vp_body = concat out @ ''template error'' @ [chr_nl]\<rparr>)"
  using assms by (cases out) (simp_all add: RenderPartial_def stream_def)

lemma half_page_is_ok_witness:
  "vp_code (RenderPartial (Some ex_templates) ex_view ''broken.tmpl'' Map.empty) = 200"
proof -
  let ?t = "\<lambda>_. ([''<html>''], Some (ErrMsg ''nil pointer''))"
  have "ex_templates ''broken.tmpl'' = Some ?t" by (simp add: ex_templates_def)
  then have "RenderPartial (Some ex_templates) ex_view ''broken.tmpl'' Map.empty =
    (if [''<html>''] = [] then template_error
     else \<lparr>vp_code = 200, vp_html = True, vp_title = None, vp_body = concat [''<html>''] @ ''template error'' @ [chr_nl]\<rparr>)"
    by (rule half_page_is_ok) (rule refl)
  then show ?thesis by simp
qed

section \<open>Two copies of one function\<close>

lemma go_rem:
  assumes "0 \<le> sec" and "0 < n"
  shows "sec - n * go_div sec n = sec mod n"
  using assms by (simp add: go_div_nonneg minus_mult_div_eq_mod)

lemma go_div_neg: "sec < 0 \<Longrightarrow> 0 < n \<Longrightarrow> go_div sec n \<le> 0"
  by (simp add: go_div_def sgn_if pos_imp_zdiv_nonneg_iff)

lemma go_rem_neg:
  assumes "sec < 0" and "0 < n"
  shows "sec - n * go_div sec n \<le> 0"
proof -
  have "go_div sec n = - (- sec div n)" using assms by (simp add: go_div_def)
  moreover have "0 \<le> - sec mod n" using assms(2) by simp
  ultimately show ?thesis using minus_mult_div_eq_mod [of "- sec" n] by simp
qed

lemma shown_parts:
  "length ps \<le> 3 \<Longrightarrow>
    (case ps of [] \<Rightarrow> e | [a] \<Rightarrow> a | [a, b] \<Rightarrow> a @ sep @ b | a # b # c # _ \<Rightarrow> a @ sep @ b @ sep @ c) = (if ps = [] then e else join sep ps)"
  by (auto simp: le_Suc_eq numeral_3_eq_3 length_Suc_conv)

text \<open>
  The two copies of \<open>humanUptime\<close>, of the handlers and of the templates, print every duration alike, also a negative
  one, against which only the copy of the templates has a guard.
\<close>

theorem uptimes_agree: "viewUptime d = humanUptime d"
proof -
  define sec where "sec = go_div d nanos"
  define parts where "parts = (\<lambda>days hours mins. (if days > 0 then [plural days ''day''] else [])
    @ (if hours > 0 then [plural hours ''hour''] else []) @ (if mins > 0 then [plural mins ''minute''] else []))"
  define p where "p = (let s = (if sec < 0 then 0 else sec) in parts (s div 86400) (s mod 86400 div 3600) (s mod 3600 div 60))"
  have view: "viewUptime d = (if p = [] then ''Less than a minute'' else join '', '' p)"
    unfolding viewUptime_def Let_def sec_def [symmetric] by (subst shown_parts) (simp_all add: p_def parts_def Let_def)
  have neg: "\<not> go_div x n > 0" if "x \<le> 0" "0 < n" for x n :: int
    using go_div_neg [of x n] that by (cases "x = 0") (simp_all add: go_div_def)
  have "parts (go_div sec 86400) (go_div (sec - 86400 * go_div sec 86400) 3600) (go_div (sec - 3600 * go_div sec 3600) 60) = p"
  proof (cases "0 \<le> sec")
    case True
    then show ?thesis unfolding p_def by (simp add: go_rem) (simp add: go_div_nonneg)
  next
    case False
    then have "sec - 86400 * go_div sec 86400 \<le> 0" "sec - 3600 * go_div sec 3600 \<le> 0" using go_rem_neg by simp_all
    then have "\<not> go_div sec 86400 > 0" "\<not> go_div (sec - 86400 * go_div sec 86400) 3600 > 0"
      "\<not> go_div (sec - 3600 * go_div sec 3600) 60 > 0"
      using neg False by simp_all
    then show ?thesis using False unfolding p_def parts_def by simp
  qed
  then show ?thesis unfolding view humanUptime_def Let_def sec_def [symmetric] by (simp add: parts_def)
qed

end
