(* ===== verification/Dns_Platform.thy ===== *)
theory Dns_Platform
  imports Dns_Manager Pcq_Apply
begin

text \<open>
  The variants of the platform files: the address and the route of the resolver on darwin
  (\<open>iface_alias_darwin.go\<close>, \<open>dns_route_darwin.go\<close>) and elsewhere (\<open>iface_alias_stub.go\<close>, \<open>dns_route_stub.go\<close>), the queue
  runner of systems without \<open>tc\<close> (\<open>internal/pcq/apply_stub.go\<close>) and the uptime of the tunnel (\<open>uptime_linux.go\<close>,
  \<open>uptime_other.go\<close>). The locale \<open>address_ops\<close> is what the resolver relies on; linux and darwin are its instances.
\<close>

section \<open>Darwin\<close>

definition darwin_interfaceHasIPv4 :: "'m run \<Rightarrow> string \<Rightarrow> string \<Rightarrow> 'm world \<Rightarrow> 'm world \<times> bool res" where
  "darwin_interfaceHasIPv4 run iface ip wd =
     (case execStdoutTimeout run [''ifconfig'', iface] wd of
        (wd1, Inl e) \<Rightarrow> (wd1, Inl e)
      | (wd1, Inr out) \<Rightarrow> (wd1, Inr (contains_str out (''inet '' @ ip) \<or> contains_str out (ip @ '' --> '' @ ip))))"

definition darwin_addInterfaceAlias :: "'m run \<Rightarrow> string \<Rightarrow> string \<Rightarrow> 'm world \<Rightarrow> 'm world \<times> goerr option" where
  "darwin_addInterfaceAlias run iface ip wd =
     (case darwin_interfaceHasIPv4 run iface ip wd of
        (wd1, Inl e) \<Rightarrow> (wd1, Some e)
      | (wd1, Inr True) \<Rightarrow> (wd1, None)
      | (wd1, Inr False) \<Rightarrow>
          tolerant run [''ifconfig'', iface, ''inet'', ip, ip, ''alias''] [''already exists'', ''file exists''] wd1)"

definition darwin_removeInterfaceAlias :: "'m run \<Rightarrow> string \<Rightarrow> string \<Rightarrow> 'm world \<Rightarrow> 'm world \<times> goerr option" where
  "darwin_removeInterfaceAlias run iface ip wd =
     (case darwin_interfaceHasIPv4 run iface ip wd of
        (wd1, Inl e) \<Rightarrow> (wd1, Some e)
      | (wd1, Inr False) \<Rightarrow> (wd1, None)
      | (wd1, Inr True) \<Rightarrow>
          tolerant run [''ifconfig'', iface, ''inet'', ip, ip, ''-alias''] [''not found'', ''does not exist''] wd1)"

definition darwin_addDNSHostRoute :: "'m run \<Rightarrow> string \<Rightarrow> string \<Rightarrow> 'm world \<Rightarrow> 'm world \<times> goerr option" where
  "darwin_addDNSHostRoute run iface ip wd =
     tolerant run [''route'', ''-q'', ''add'', ''-host'', ip, ''-interface'', iface]
       [''file exists'', ''already in table'', ''already exists''] wd"

definition darwin_removeDNSHostRoute :: "'m run \<Rightarrow> string \<Rightarrow> string \<Rightarrow> 'm world \<Rightarrow> 'm world \<times> goerr option" where
  "darwin_removeDNSHostRoute run iface ip wd =
     tolerant run [''route'', ''-q'', ''delete'', ''-host'', ip] [''not in table'', ''not found''] wd"

section \<open>Other systems\<close>

definition stub_addInterfaceAlias :: "string \<Rightarrow> string \<Rightarrow> goerr option" where
  "stub_addInterfaceAlias iface ip = Some (ErrMsg ''automatic DNS interface addresses are not supported on this platform'')"

definition stub_removeInterfaceAlias :: "string \<Rightarrow> string \<Rightarrow> goerr option" where
  "stub_removeInterfaceAlias iface ip = None"

definition stub_addDNSHostRoute :: "string \<Rightarrow> string \<Rightarrow> goerr option" where
  "stub_addDNSHostRoute iface ip = None"

definition stub_removeDNSHostRoute :: "string \<Rightarrow> string \<Rightarrow> goerr option" where
  "stub_removeDNSHostRoute iface ip = None"

text \<open>The options of a run: whether debugging is on and there is a logger. The result is the log, a command with its index each.\<close>

record apply_opts =
  op_debug :: bool
  op_logger :: bool

definition op_log :: "apply_opts \<Rightarrow> bool" where
  "op_log opts \<longleftrightarrow> \<not> (\<not> op_debug opts \<or> \<not> op_logger opts)"

definition stub_runCommands :: "argv list \<Rightarrow> apply_opts \<Rightarrow> (nat \<times> argv) list \<times> goerr option" where
  "stub_runCommands cmds opts =
     (if op_log opts then (filter (\<lambda>(_, argv). argv \<noteq> []) (enumerate 0 cmds), None) else ([], None))"

text \<open>
  The uptime of the tunnel is the age of its directory in \<open>/sys/class/net\<close>. \<open>ctime\<close> is the time of change that
  \<open>Stat\<close> gives, in seconds, None when it fails; \<open>now\<close> is in nanoseconds.
\<close>

definition GetTunnelUptimeSeconds :: "(string \<Rightarrow> int option) \<Rightarrow> int \<Rightarrow> bool \<Rightarrow> string option \<Rightarrow> int option" where
  "GetTunnelUptimeSeconds ctime now up iface =
     (case iface of
        None \<Rightarrow> None
      | Some i \<Rightarrow>
          if \<not> up then None
          else (case ctime (''/sys/class/net/'' @ i) of
             None \<Rightarrow> None
           | Some sec \<Rightarrow>
               if sec \<le> 0 then None
               else (let age = go_div (now - sec * 1000000000) 1000000000 in if age < 0 then None else Some age)))"

definition other_GetTunnelUptimeSeconds :: "bool \<Rightarrow> string option \<Rightarrow> int option" where
  "other_GetTunnelUptimeSeconds up iface = None"

section \<open>What the resolver relies on\<close>

text \<open>
  \<open>has\<close> asks the machine for an address; \<open>add\<close> and \<open>remove\<close> act only when the answer calls for it, and
  an answer that cannot be had is their error.
\<close>

locale address_ops =
  fixes has :: "'m run \<Rightarrow> string \<Rightarrow> string \<Rightarrow> 'm world \<Rightarrow> 'm world \<times> bool res"
    and add :: "'m run \<Rightarrow> string \<Rightarrow> string \<Rightarrow> 'm world \<Rightarrow> 'm world \<times> goerr option"
    and remove :: "'m run \<Rightarrow> string \<Rightarrow> string \<Rightarrow> 'm world \<Rightarrow> 'm world \<times> goerr option"
  assumes add_there: "has run iface ip wd = (wd1, Inr True) \<Longrightarrow> add run iface ip wd = (wd1, None)"
    and remove_gone: "has run iface ip wd = (wd1, Inr False) \<Longrightarrow> remove run iface ip wd = (wd1, None)"
    and add_blind: "has run iface ip wd = (wd1, Inl e) \<Longrightarrow> add run iface ip wd = (wd1, Some e)"
    and remove_blind: "has run iface ip wd = (wd1, Inl e) \<Longrightarrow> remove run iface ip wd = (wd1, Some e)"
begin

text \<open>A machine that only answers a query: the address stays as it was seen and a second call does nothing.\<close>

definition answers :: "'m run \<Rightarrow> string \<Rightarrow> string \<Rightarrow> 'm world \<Rightarrow> bool res \<Rightarrow> bool" where
  "answers run iface ip wd a \<longleftrightarrow> has run iface ip wd = (wd, a)"

lemma add_again:
  assumes "add run iface ip wd = (wd1, None)" and "answers run iface ip wd1 (Inr True)"
  shows "add run iface ip wd1 = (wd1, None)"
  using add_there assms(2) by (simp add: answers_def)

lemma remove_again:
  assumes "remove run iface ip wd = (wd1, None)" and "answers run iface ip wd1 (Inr False)"
  shows "remove run iface ip wd1 = (wd1, None)"
  using remove_gone assms(2) by (simp add: answers_def)

text \<open>Where an address was there before, adding and removing it is removing it, and conversely.\<close>

lemma add_then_remove:
  assumes "answers run iface ip wd (Inr True)"
  shows "remove run iface ip (fst (add run iface ip wd)) = remove run iface ip wd"
  using add_there assms by (simp add: answers_def)

lemma remove_then_add:
  assumes "answers run iface ip wd (Inr False)"
  shows "add run iface ip (fst (remove run iface ip wd)) = add run iface ip wd"
  using remove_gone assms by (simp add: answers_def)

end

interpretation linux: address_ops interfaceHasIPv4 addInterfaceAlias removeInterfaceAlias
  by unfold_locales (simp_all add: addInterfaceAlias_def removeInterfaceAlias_def)

interpretation darwin: address_ops darwin_interfaceHasIPv4 darwin_addInterfaceAlias darwin_removeInterfaceAlias
  by unfold_locales (simp_all add: darwin_addInterfaceAlias_def darwin_removeInterfaceAlias_def)

section \<open>An address that hides another\<close>

text \<open>
  On darwin an address of the interface that only begins like the wanted one, say 10.0.0.15 for 10.0.0.1, counts as the
  wanted one: adding reports success and runs nothing but the query, and removing runs its command.
\<close>

theorem darwin_address_prefix:
  assumes "execStdoutTimeout run [''ifconfig'', iface] wd = (wd1, Inr (before @ ''inet '' @ ip @ tail @ rest))"
  shows "darwin_addInterfaceAlias run iface ip wd = (wd1, None)
    \<and> darwin_removeInterfaceAlias run iface ip wd =
        tolerant run [''ifconfig'', iface, ''inet'', ip, ip, ''-alias''] [''not found'', ''does not exist''] wd1"
proof -
  have "contains_str (before @ (''inet '' @ ip) @ (tail @ rest)) (''inet '' @ ip)" unfolding contains_str_iff by blast
  then have "darwin_interfaceHasIPv4 run iface ip wd = (wd1, Inr True)"
    using assms by (simp add: darwin_interfaceHasIPv4_def)
  then show ?thesis using darwin.add_there by (simp add: darwin_removeInterfaceAlias_def)
qed

text \<open>An interface with the one address 10.0.0.15; the machine counts the commands that change it.\<close>

definition ex_darwin :: "nat run" where
  "ex_darwin argv wd =
     (if argv = [''ifconfig'', ''utun4''] then (wd, \<lparr>o_ok = True, o_stdout = ''inet 10.0.0.15 --> 10.0.0.15'', o_stderr = [], o_err = [], o_timeout = False\<rparr>)
      else (wd\<lparr>wd_machine := Suc (wd_machine wd)\<rparr>, \<lparr>o_ok = True, o_stdout = [], o_stderr = [], o_err = [], o_timeout = False\<rparr>))"

lemma darwin_address_prefix_witness:
  "darwin_addInterfaceAlias ex_darwin ''utun4'' ''10.0.0.1'' \<lparr>wd_fs = (\<lambda>_. None), wd_machine = 0\<rparr>
     = (\<lparr>wd_fs = (\<lambda>_. None), wd_machine = 0\<rparr>, None)"
proof -
  have "execStdoutTimeout ex_darwin [''ifconfig'', ''utun4''] \<lparr>wd_fs = (\<lambda>_. None), wd_machine = 0\<rparr>
    = (\<lparr>wd_fs = (\<lambda>_. None), wd_machine = 0\<rparr>, Inr ([] @ ''inet '' @ ''10.0.0.1'' @ ''5'' @ '' --> 10.0.0.15''))"
    by (simp add: execStdoutTimeout_def ex_darwin_def)
  from darwin_address_prefix [OF this] show ?thesis by blast
qed

end
