(* ===== verification/Spec2Isabelle.thy ===== *)
theory Spec2Isabelle
  imports Wg_Roundtrip App_Start App_Routes App_Group_Pages App_View Dns_Platform
begin

text \<open>
  A verification library for NetPlug, a web interface over SQLite that runs a WireGuard server, shapes
  its clients with \<open>tc\<close> and answers their DNS queries with CoreDNS. All paths below are under \<open>src/\<close>.

  The parts and how they interact. One SQLite database (\<open>internal/db\<close>) is the only shared state: the
  server, its users, groups, queue presets, DNS settings, rewrites and rules, administrators and the
  set-up flag. The handlers (\<open>internal/app\<close>) change it and then make the machine follow: \<open>wg0.conf\<close> is rendered from
  the database, renamed into place and synchronised into the running interface
  (\<open>internal/wireguard/config.go\<close>, \<open>apply.go\<close>), the queues of the interface are rebuilt from the limits of the
  groups (\<open>internal/pcq\<close>), and CoreDNS is restarted on files rendered from the rewrites and rules
  (\<open>internal/dns\<close>). Beside the handlers runs the synchronisation (\<open>internal/wireguard/syncer.go\<close>), which
  reads \<open>wg show dump\<close> and, in one transaction, meters traffic and days and switches users off.

  Foundations.
    \<open>Prelude\<close>: Go errors as values, fallible results, the 64-bit wrap \<open>i64\<close>, rows as lists, locale
      \<open>order_free\<close> for folds that do not depend on the order of rows. \<open>Go_Strings\<close>, \<open>Go_Net\<close>, \<open>Go_Time\<close>: what the code uses of the standard
      library, with the locale \<open>text_codec\<close> for printed and parsed addresses.
    \<open>Store\<close>: one record per table, the database as the record \<open>db\<close>, the constraints of the schema as
      \<open>db_ok\<close>, the statements that touch several rows, locale \<open>keyed_table\<close>. \<open>Store_Schema\<close>: the catalogue of tables,
      columns and indexes, the baseline and the patches every start runs (\<open>migrate.go\<close>, \<open>schema_patches.go\<close>), and that a file
      whose tables have the columns they were introduced with (\<open>first_columns\<close>, a list of its own) ends with every column
      the statements of the program name (\<open>needed_columns\<close>, another).
  WireGuard.
    \<open>Peers\<close>: allocation of client addresses (\<open>peers.go\<close>) against the specification \<open>free_host\<close>.
    \<open>Wgquick\<close>, \<open>Wg_Config\<close>, \<open>Wg_Roundtrip\<close>: the parser (\<open>wgquick_parse.go\<close>) and the writer (\<open>config.go\<close>) of
      \<open>wg0.conf\<close>, and that the one reads what the other writes.
    \<open>Wg_Apply\<close>: writing, reloading and restarting (\<open>apply.go\<close>) on a world of files and machine.
    \<open>Wg_State\<close>: set-up, live status, loading, saving, client configurations (\<open>setup.go\<close>, \<open>live.go\<close>,
      \<open>state.go\<close>, \<open>clientconf.go\<close>).
    \<open>Syncer\<close>: the synchronisation and the start and stop of its loop (\<open>syncer.go\<close>), which synchronises once before it looks
      at its context; its runs refine an abstract meter of traffic.
    \<open>Backup\<close>: export and restore (\<open>backup.go\<close>). \<open>Backup_Crypto\<close>: the encrypted archive (\<open>backup_crypto.go\<close>),
      Base64 included, and that an archive is read back with its password.
  Queues.
    \<open>Pcq_Limits\<close>: the least limit of a user over its groups (\<open>load.go\<close>, \<open>tunnel.go\<close>), through the locale
      \<open>order_free\<close> independent of the order of rows. \<open>Pcq_Plan\<close>: the commands (\<open>plan.go\<close>),
      and \<open>limits_hold\<close>, what commands in force do to an address, read off their arguments alone: each address has
      the rates of its own limits and no other address is limited.
    \<open>Pcq_Apply\<close>: running them (\<open>apply.go\<close>, \<open>apply_linux.go\<close>) against the contract \<open>tc_contract\<close>, which assumes no success.
  DNS.
    \<open>Dns_Records\<close>: settings, rewrites and rules (\<open>internal/db/dns_config.go\<close>, \<open>dns_records.go\<close>, \<open>dns_filter.go\<close>).
    \<open>Dns_Listen\<close>: the addresses of the resolver (\<open>dns_listen.go\<close>, \<open>dns_auto.go\<close>).
    \<open>Dns_Files\<close>: zone, hosts and block files (\<open>zonefile.go\<close>, \<open>hostsfile.go\<close>, \<open>blocklist.go\<close>).
    \<open>Dns_Manager\<close>: the manager of the CoreDNS process, its Corefile, address alias and route
      (\<open>manager.go\<close>, \<open>rewrites.go\<close>, \<open>internal/dns/apply.go\<close>, \<open>dns_iface.go\<close>, \<open>iface_alias_linux.go\<close>,
      \<open>dns_route_linux.go\<close>), as a step relation with process deaths. \<open>Dns_Platform\<close>: the variants for darwin and
      other systems and the uptime of the tunnel, locale \<open>address_ops\<close>.
  Handlers.
    \<open>App_Core\<close>: requests, answers, \<open>applyWireGuardFromDB\<close> and \<open>reconcilePCQ\<close>. \<open>App_Users\<close>: users and the import of
      peers. \<open>App_Queues\<close>: groups and presets (\<open>groups_handlers.go\<close>, \<open>pcq_handlers.go\<close>). \<open>App_Setup\<close>:
      sessions, login, set-up and import (\<open>handlers.go\<close>, \<open>bootstrap.go\<close>). \<open>App_Dns\<close>: the handlers of the resolver.
      \<open>App_Server\<close>: the handlers of the server, of backup and of restore.
    \<open>Bandwidth\<close>: the history of traffic by hours, days and months (\<open>handlers.go\<close>). \<open>App_Pages\<close>, \<open>App_Group_Pages\<close>: the
      data the pages hand to the templates, with the number formats and the forms that are saved back.
    \<open>App_View\<close>: how a page is put together from its template (\<open>internal/view\<close>), whole or as a fragment, and what is sent when
      the template fails; the pages without rows. \<open>Go_Float\<close>: the rounding of the shares of the overview and of rates.
    \<open>App_Routes\<close>: the table of routes (\<open>routes.go\<close>, and the embedded files of \<open>main.go\<close>) and what a request without a session can do.
    \<open>App_Config\<close>: environment, revision and breadcrumbs (\<open>config.go\<close>, \<open>internal/version\<close>, \<open>internal/view\<close>).
    \<open>App_Program\<close>: the start and the end of the process (\<open>cmd/netplug/main.go\<close>) and the steps of the running program: requests,
      synchronisations and resolver events on one state. \<open>App_Start\<close>: the start with its database file.

  Interfaces between the parts are locales: \<open>order_free\<close>, \<open>text_codec\<close>, \<open>keyed_table\<close>, \<open>address_ops\<close>, and \<open>kept_by_steps\<close>, an
  invariant that every step of a relation keeps, interpreted for the requests of a visitor (\<open>front_reqs\<close>), of
  user management (\<open>user_reqs\<close>), of the resolver (\<open>dns_reqs\<close>), for the manager with its process (\<open>resolver\<close>), for
  the whole program (\<open>program\<close>) and for the statements on the catalogue (\<open>catalogue\<close>).

  How code becomes definitions. A Go function is a definition of the same name; a receiver's fields and the
  database are arguments and results. A method that mutates returns the new state. An error return is
  the left summand of a sum, a panic does not occur in the modelled code. \<open>int\<close> and \<open>int64\<close> are
  integers wrapped by \<open>i64\<close> where a product or a sum can leave 64 bits; counters and addresses of a fixed width are
  words. A loop over a slice is recursion on the list; a Go map is an association list or a function, and
  where its iteration order can be seen the order is a parameter. A transaction returns the old database on
  failure. Requests that interleave are step relations (\<open>front_step\<close>, \<open>user_step\<close>,
  \<open>dns_request\<close>, \<open>dns_step\<close>, \<open>sy_step\<close>, \<open>program_step\<close>)
  with invariants by rule induction. Every recursion is total; no fuel is used.

  Parameters. What is not in the repository or decided outside the program is an argument: the
  programs \<open>wg\<close>, \<open>wg-quick\<close>, \<open>tc\<close>, \<open>ip\<close>, \<open>git\<close> and CoreDNS (functions from arguments and state to state and output),
  failing file operations and statements, clock readings and the time zone, the environment, random
  identifiers and keys, bcrypt, scrypt and AES-GCM, the JSON texts, the derivation of public keys, fetched
  block lists, the router, the templates, and the Unicode tables outside ASCII. Hypotheses on them are named:
  \<open>tc_contract\<close> (a \<open>tc\<close> command that adds an object installs it, or fails and changes nothing; the shell lines of the
  deletions end well whatever \<open>tc\<close> did), \<open>clears\<close> (from this state the deletions empty the interface), \<open>keeps_conf\<close> (the programs
  leave \<open>wg0.conf\<close> alone), \<open>key_env\<close> (a generated pair belongs together), \<open>crypto_contract\<close> (what was sealed under
  a key and nonce is opened under them, to what was sealed), \<open>json_keeps\<close> and \<open>json_keeps_file\<close> (a written
  text is read back), \<open>registered\<close> (the router answers with a route of \<open>RegisterRoutes\<close> or one of \<open>main\<close>'s own). Each has a concrete instance in
  the witnesses.

  Idealisations. The rates of the plan and the shares of the overview are rounded as \<open>float64\<close> is and converted as on amd64.
  Elsewhere \<open>float64\<close> is exact: a limit typed into a form is rounded from its exact decimal value, in decimal notation only,
  and a duration in seconds, hours or days is the quotient. Waiting for a killed process ends. Error messages leave out quoted input; dashes, bullets and arrows in
  messages are ASCII. Statements on SQLite that fail for reasons other than a
  constraint are modelled in the synchronisation and in the export, elsewhere they are taken to succeed.

  Not modelled. The text of the HTML templates, their engine and the embedded assets, which are third-party code and data; the
  calls of third parties that make keys and identifiers (\<open>keys.go\<close>, \<open>ids.go\<close>), whose results are parameters; sockets, timeouts
  and the middleware of the HTTP server, whose order of requests is that of the step relations. At the end of the process all
  requests are taken to be over; \<open>server.Shutdown\<close> waits for them ten seconds at most.
\<close>

end
